(* ===== verification/Prelude.thy ===== *)
theory Prelude
  imports Main "HOL-Library.Word"
begin

text \<open>
  Shared vocabulary of the development: machine integers, byte strings, the checked and
  saturating arithmetic of the Rust standard library, little-endian encoding
  (\<^verbatim>\<open>to_le_bytes\<close> / \<^verbatim>\<open>from_le_bytes\<close>), errors as sums, and the list lemmas the
  component theories share.
\<close>

unbundle bit_operations_syntax

named_theorems const_defs \<open>the source's named constants\<close>
named_theorems byte_simps \<open>lengths and round trips of byte encodings\<close>

type_synonym u8 = "8 word"
type_synonym u16 = "16 word"
type_synonym u32 = "32 word"
type_synonym u64 = "64 word"
type_synonym bytes = "8 word list"

section \<open>Rust integer operations\<close>

definition checked_add :: "'a::len word \<Rightarrow> 'a word \<Rightarrow> 'a word option" where
  "checked_add a b = (if unat a + unat b < 2 ^ LENGTH('a) then Some (a + b) else None)"

definition checked_mul :: "'a::len word \<Rightarrow> 'a word \<Rightarrow> 'a word option" where
  "checked_mul a b = (if unat a * unat b < 2 ^ LENGTH('a) then Some (a * b) else None)"

definition saturating_sub :: "'a::len word \<Rightarrow> 'a word \<Rightarrow> 'a word" where
  "saturating_sub a b = (if b \<le> a then a - b else 0)"

definition saturating_mul :: "'a::len word \<Rightarrow> 'a word \<Rightarrow> 'a word" where
  "saturating_mul a b = (if unat a * unat b < 2 ^ LENGTH('a) then a * b else - 1)"

definition div_ceil :: "'a::len word \<Rightarrow> 'a word \<Rightarrow> 'a word" where
  "div_ceil a b = (if a mod b = 0 then a div b else a div b + 1)"

lemma unat_less_exp: "unat (w :: 'a::len word) < 2 ^ LENGTH('a)"
  by (rule unsigned_less)

lemma unat_saturating_sub [simp]: "unat (saturating_sub a b) = unat a - unat b"
  by (auto simp: saturating_sub_def unat_sub word_le_nat_alt)

lemma checked_add_Some:
  "checked_add a b = Some c \<longleftrightarrow> c = a + b \<and> unat a + unat b < 2 ^ LENGTH('a)"
  for a :: "'a::len word"
  by (auto simp: checked_add_def)

lemma checked_add_unat:
  "checked_add a b = Some c \<Longrightarrow> unat c = unat a + unat b"
  by (auto simp: checked_add_def unat_word_ariths split: if_splits)

lemma checked_mul_unat:
  "checked_mul a b = Some c \<Longrightarrow> unat c = unat a * unat b"
  by (auto simp: checked_mul_def unat_word_ariths split: if_splits)

text \<open>One branch at a time through the dispatch of a match on addresses.\<close>

lemma if_branches: "(c \<Longrightarrow> P x) \<Longrightarrow> (\<not> c \<Longrightarrow> P y) \<Longrightarrow> P (if c then x else y)"
  by simp

section \<open>Loops\<close>

text \<open>
  A loop over states is a partial function \<open>f\<close>. It returns a result with \<open>Q\<close> from every state
  with the invariant \<open>I\<close> if each turn stops with such a result or goes on from a state that
  keeps \<open>I\<close> and is smaller.
\<close>

lemma loop_returns:
  assumes "wf R" and "I s"
    and turn: "\<And>s. I s \<Longrightarrow> (\<exists>y. f s = Some y \<and> Q y) \<or> (\<exists>s'. f s = f s' \<and> I s' \<and> (s', s) \<in> R)"
  shows "\<exists>y. f s = Some y \<and> Q y"
  using assms(1,2)
proof (induction s rule: wf_induct_rule)
  case (less s)
  with turn [OF less.prems] show ?case by auto
qed

section \<open>Results\<close>

type_synonym ('e, 'a) result = "'e + 'a"

definition is_err :: "('e, 'a) result \<Rightarrow> bool" where
  "is_err r = (case r of Inl _ \<Rightarrow> True | Inr _ \<Rightarrow> False)"

lemma is_err_simps [simp]: "is_err (Inl e)" "\<not> is_err (Inr a)"
  by (simp_all add: is_err_def)

lemma is_err_iff: "is_err r \<longleftrightarrow> (\<exists>e. r = Inl e)"
  by (cases r) auto

text \<open>
  Effects on a world \<open>'w\<close> (guest memory and host operating system) are threaded
  explicitly. \<open>try_then\<close> is the question mark of Rust: stop at the first error, keeping the
  effects done so far.
\<close>

type_synonym ('e, 'a, 'w) effect = "('e, 'a) result \<times> 'w"

definition try_then ::
  "('e, 'a, 'w) effect \<Rightarrow> ('a \<Rightarrow> 'w \<Rightarrow> ('e, 'b, 'w) effect) \<Rightarrow> ('e, 'b, 'w) effect" where
  "try_then r f = (case r of (Inl e, w) \<Rightarrow> (Inl e, w) | (Inr a, w) \<Rightarrow> f a w)"

definition map_err :: "('e \<Rightarrow> 'f) \<Rightarrow> ('e, 'a, 'w) effect \<Rightarrow> ('f, 'a, 'w) effect" where
  "map_err g r = (case r of (Inl e, w) \<Rightarrow> (Inl (g e), w) | (Inr a, w) \<Rightarrow> (Inr a, w))"

lemma try_then_simps [simp]:
  "try_then (Inl e, w) f = (Inl e, w)"
  "try_then (Inr a, w) f = f a w"
  by (simp_all add: try_then_def)

lemma map_err_simps [simp]:
  "map_err g (Inl e, w) = (Inl (g e), w)"
  "map_err g (Inr a, w) = (Inr a, w)"
  by (simp_all add: map_err_def)

lemma try_then_Inr:
  "try_then r f = (Inr b, w') \<longleftrightarrow> (\<exists>a w. r = (Inr a, w) \<and> f a w = (Inr b, w'))"
  by (cases r; cases "fst r") (auto simp: try_then_def split: sum.splits)

lemma map_err_Inr: "map_err g r = (Inr a, w) \<longleftrightarrow> r = (Inr a, w)"
  by (cases r; cases "fst r") (auto simp: map_err_def split: sum.splits)

lemma fst_map_err: "fst (map_err g r) = (case fst r of Inl e \<Rightarrow> Inl (g e) | Inr a \<Rightarrow> Inr a)"
  by (cases r; cases "fst r") (auto simp: map_err_def split: sum.splits)

lemma snd_map_err [simp]: "snd (map_err g r) = snd r"
  by (cases r; cases "fst r") (auto simp: map_err_def split: sum.splits)

text \<open>
  The same without a threaded world, for code whose only effect is in its result, and a
  \<^verbatim>\<open>for\<close> loop whose body may return early with an error.
\<close>

definition and_then :: "('e, 'a) result \<Rightarrow> ('a \<Rightarrow> ('e, 'b) result) \<Rightarrow> ('e, 'b) result" where
  "and_then r f = (case r of Inl e \<Rightarrow> Inl e | Inr a \<Rightarrow> f a)"

definition with_err :: "('e \<Rightarrow> 'f) \<Rightarrow> ('e, 'a) result \<Rightarrow> ('f, 'a) result" where
  "with_err g r = (case r of Inl e \<Rightarrow> Inl (g e) | Inr a \<Rightarrow> Inr a)"

primrec for_each :: "('i \<Rightarrow> 's \<Rightarrow> ('e, 's) result) \<Rightarrow> 'i list \<Rightarrow> 's \<Rightarrow> ('e, 's) result" where
  "for_each f [] s = Inr s"
| "for_each f (i # is) s = and_then (f i s) (for_each f is)"

lemma and_then_simps [simp]: "and_then (Inl e) f = Inl e" "and_then (Inr a) f = f a"
  by (simp_all add: and_then_def)

lemma with_err_simps [simp]: "with_err g (Inl e) = Inl (g e)" "with_err g (Inr a) = Inr a"
  by (simp_all add: with_err_def)

lemma and_then_Inr: "and_then r f = Inr b \<longleftrightarrow> (\<exists>a. r = Inr a \<and> f a = Inr b)"
  by (cases r) auto

lemma with_err_Inr: "with_err g r = Inr a \<longleftrightarrow> r = Inr a"
  by (cases r) auto

lemma for_each_append: "for_each f (xs @ ys) s = and_then (for_each f xs s) (for_each f ys)"
  by (induction xs arbitrary: s) (auto simp: and_then_def split: sum.splits)

lemma for_range_ok:
  assumes "I a s" and "a \<le> b"
    and step: "\<And>i s. a \<le> i \<Longrightarrow> i < b \<Longrightarrow> I i s \<Longrightarrow> \<exists>s'. f i s = Inr s' \<and> I (Suc i) s'"
  shows "\<exists>s'. for_each f [a..<b] s = Inr s' \<and> I b s'"
  using assms(2) step
proof (induction b rule: dec_induct)
  case base
  with assms(1) show ?case by simp
next
  case (step n)
  then obtain s' where "for_each f [a..<n] s = Inr s'" "I n s'" by (meson less_SucI)
  then show ?case using step.prems [of n s'] step.hyps by (auto simp: for_each_append)
qed

section \<open>Little-endian bytes\<close>

definition le_bytes :: "nat \<Rightarrow> 'a::len word \<Rightarrow> bytes" where
  "le_bytes n w = map (\<lambda>i. ucast (drop_bit (8 * i) w)) [0..<n]"

primrec le_word :: "bytes \<Rightarrow> 'a::len word" where
  "le_word [] = 0"
| "le_word (b # bs) = ucast b OR push_bit 8 (le_word bs)"

lemma length_le_bytes [simp, byte_simps]: "length (le_bytes n w) = n"
  by (simp add: le_bytes_def)

lemma nth_le_bytes [simp]: "i < n \<Longrightarrow> le_bytes n w ! i = ucast (drop_bit (8 * i) w)"
  by (simp add: le_bytes_def)

lemma le_bytes_Suc: "le_bytes (Suc n) w = ucast w # le_bytes n (drop_bit 8 w)"
  by (simp add: le_bytes_def map_upt_Suc drop_bit_drop_bit add.commute del: upt_Suc)

lemma bit_le_word:
  "bit (le_word bs :: 'a::len word) k \<longleftrightarrow>
     k < LENGTH('a) \<and> k < 8 * length bs \<and> bit (bs ! (k div 8)) (k mod 8)"
proof (induction bs arbitrary: k)
  case Nil
  then show ?case by simp
next
  case (Cons b bs)
  show ?case
  proof (cases "k < 8")
    case True
    then show ?thesis
      by (auto simp: bit_or_iff bit_ucast_iff bit_push_bit_iff)
  next
    case False
    then have "k div 8 = Suc ((k - 8) div 8)" "k mod 8 = (k - 8) mod 8"
      by (auto simp: le_div_geq le_mod_geq)
    moreover have "\<not> bit b k"
      using False by (auto dest: bit_imp_le_length)
    ultimately show ?thesis
      using False by (auto simp: bit_or_iff bit_ucast_iff bit_push_bit_iff Cons.IH)
  qed
qed

lemma le_word_le_bytes:
  "le_word (le_bytes n w) = take_bit (8 * n) (w :: 'a::len word)"
proof (rule bit_eqI)
  fix k :: nat
  have "8 * (k div 8) + k mod 8 = k" by simp
  moreover have "k < 8 * n \<Longrightarrow> k div 8 < n" by (simp add: less_mult_imp_div_less mult.commute)
  ultimately show "bit (le_word (le_bytes n w) :: 'a word) k = bit (take_bit (8 * n) w) k"
    by (auto simp: bit_le_word bit_take_bit_iff bit_ucast_iff bit_drop_bit_eq
        dest: bit_imp_le_length)
qed

lemma le_roundtrip [simp, byte_simps]:
  "LENGTH('a) \<le> 8 * n \<Longrightarrow> le_word (le_bytes n w) = (w :: 'a::len word)"
  by (simp add: le_word_le_bytes take_bit_word_eq_self)

lemma le_bytes_le_word:
  assumes "length bs = n" and "8 * n \<le> LENGTH('a::len)"
  shows "le_bytes n (le_word bs :: 'a word) = bs"
proof (rule nth_equalityI)
  show "length (le_bytes n (le_word bs :: 'a word)) = length bs"
    using assms by simp
next
  fix i assume "i < length (le_bytes n (le_word bs :: 'a word))"
  then have i: "i < n" by simp
  show "le_bytes n (le_word bs :: 'a word) ! i = bs ! i"
  proof (rule bit_eqI)
    fix k
    show "bit (le_bytes n (le_word bs :: 'a word) ! i) k = bit (bs ! i) k"
    proof (cases "k < 8")
      case True
      then have "(8 * i + k) div 8 = i" "(8 * i + k) mod 8 = k" by auto
      moreover have "8 * i + k < 8 * n" using i True by linarith
      ultimately show ?thesis
        using True i assms
        by (simp add: bit_ucast_iff bit_drop_bit_eq bit_le_word add.commute)
    next
      case False
      then show ?thesis by (auto dest: bit_imp_le_length)
    qed
  qed
qed

section \<open>Text\<close>

text \<open>Decimal rendering of an unsigned integer (\<^verbatim>\<open>Display\<close>), and text as its bytes.\<close>

definition digit_char :: "nat \<Rightarrow> char" where
  "digit_char d = char_of (48 + d)"

fun decimal :: "nat \<Rightarrow> string" where
  "decimal n = (if n < 10 then [digit_char n] else decimal (n div 10) @ [digit_char (n mod 10)])"

declare decimal.simps [simp del]

definition ascii :: "string \<Rightarrow> bytes" where
  "ascii s = map of_char s"

text \<open>
  \<^verbatim>\<open>str::parse\<close> for an unsigned type of \<open>2 ^ w\<close> values, on a string of ASCII digits: the
  value, unless it does not fit.
\<close>

definition is_ascii_digit :: "u8 \<Rightarrow> bool" where
  "is_ascii_digit b \<longleftrightarrow> 48 \<le> b \<and> b \<le> 57"

definition digits_value :: "bytes \<Rightarrow> nat" where
  "digits_value bs = foldl (\<lambda>acc b. 10 * acc + (unat b - 48)) 0 bs"

definition parse_digits :: "bytes \<Rightarrow> 'a::len word option" where
  "parse_digits bs =
     (if bs \<noteq> [] \<and> list_all is_ascii_digit bs \<and> digits_value bs < 2 ^ LENGTH('a)
      then Some (of_nat (digits_value bs)) else None)"

end
