(* ===== verification/Config.thy ===== *)
theory Config
  imports Prelude
begin

text \<open>
  \<^verbatim>\<open>src/error.rs\<close>, \<^verbatim>\<open>src/config.rs\<close> and \<^verbatim>\<open>src/memory.rs\<close>: the error values, the VM
  configuration and the guest RAM range, with the guest memory of the \<^verbatim>\<open>vm_memory\<close> crate
  and the KVM memslot call as parameters.
\<close>

section \<open>Errors (error.rs)\<close>

datatype io_kind = WouldBlock | Interrupted | PermissionDenied | WriteZero | UnexpectedEof
  | InvalidInput | OtherKind

text \<open>
  A \<^verbatim>\<open>std::io::Error\<close> is an operating-system error number or a kind with a message. The
  numbers are those of Linux.
\<close>

datatype io_error = Os int | Custom io_kind string

definition EPERM :: int where [const_defs]: "EPERM = 1"
definition EINTR :: int where [const_defs]: "EINTR = 4"
definition EAGAIN :: int where [const_defs]: "EAGAIN = 11"
definition EACCES :: int where [const_defs]: "EACCES = 13"
definition EINVAL :: int where [const_defs]: "EINVAL = 22"
definition EINPROGRESS :: int where [const_defs]: "EINPROGRESS = 115"

text \<open>The event bits of \<^verbatim>\<open>poll\<close>.\<close>

definition POLLIN :: u16 where [const_defs]: "POLLIN = 0x01"
definition POLLOUT :: u16 where [const_defs]: "POLLOUT = 0x04"
definition POLLERR :: u16 where [const_defs]: "POLLERR = 0x08"
definition POLLHUP :: u16 where [const_defs]: "POLLHUP = 0x10"
definition POLLNVAL :: u16 where [const_defs]: "POLLNVAL = 0x20"

fun raw_os_error :: "io_error \<Rightarrow> int option" where
  "raw_os_error (Os e) = Some e"
| "raw_os_error (Custom _ _) = None"

fun io_kind_of :: "io_error \<Rightarrow> io_kind" where
  "io_kind_of (Os e) =
     (if e = EAGAIN then WouldBlock
      else if e = EINTR then Interrupted
      else if e = EACCES \<or> e = EPERM then PermissionDenied
      else if e = EINVAL then InvalidInput
      else OtherKind)"
| "io_kind_of (Custom k _) = k"

text \<open>
  The text of an error: a literal, a literal followed by a displayed I/O error, the text of
  an error of a third-party crate, a displayed path between two literals, with the I/O
  error that follows when there is one, or a literal with displayed numbers at its holes.
\<close>

datatype detail = Msg string | MsgIo string io_error | MsgExt string
  | MsgPath string bytes string "io_error option" | MsgNum string "nat list"

datatype error =
    KvmOpen int
  | KvmApiVersion int int
  | KvmIoctl int
  | InvalidMemorySize u64
  | MemoryOverlapsMmio u64 u64 u64
  | InvalidVcpuCount u8 u8
  | FlatBinaryMultiVcpu
  | VcpuThread detail
  | GuestMemory detail
  | MemoryAccess detail
  | ImageIo io_error
  | ImageDoesNotFit u64 nat
  | KernelLoad detail
  | BootConfigure detail
  | Cmdline detail
  | MsrSetup
  | CpuidSetup
  | Serial detail
  | Block detail
  | Net detail
  | Vsock detail
  | Virtio detail
  | UnexpectedExit detail

section \<open>Configuration (config.rs)\<close>

definition MAX_VCPUS :: u8 where [const_defs]: "MAX_VCPUS = 32"

record VmmConfig =
  mem_size :: u64
  num_vcpus :: u8

definition VmmConfig_default :: VmmConfig where
  "VmmConfig_default = \<lparr>mem_size = 256 * 1024 * 1024, num_vcpus = 1\<rparr>"

definition DEFAULT_KERNEL_CMDLINE :: string where [const_defs]:
  "DEFAULT_KERNEL_CMDLINE = ''console=ttyS0 reboot=k panic=1 pci=off nomodule''"

definition INITRD_CMDLINE_EXTRA :: string where [const_defs]:
  "INITRD_CMDLINE_EXTRA = ''rdinit=/init''"

section \<open>Guest RAM (memory.rs)\<close>

definition GUEST_MEM_START :: u64 where [const_defs]: "GUEST_MEM_START = 0"
definition GUEST_RAM_END :: u64 where [const_defs]: "GUEST_RAM_END = 0xd0000000"

definition MAX_GUEST_MEM_SIZE :: u64 where [const_defs]:
  "MAX_GUEST_MEM_SIZE = GUEST_RAM_END - GUEST_MEM_START"

definition MAX_MEMORY_MIB :: u32 where [const_defs]:
  "MAX_MEMORY_MIB = ucast (MAX_GUEST_MEM_SIZE div (1024 * 1024))"

definition validate_mem_size :: "u64 \<Rightarrow> (error, unit) result" where
  "validate_mem_size sz =
     (if sz = 0 \<or> sz mod 4096 \<noteq> 0 then Inl (InvalidMemorySize sz)
      else case checked_add GUEST_MEM_START sz of
        None \<Rightarrow> Inl (InvalidMemorySize sz)
      | Some e \<Rightarrow>
          if e > GUEST_RAM_END
          then Inl (MemoryOverlapsMmio sz MAX_GUEST_MEM_SIZE GUEST_RAM_END)
          else Inr ())"

record kvm_region =
  region_slot :: u32
  guest_phys_addr :: u64
  memory_size :: u64
  userspace_addr :: u64
  region_flags :: u32

text \<open>
  The parameters of \<^verbatim>\<open>create_guest_memory\<close>: \<^verbatim>\<open>GuestMemoryMmap::from_ranges\<close> and
  \<^verbatim>\<open>get_host_address\<close> of \<^verbatim>\<open>vm_memory\<close>, and the KVM ioctl on the VM \<open>'v\<close>.
\<close>

record ('m, 'v) mem_backend =
  from_ranges :: "(u64 \<times> u64) list \<Rightarrow> (string, 'm) result"
  get_host_address :: "'m \<Rightarrow> u64 \<Rightarrow> (string, u64) result"
  set_user_memory_region :: "kvm_region \<Rightarrow> 'v \<Rightarrow> (int, 'v) result"

definition create_guest_memory ::
  "('m, 'v) mem_backend \<Rightarrow> 'v \<Rightarrow> u64 \<Rightarrow> (error, 'm \<times> 'v) result" where
  "create_guest_memory B vm sz =
     (case validate_mem_size sz of Inl e \<Rightarrow> Inl e | Inr _ \<Rightarrow>
      (case from_ranges B [(GUEST_MEM_START, sz)] of
        Inl t \<Rightarrow> Inl (GuestMemory (MsgExt t))
      | Inr m \<Rightarrow>
        (case get_host_address B m GUEST_MEM_START of
          Inl t \<Rightarrow> Inl (GuestMemory (MsgExt t))
        | Inr host \<Rightarrow>
          (case set_user_memory_region B
                  \<lparr>region_slot = 0, guest_phys_addr = GUEST_MEM_START, memory_size = sz,
                   userspace_addr = host, region_flags = 0\<rparr> vm of
            Inl e \<Rightarrow> Inl (KvmIoctl e)
          | Inr vm' \<Rightarrow> Inr (m, vm')))))"

section \<open>Properties\<close>

lemma validate_mem_size_cases:
  "validate_mem_size sz =
     (if sz = 0 \<or> \<not> 4096 dvd unat sz then Inl (InvalidMemorySize sz)
      else if unat sz > 0xd0000000
      then Inl (MemoryOverlapsMmio sz 0xd0000000 0xd0000000)
      else Inr ())"
proof -
  have "sz mod 4096 = 0 \<longleftrightarrow> unat (sz mod 4096) = 0"
    by (simp only: unat_eq_0)
  also have "\<dots> \<longleftrightarrow> 4096 dvd unat sz"
    by (simp add: unat_mod dvd_eq_mod_eq_0)
  finally have "sz mod 4096 = 0 \<longleftrightarrow> 4096 dvd unat sz" .
  then show ?thesis
    using unat_less_exp [of sz]
    by (simp add: validate_mem_size_def checked_add_def const_defs word_less_nat_alt)
qed

end
