(* ===== verification/Virtq.thy ===== *)
theory Virtq
  imports Config
begin

text \<open>
  The third-party interfaces the device models share, as parameters: the split virtqueue
  and its descriptor-chain readers and writers (\<^verbatim>\<open>virtio_queue\<close>), event file descriptors
  (\<^verbatim>\<open>vmm_sys_util\<close>) and the KVM calls that wire them (\<^verbatim>\<open>kvm_ioctls\<close>). Everything they
  touch outside the device is the world \<open>'w\<close>: guest memory, which the guest may also
  change between two calls, and the host.
\<close>

record ('q, 'c, 'r, 'x, 'w) virtq =
  q_new :: "u16 \<Rightarrow> (string, 'q) result"
  q_max_size :: "'q \<Rightarrow> u16"
  q_ready :: "'q \<Rightarrow> bool"
  q_set_size :: "u16 \<Rightarrow> 'q \<Rightarrow> 'q"
  q_set_ready :: "bool \<Rightarrow> 'q \<Rightarrow> 'q"
  q_is_valid :: "'q \<Rightarrow> 'w \<Rightarrow> bool"
  q_set_desc_table_address :: "u32 option \<Rightarrow> u32 option \<Rightarrow> 'q \<Rightarrow> 'q"
  q_set_avail_ring_address :: "u32 option \<Rightarrow> u32 option \<Rightarrow> 'q \<Rightarrow> 'q"
  q_set_used_ring_address :: "u32 option \<Rightarrow> u32 option \<Rightarrow> 'q \<Rightarrow> 'q"
  q_reset :: "'q \<Rightarrow> 'q"
  q_pop :: "'q \<Rightarrow> 'w \<Rightarrow> 'c option \<times> 'q \<times> 'w"
  q_add_used :: "u16 \<Rightarrow> u32 \<Rightarrow> 'q \<Rightarrow> 'w \<Rightarrow> (string, unit) result \<times> 'q \<times> 'w"
  c_head :: "'c \<Rightarrow> u16"
  reader_new :: "'c \<Rightarrow> 'w \<Rightarrow> (string, 'r) result"
  r_avail :: "'r \<Rightarrow> nat"
  r_read_exact :: "nat \<Rightarrow> 'r \<Rightarrow> 'w \<Rightarrow> (io_error, bytes) result \<times> 'r \<times> 'w"
  writer_new :: "'c \<Rightarrow> 'w \<Rightarrow> (string, 'x) result"
  x_avail :: "'x \<Rightarrow> nat"
  x_write_all :: "bytes \<Rightarrow> 'x \<Rightarrow> 'w \<Rightarrow> (io_error, unit) result \<times> 'x \<times> 'w"

text \<open>An event file descriptor is a handle into the world.\<close>

type_synonym EventFd = int

record 'w evfd =
  ev_new :: "'w \<Rightarrow> (io_error, EventFd, 'w) effect"
  ev_clone :: "EventFd \<Rightarrow> 'w \<Rightarrow> (io_error, EventFd, 'w) effect"
  ev_write :: "EventFd \<Rightarrow> u64 \<Rightarrow> 'w \<Rightarrow> (io_error, unit, 'w) effect"
  ev_read :: "EventFd \<Rightarrow> 'w \<Rightarrow> (io_error, u64, 'w) effect"

record 'w kvm_wiring =
  register_irqfd :: "EventFd \<Rightarrow> u32 \<Rightarrow> 'w \<Rightarrow> (int, unit, 'w) effect"
  register_ioevent :: "EventFd \<Rightarrow> u64 \<Rightarrow> u32 \<Rightarrow> 'w \<Rightarrow> (int, unit, 'w) effect"

section \<open>A concrete queue\<close>

text \<open>
  An instance of the queue parameter, used to show that the hypotheses of the properties
  hold together: the world lists the available chains, each with its head, the bytes the
  device may read and the room it may write, and records the used elements and the bytes
  written.
\<close>

record sim_chain =
  sc_head :: u16
  sc_in :: bytes
  sc_room :: nat

record sim_queue =
  sq_max :: u16
  sq_size :: u16
  sq_ready :: bool
  sq_desc :: "u32 option \<times> u32 option"

record sim_world =
  sim_avail :: "sim_chain list"
  sim_taken :: "u16 list"
  sim_used :: "(u16 \<times> u32) list"
  sim_written :: "(u16 \<times> bytes) list"
  sim_events :: "EventFd list"
  sim_next_fd :: int

definition sim_virtq ::
  "(sim_queue, sim_chain, bytes, u16 \<times> nat, sim_world) virtq" where
  "sim_virtq = \<lparr>
     q_new = (\<lambda>n. if n = 0 then Inl ''invalid max size''
                  else Inr \<lparr>sq_max = n, sq_size = n, sq_ready = False, sq_desc = (None, None)\<rparr>),
     q_max_size = sq_max,
     q_ready = sq_ready,
     q_set_size = (\<lambda>n q. if n = 0 \<or> n > sq_max q then q else q\<lparr>sq_size := n\<rparr>),
     q_set_ready = (\<lambda>b q. q\<lparr>sq_ready := b\<rparr>),
     q_is_valid = (\<lambda>q w. sq_ready q \<and> fst (sq_desc q) \<noteq> None),
     q_set_desc_table_address = (\<lambda>lo hi q. q\<lparr>sq_desc := (lo, hi)\<rparr>),
     q_set_avail_ring_address = (\<lambda>lo hi q. q),
     q_set_used_ring_address = (\<lambda>lo hi q. q),
     q_reset = (\<lambda>q. q\<lparr>sq_size := sq_max q, sq_ready := False, sq_desc := (None, None)\<rparr>),
     q_pop = (\<lambda>q w. case sim_avail w of
         [] \<Rightarrow> (None, q, w)
       | c # cs \<Rightarrow> if sq_ready q then (Some c, q, w\<lparr>sim_avail := cs, sim_taken := sim_taken w @ [sc_head c]\<rparr>) else (None, q, w)),
     q_add_used = (\<lambda>h n q w. (Inr (), q, w\<lparr>sim_used := sim_used w @ [(h, n)]\<rparr>)),
     c_head = sc_head,
     reader_new = (\<lambda>c w. if int (length (sc_in c)) < 2 ^ 64 then Inr (sc_in c) else Inl ''descriptor chain overflow''),
     r_avail = length,
     r_read_exact = (\<lambda>n r w. if n \<le> length r then (Inr (take n r), drop n r, w)
                              else (Inl (Custom UnexpectedEof ''failed to fill whole buffer''), [], w)),
     writer_new = (\<lambda>c w. if int (sc_room c) < 2 ^ 64 then Inr (sc_head c, sc_room c) else Inl ''descriptor chain overflow''),
     x_avail = snd,
     x_write_all = (\<lambda>bs x w.
       if length bs \<le> snd x
       then (Inr (), (fst x, snd x - length bs), w\<lparr>sim_written := sim_written w @ [(fst x, bs)]\<rparr>)
       else (Inl (Custom WriteZero ''failed to write whole buffer''), (fst x, 0), w))\<rparr>"

definition sim_evfd :: "sim_world evfd" where
  "sim_evfd = \<lparr>
     ev_new = (\<lambda>w. (Inr (sim_next_fd w), w\<lparr>sim_next_fd := sim_next_fd w + 1\<rparr>)),
     ev_clone = (\<lambda>fd w. (Inr fd, w)),
     ev_write = (\<lambda>fd n w. (Inr (), w\<lparr>sim_events := sim_events w @ [fd]\<rparr>)),
     ev_read = (\<lambda>fd w. (Inr 1, w))\<rparr>"

end
