(* ===== verification/VirtioMmio.thy ===== *)
theory VirtioMmio
  imports Virtq
begin

text \<open>
  \<^verbatim>\<open>src/devices/virtio_mmio.rs\<close>: the virtio-mmio register window. The registers and the
  queue list are the state; the queues themselves are the parameter \<open>'q\<close>. Address
  subtraction is that of a release build, modulo \<open>2 ^ 64\<close>; callers pass addresses inside
  the window.
\<close>

definition MMIO_SIZE :: u64 where [const_defs]: "MMIO_SIZE = 0x1000"
definition VIRTIO_F_VERSION_1 :: u64 where [const_defs]: "VIRTIO_F_VERSION_1 = push_bit 32 1"
definition MMIO_MAGIC :: u32 where [const_defs]: "MMIO_MAGIC = 0x74726976"
definition MMIO_VERSION :: u32 where [const_defs]: "MMIO_VERSION = 2"
definition VENDOR_ID :: u32 where [const_defs]: "VENDOR_ID = 0x1000"
definition STATUS_FEATURES_OK :: u8 where [const_defs]: "STATUS_FEATURES_OK = 8"
definition STATUS_FAILED :: u8 where [const_defs]: "STATUS_FAILED = 128"
definition VIRTIO_MMIO_INT_VRING :: u32 where [const_defs]: "VIRTIO_MMIO_INT_VRING = 1"
definition REG_MAGIC :: u64 where [const_defs]: "REG_MAGIC = 0x00"
definition REG_VERSION :: u64 where [const_defs]: "REG_VERSION = 0x04"
definition REG_DEVICE_ID :: u64 where [const_defs]: "REG_DEVICE_ID = 0x08"
definition REG_VENDOR_ID :: u64 where [const_defs]: "REG_VENDOR_ID = 0x0c"
definition REG_DEVICE_FEATURES :: u64 where [const_defs]: "REG_DEVICE_FEATURES = 0x10"
definition REG_DEVICE_FEATURES_SEL :: u64 where [const_defs]: "REG_DEVICE_FEATURES_SEL = 0x14"
definition REG_DRIVER_FEATURES :: u64 where [const_defs]: "REG_DRIVER_FEATURES = 0x20"
definition REG_DRIVER_FEATURES_SEL :: u64 where [const_defs]: "REG_DRIVER_FEATURES_SEL = 0x24"
definition REG_QUEUE_SEL :: u64 where [const_defs]: "REG_QUEUE_SEL = 0x30"
definition REG_QUEUE_NUM_MAX :: u64 where [const_defs]: "REG_QUEUE_NUM_MAX = 0x34"
definition REG_QUEUE_NUM :: u64 where [const_defs]: "REG_QUEUE_NUM = 0x38"
definition REG_QUEUE_READY :: u64 where [const_defs]: "REG_QUEUE_READY = 0x44"
definition REG_QUEUE_NOTIFY :: u64 where [const_defs]: "REG_QUEUE_NOTIFY = 0x50"
definition REG_INTERRUPT_STATUS :: u64 where [const_defs]: "REG_INTERRUPT_STATUS = 0x60"
definition REG_INTERRUPT_ACK :: u64 where [const_defs]: "REG_INTERRUPT_ACK = 0x64"
definition REG_STATUS :: u64 where [const_defs]: "REG_STATUS = 0x70"
definition REG_QUEUE_DESC_LOW :: u64 where [const_defs]: "REG_QUEUE_DESC_LOW = 0x80"
definition REG_QUEUE_DESC_HIGH :: u64 where [const_defs]: "REG_QUEUE_DESC_HIGH = 0x84"
definition REG_QUEUE_AVAIL_LOW :: u64 where [const_defs]: "REG_QUEUE_AVAIL_LOW = 0x90"
definition REG_QUEUE_AVAIL_HIGH :: u64 where [const_defs]: "REG_QUEUE_AVAIL_HIGH = 0x94"
definition REG_QUEUE_USED_LOW :: u64 where [const_defs]: "REG_QUEUE_USED_LOW = 0xa0"
definition REG_QUEUE_USED_HIGH :: u64 where [const_defs]: "REG_QUEUE_USED_HIGH = 0xa4"
definition REG_CONFIG_GENERATION :: u64 where [const_defs]: "REG_CONFIG_GENERATION = 0xfc"
definition REG_CONFIG :: u64 where [const_defs]: "REG_CONFIG = 0x100"

record 'q VirtioMmio =
  mmio_base :: u64
  device_id :: u32
  device_features :: u64
  mmio_status :: u8
  device_features_sel :: u32
  driver_features_sel :: u32
  driver_features :: u64
  queue_sel :: u32
  interrupt_status :: u32
  irq_fd :: EventFd
  notify_fd :: EventFd
  queues :: "'q list"

fun new_queues :: "('q, 'c, 'r, 'x, 'w) virtq \<Rightarrow> nat \<Rightarrow> u16 \<Rightarrow> (error, 'q list) result" where
  "new_queues V 0 qmax = Inr []"
| "new_queues V (Suc n) qmax =
     (case q_new V qmax of
       Inl t \<Rightarrow> Inl (Virtio (MsgExt t))
     | Inr q \<Rightarrow> (case new_queues V n qmax of Inl e \<Rightarrow> Inl e | Inr qs \<Rightarrow> Inr (q # qs)))"

definition VirtioMmio_new ::
  "('q, 'c, 'r, 'x, 'w) virtq \<Rightarrow> 'w evfd \<Rightarrow> u64 \<Rightarrow> u32 \<Rightarrow> u64 \<Rightarrow> nat \<Rightarrow> u16 \<Rightarrow> 'w \<Rightarrow>
   (error, 'q VirtioMmio, 'w) effect" where
  "VirtioMmio_new V E bs devid feats num_queues qmax w =
     (if num_queues = 0
      then (Inl (Virtio (Msg ''virtio-mmio requires at least one queue'')), w)
      else
        try_then (map_err (\<lambda>e. Virtio (MsgIo '''' e)) (ev_new E w)) (\<lambda>irq w.
        try_then (map_err (\<lambda>e. Virtio (MsgIo '''' e)) (ev_new E w)) (\<lambda>notify w.
        (case new_queues V num_queues qmax of
          Inl e \<Rightarrow> (Inl e, w)
        | Inr qs \<Rightarrow>
            (Inr \<lparr>mmio_base = bs, device_id = devid, device_features = feats, mmio_status = 0,
                  device_features_sel = 0, driver_features_sel = 0, driver_features = 0,
                  queue_sel = 0, interrupt_status = 0, irq_fd = irq, notify_fd = notify,
                  queues = qs\<rparr>, w)))))"

definition register_irq ::
  "'w kvm_wiring \<Rightarrow> 'q VirtioMmio \<Rightarrow> u32 \<Rightarrow> 'w \<Rightarrow> (int, unit, 'w) effect" where
  "register_irq K m irq w = register_irqfd K (irq_fd m) irq w"

fun register_each ::
  "'w kvm_wiring \<Rightarrow> EventFd \<Rightarrow> u64 \<Rightarrow> nat list \<Rightarrow> 'w \<Rightarrow> (int, unit, 'w) effect" where
  "register_each K fd addr [] w = (Inr (), w)"
| "register_each K fd addr (i # is) w =
     try_then (register_ioevent K fd addr (of_nat i) w) (\<lambda>_ w. register_each K fd addr is w)"

definition register_ioeventfds ::
  "'w kvm_wiring \<Rightarrow> 'q VirtioMmio \<Rightarrow> 'w \<Rightarrow> (int, unit, 'w) effect" where
  "register_ioeventfds K m w =
     register_each K (notify_fd m) (mmio_base m + REG_QUEUE_NOTIFY) [0..<length (queues m)] w"

definition mmio_queue :: "'q VirtioMmio \<Rightarrow> u32 \<Rightarrow> 'q option" where
  "mmio_queue m i = (if unat i < length (queues m) then Some (queues m ! unat i) else None)"

text \<open>
  \<^verbatim>\<open>queue_mut(i)\<close> followed by an update of the queue through the reference: \<open>put_queue\<close>
  stores the changed queue; an index out of range has no reference to write through.
\<close>

definition put_queue :: "u32 \<Rightarrow> 'q \<Rightarrow> 'q VirtioMmio \<Rightarrow> 'q VirtioMmio" where
  "put_queue i q m = m\<lparr>queues := (queues m)[unat i := q]\<rparr>"

definition with_queue :: "u32 \<Rightarrow> ('q \<Rightarrow> 'q) \<Rightarrow> 'q VirtioMmio \<Rightarrow> 'q VirtioMmio" where
  "with_queue i f m = (case mmio_queue m i of None \<Rightarrow> m | Some q \<Rightarrow> put_queue i (f q) m)"

definition selected_queue :: "'q VirtioMmio \<Rightarrow> 'q option" where
  "selected_queue m = mmio_queue m (queue_sel m)"

definition with_selected_queue :: "('q \<Rightarrow> 'q) \<Rightarrow> 'q VirtioMmio \<Rightarrow> 'q VirtioMmio" where
  "with_selected_queue f m = with_queue (queue_sel m) f m"

definition read_le :: "bytes \<Rightarrow> u32" where
  "read_le data = le_word (take 4 data @ replicate (4 - length data) 0)"

definition write_le :: "bytes \<Rightarrow> u32 \<Rightarrow> bytes" where
  "write_le data value = take (length data) (le_bytes 4 value) @ drop 4 data"

definition read_reg :: "('q, 'c, 'r, 'x, 'w) virtq \<Rightarrow> 'q VirtioMmio \<Rightarrow> u64 \<Rightarrow> u32" where
  "read_reg V m offset =
     (if offset = REG_MAGIC then MMIO_MAGIC
      else if offset = REG_VERSION then MMIO_VERSION
      else if offset = REG_DEVICE_ID then device_id m
      else if offset = REG_VENDOR_ID then VENDOR_ID
      else if offset = REG_DEVICE_FEATURES then
        (if device_features_sel m = 0 then ucast (device_features m AND 0xffffffff)
         else if device_features_sel m = 1 then ucast (drop_bit 32 (device_features m))
         else 0)
      else if offset = REG_QUEUE_NUM_MAX then
        (case selected_queue m of Some q \<Rightarrow> ucast (q_max_size V q) | None \<Rightarrow> 0)
      else if offset = REG_QUEUE_READY then
        (case selected_queue m of Some q \<Rightarrow> (if q_ready V q then 1 else 0) | None \<Rightarrow> 0)
      else if offset = REG_INTERRUPT_STATUS then interrupt_status m
      else if offset = REG_STATUS then ucast (mmio_status m)
      else if offset = REG_CONFIG_GENERATION then 0
      else 0)"

text \<open>A read fills the caller's buffer \<open>data\<close> and returns it.\<close>

definition mmio_read ::
  "('q, 'c, 'r, 'x, 'w) virtq \<Rightarrow> 'q VirtioMmio \<Rightarrow> u64 \<Rightarrow> bytes \<Rightarrow> bytes \<Rightarrow> bytes" where
  "mmio_read V m addr data config =
     (let offset = addr - mmio_base m; config_end = REG_CONFIG + of_nat (length config)
      in if REG_CONFIG \<le> offset \<and> offset < config_end
         then map (\<lambda>i. let idx = unat (offset - REG_CONFIG) + i
                        in if idx < length config then config ! idx else 0) [0..<length data]
         else write_le data (read_reg V m offset))"

definition mmio_reset :: "('q, 'c, 'r, 'x, 'w) virtq \<Rightarrow> 'q VirtioMmio \<Rightarrow> 'q VirtioMmio" where
  "mmio_reset V m =
     m\<lparr>mmio_status := 0, device_features_sel := 0, driver_features_sel := 0, driver_features := 0,
       queue_sel := 0, interrupt_status := 0, queues := map (q_reset V) (queues m)\<rparr>"

definition signal_used_queue ::
  "'w evfd \<Rightarrow> 'q VirtioMmio \<Rightarrow> 'w \<Rightarrow> (error, unit) result \<times> 'q VirtioMmio \<times> 'w" where
  "signal_used_queue E m w =
     (let m' = m\<lparr>interrupt_status := interrupt_status m OR VIRTIO_MMIO_INT_VRING\<rparr>
      in case ev_write E (irq_fd m') 1 w of
        (Inl e, w') \<Rightarrow> (Inl (Virtio (MsgIo '''' e)), m', w')
      | (Inr _, w') \<Rightarrow> (Inr (), m', w'))"

definition write_status :: "('q, 'c, 'r, 'x, 'w) virtq \<Rightarrow> u32 \<Rightarrow> 'q VirtioMmio \<Rightarrow> 'q VirtioMmio"
where
  "write_status V value m =
     (if value = 0 then mmio_reset V m
      else (let m' = m\<lparr>mmio_status := ucast value\<rparr>
            in if mmio_status m' AND STATUS_FEATURES_OK \<noteq> 0 then
                 (let unknown = driver_features m' AND NOT (device_features m')
                  in if unknown \<noteq> 0 \<or> driver_features m' AND VIRTIO_F_VERSION_1 = 0
                     then m'\<lparr>mmio_status := (mmio_status m' AND NOT STATUS_FEATURES_OK) OR STATUS_FAILED\<rparr>
                     else m')
               else m'))"

definition write_reg ::
  "('q, 'c, 'r, 'x, 'w) virtq \<Rightarrow> 'q VirtioMmio \<Rightarrow> u64 \<Rightarrow> u32 \<Rightarrow> 'w \<Rightarrow>
   (error, u32 option) result \<times> 'q VirtioMmio" where
  "write_reg V m offset value mem =
     (if offset = REG_DEVICE_FEATURES_SEL then (Inr None, m\<lparr>device_features_sel := value\<rparr>)
      else if offset = REG_DRIVER_FEATURES then
        (Inr None,
         if driver_features_sel m = 0 then
           m\<lparr>driver_features := (driver_features m AND NOT 0xffffffff) OR ucast value\<rparr>
         else if driver_features_sel m = 1 then
           m\<lparr>driver_features := (driver_features m AND 0xffffffff) OR push_bit 32 (ucast value)\<rparr>
         else m)
      else if offset = REG_DRIVER_FEATURES_SEL then (Inr None, m\<lparr>driver_features_sel := value\<rparr>)
      else if offset = REG_QUEUE_SEL then (Inr None, m\<lparr>queue_sel := value\<rparr>)
      else if offset = REG_QUEUE_NUM then
        (Inr None, with_selected_queue (q_set_size V (ucast value)) m)
      else if offset = REG_QUEUE_READY then
        (Inr None,
         with_selected_queue
           (\<lambda>q. let ready = (value = 1); q' = q_set_ready V ready q
                in if ready \<and> \<not> q_is_valid V q' mem then q_set_ready V False q' else q') m)
      else if offset = REG_QUEUE_NOTIFY then
        (if unat value < length (queues m) then (Inr (Some value), m) else (Inr None, m))
      else if offset = REG_INTERRUPT_ACK then
        (Inr None, m\<lparr>interrupt_status := interrupt_status m AND NOT value\<rparr>)
      else if offset = REG_STATUS then (Inr None, write_status V value m)
      else if offset = REG_QUEUE_DESC_LOW then
        (Inr None, with_selected_queue (q_set_desc_table_address V (Some value) None) m)
      else if offset = REG_QUEUE_DESC_HIGH then
        (Inr None, with_selected_queue (q_set_desc_table_address V None (Some value)) m)
      else if offset = REG_QUEUE_AVAIL_LOW then
        (Inr None, with_selected_queue (q_set_avail_ring_address V (Some value) None) m)
      else if offset = REG_QUEUE_AVAIL_HIGH then
        (Inr None, with_selected_queue (q_set_avail_ring_address V None (Some value)) m)
      else if offset = REG_QUEUE_USED_LOW then
        (Inr None, with_selected_queue (q_set_used_ring_address V (Some value) None) m)
      else if offset = REG_QUEUE_USED_HIGH then
        (Inr None, with_selected_queue (q_set_used_ring_address V None (Some value)) m)
      else (Inr None, m))"

definition mmio_write ::
  "('q, 'c, 'r, 'x, 'w) virtq \<Rightarrow> 'q VirtioMmio \<Rightarrow> u64 \<Rightarrow> bytes \<Rightarrow> 'w \<Rightarrow>
   (error, u32 option) result \<times> 'q VirtioMmio" where
  "mmio_write V m addr data mem = write_reg V m (addr - mmio_base m) (read_le data) mem"

section \<open>Properties\<close>

text \<open>A concrete device with two queues, for the witnesses.\<close>

definition sim_mmio :: "sim_queue VirtioMmio" where
  "sim_mmio = \<lparr>mmio_base = 0xd0000000, device_id = 2, device_features = VIRTIO_F_VERSION_1,
     mmio_status = 3, device_features_sel = 0, driver_features_sel = 0,
     driver_features = VIRTIO_F_VERSION_1, queue_sel = 1, interrupt_status = 0,
     irq_fd = 1, notify_fd = 2,
     queues = [\<lparr>sq_max = 8, sq_size = 8, sq_ready = False, sq_desc = (None, None)\<rparr>,
               \<lparr>sq_max = 8, sq_size = 8, sq_ready = False, sq_desc = (Some 4096, None)\<rparr>]\<rparr>"

definition sim_start :: sim_world where
  "sim_start = \<lparr>sim_avail = [], sim_taken = [], sim_used = [], sim_written = [], sim_events = [], sim_next_fd = 3\<rparr>"

text \<open>A sequence of guest register writes, each with the guest memory of its moment.\<close>

fun mmio_writes ::
  "('q, 'c, 'r, 'x, 'w) virtq \<Rightarrow> 'q VirtioMmio \<Rightarrow> (u64 \<times> bytes \<times> 'w) list \<Rightarrow> 'q VirtioMmio" where
  "mmio_writes V m [] = m"
| "mmio_writes V m ((addr, data, mem) # ws) = mmio_writes V (snd (mmio_write V m addr data mem)) ws"

lemma with_queue_simps [simp]:
  "mmio_base (with_queue i f m) = mmio_base m"
  "device_id (with_queue i f m) = device_id m"
  "device_features (with_queue i f m) = device_features m"
  "mmio_status (with_queue i f m) = mmio_status m"
  "device_features_sel (with_queue i f m) = device_features_sel m"
  "driver_features_sel (with_queue i f m) = driver_features_sel m"
  "driver_features (with_queue i f m) = driver_features m"
  "queue_sel (with_queue i f m) = queue_sel m"
  "interrupt_status (with_queue i f m) = interrupt_status m"
  "irq_fd (with_queue i f m) = irq_fd m"
  "notify_fd (with_queue i f m) = notify_fd m"
  "length (queues (with_queue i f m)) = length (queues m)"
  by (auto simp: with_queue_def put_queue_def split: option.splits)

lemma mmio_queue_put:
  "mmio_queue (put_queue i q m) j =
     (if i = j \<and> unat i < length (queues m) then Some q else mmio_queue m j)"
  by (auto simp: mmio_queue_def put_queue_def nth_list_update word_unat_eq_iff)

lemma mmio_queue_with:
  "mmio_queue (with_queue i f m) j = (if i = j then map_option f (mmio_queue m j) else mmio_queue m j)"
  by (auto simp: with_queue_def mmio_queue_put split: option.splits)
    (auto simp: mmio_queue_def split: if_splits)

definition same_identity :: "'q VirtioMmio \<Rightarrow> 'q VirtioMmio \<Rightarrow> bool" where
  "same_identity m m' \<longleftrightarrow>
     mmio_base m' = mmio_base m \<and> device_id m' = device_id m \<and>
     device_features m' = device_features m \<and> irq_fd m' = irq_fd m \<and>
     notify_fd m' = notify_fd m \<and> length (queues m') = length (queues m)"

lemma write_status_identity: "same_identity m (write_status V v m)"
  by (auto simp: same_identity_def write_status_def mmio_reset_def Let_def)

lemma write_reg_identity: "same_identity m (snd (write_reg V m offset v mem))"
  unfolding write_reg_def
  by (intro if_branches [where P = "\<lambda>x. same_identity m (snd x)"])
    (simp_all add: write_status_identity [unfolded same_identity_def] same_identity_def
      with_selected_queue_def)

lemma mmio_writes_identity: "same_identity m (mmio_writes V m ws)"
proof (induction ws arbitrary: m)
  case Nil
  then show ?case by (simp add: same_identity_def)
next
  case (Cons a ws)
  obtain addr data mem where a: "a = (addr, data, mem)" by (cases a)
  have "same_identity m (snd (mmio_write V m addr data mem))"
    by (simp add: mmio_write_def write_reg_identity)
  with Cons.IH [of "snd (mmio_write V m addr data mem)"] a show ?case
    by (simp add: same_identity_def)
qed

text \<open>
  C28. Whatever the guest writes into the register window, in any order and number, the
  device stays the same device: base address, device id, offered features, number of
  queues and interrupt and notification descriptors never change, so the identification
  registers keep their values.
\<close>

theorem mmio_identity_invariant:
  "same_identity m (mmio_writes V m ws) \<and>
   read_reg V (mmio_writes V m ws) REG_MAGIC = 0x74726976 \<and>
   read_reg V (mmio_writes V m ws) REG_VERSION = 2 \<and>
   read_reg V (mmio_writes V m ws) REG_DEVICE_ID = device_id m"
  using mmio_writes_identity [of m V ws]
  by (simp add: same_identity_def read_reg_def const_defs)

lemma status_bits:
  "(v AND - 9 OR 128) AND 8 = (0 :: u8)" "(v AND - 9 OR 128) AND 128 = (128 :: u8)"
proof -
  have "\<forall>v::8 word. (v AND - 9 OR 128) AND 8 = 0 \<and> (v AND - 9 OR 128) AND 128 = 128"
    by code_simp
  then show "(v AND - 9 OR 128) AND 8 = (0 :: u8)" "(v AND - 9 OR 128) AND 128 = (128 :: u8)"
    by blast+
qed

text \<open>
  C24. Feature negotiation: when the driver sets \<open>FEATURES_OK\<close>, the device keeps the bit
  exactly if the driver's features are a subset of the offered ones and include
  \<open>VERSION_1\<close>; otherwise the bit is cleared and \<open>FAILED\<close> is raised.
\<close>

theorem features_ok_iff_acceptable:
  assumes "(ucast v :: u8) AND STATUS_FEATURES_OK \<noteq> 0"
    and "m' = snd (write_reg V m REG_STATUS v mem)"
  shows "(mmio_status m' AND STATUS_FEATURES_OK \<noteq> 0 \<longleftrightarrow>
      driver_features m AND NOT (device_features m) = 0 \<and>
      driver_features m AND VIRTIO_F_VERSION_1 \<noteq> 0) \<and>
    (mmio_status m' AND STATUS_FEATURES_OK = 0 \<longrightarrow> mmio_status m' AND STATUS_FAILED \<noteq> 0)"
proof -
  have "v \<noteq> 0" using assms(1) by auto
  with assms show ?thesis
    by (auto simp: write_reg_def write_status_def const_defs Let_def status_bits)
qed

theorem features_ok_iff_acceptable_witness:
  "mmio_status (snd (write_reg sim_virtq sim_mmio REG_STATUS 11 sim_start)) AND STATUS_FEATURES_OK \<noteq> 0 \<and>
   mmio_status (snd (write_reg sim_virtq (sim_mmio\<lparr>driver_features := 3\<rparr>) REG_STATUS 11 sim_start))
     AND STATUS_FAILED \<noteq> 0"
  using features_ok_iff_acceptable [of 11 _ sim_virtq sim_mmio sim_start]
    features_ok_iff_acceptable [of 11 _ sim_virtq "sim_mmio\<lparr>driver_features := 3\<rparr>" sim_start]
  by (simp add: const_defs sim_mmio_def)

lemma low_mask: "(0xffffffff :: u64) = mask 32"
  by code_simp

lemma high_mask: "(- 4294967296 :: u64) = NOT (mask 32)"
  by code_simp

lemma feature_words:
  "((d AND - 4294967296 OR ucast lo) AND 0xffffffff) OR push_bit 32 (ucast hi) =
   (ucast (lo :: u32) OR push_bit 32 (ucast (hi :: u32)) :: u64)"
  unfolding low_mask high_mask by (rule bit_word_eqI) (auto simp: bit_simps dest: bit_imp_le_length)

lemma feature_halves:
  "ucast (ucast (d AND 0xffffffff) :: u32) OR push_bit 32 (ucast (ucast (drop_bit 32 d) :: u32)) = (d :: u64)"
  unfolding low_mask by (rule bit_word_eqI) (auto simp: bit_simps)

text \<open>
  C32. The 64-bit feature words cross the 32-bit registers intact: the driver's two selected
  writes store exactly the word it meant, whatever was there before, and the two selected
  reads of the device features recombine to the offered word.
\<close>

theorem feature_words_roundtrip:
  "driver_features (snd (write_reg V (snd (write_reg V (snd (write_reg V (snd (write_reg V m
     REG_DRIVER_FEATURES_SEL 0 w1)) REG_DRIVER_FEATURES lo w2)) REG_DRIVER_FEATURES_SEL 1 w3))
     REG_DRIVER_FEATURES hi w4)) = ucast lo OR push_bit 32 (ucast hi) \<and>
   ucast (read_reg V (snd (write_reg V m REG_DEVICE_FEATURES_SEL 0 w1)) REG_DEVICE_FEATURES) OR
   push_bit 32 (ucast (read_reg V (snd (write_reg V m REG_DEVICE_FEATURES_SEL 1 w2))
     REG_DEVICE_FEATURES)) = device_features m"
proof
  show "ucast (read_reg V (snd (write_reg V m REG_DEVICE_FEATURES_SEL 0 w1)) REG_DEVICE_FEATURES) OR
   push_bit 32 (ucast (read_reg V (snd (write_reg V m REG_DEVICE_FEATURES_SEL 1 w2))
     REG_DEVICE_FEATURES)) = device_features m"
    by (simp add: read_reg_def write_reg_def const_defs feature_halves)
qed (simp add: write_reg_def const_defs feature_words)

text \<open>
  C31. A queue the guest enables is usable: after a write to \<open>QUEUE_READY\<close> the selected queue
  is ready only if its rings are valid in the guest memory of that moment, given that the
  queue's ready flag is what was last set.
\<close>

theorem ready_queue_is_valid:
  assumes ready: "\<And>b q. q_ready V (q_set_ready V b q) = b"
    and q: "selected_queue (snd (write_reg V m REG_QUEUE_READY v mem)) = Some q"
    and on: "q_ready V q"
  shows "v = 1 \<and> q_is_valid V q mem"
proof -
  have "snd (write_reg V m REG_QUEUE_READY v mem) = with_selected_queue
      (\<lambda>q. let ready = (v = 1); q' = q_set_ready V ready q
           in if ready \<and> \<not> q_is_valid V q' mem then q_set_ready V False q' else q') m"
    by (simp add: write_reg_def const_defs)
  with q obtain q0 where
    "q = (let ready = (v = 1); q' = q_set_ready V ready q0
          in if ready \<and> \<not> q_is_valid V q' mem then q_set_ready V False q' else q')"
    by (auto simp: selected_queue_def with_selected_queue_def mmio_queue_with)
  with on ready show ?thesis by (auto simp: Let_def split: if_splits)
qed

theorem ready_queue_is_valid_witness:
  "selected_queue (snd (write_reg sim_virtq sim_mmio REG_QUEUE_READY 1 sim_start)) =
     Some \<lparr>sq_max = 8, sq_size = 8, sq_ready = True, sq_desc = (Some 4096, None)\<rparr> \<and>
   q_is_valid sim_virtq \<lparr>sq_max = 8, sq_size = 8, sq_ready = True, sq_desc = (Some 4096, None)\<rparr> sim_start"
proof -
  let ?q = "\<lparr>sq_max = 8, sq_size = 8, sq_ready = True, sq_desc = (Some 4096, None)\<rparr>"
  have q: "selected_queue (snd (write_reg sim_virtq sim_mmio REG_QUEUE_READY 1 sim_start)) = Some ?q"
    by (simp add: write_reg_def const_defs sim_mmio_def sim_virtq_def selected_queue_def
        with_selected_queue_def with_queue_def mmio_queue_def put_queue_def)
  moreover have "q_ready sim_virtq (q_set_ready sim_virtq b q') = b" for b q'
    by (simp add: sim_virtq_def)
  moreover have "q_ready sim_virtq ?q" by (simp add: sim_virtq_def)
  ultimately show ?thesis
    using ready_queue_is_valid [of sim_virtq sim_mmio 1 sim_start ?q] by blast
qed

text \<open>
  Register writes act on the selected queue only: every write except a device reset
  leaves all other queues as they were, and with a selector out of range no queue changes.
\<close>

lemma queue_writes_isolated:
  assumes "offset \<noteq> REG_STATUS" and "j \<noteq> queue_sel m \<or> mmio_queue m (queue_sel m) = None"
  shows "mmio_queue (snd (write_reg V m offset v mem)) j = mmio_queue m j"
proof -
  have "mmio_queue (with_selected_queue f m) j = mmio_queue m j" for f
    using assms(2) by (auto simp: with_selected_queue_def mmio_queue_with)
  with assms(1) show ?thesis
    unfolding write_reg_def
    by (intro if_branches [where P = "\<lambda>x. mmio_queue (snd x) j = mmio_queue m j"])
      (simp_all add: mmio_queue_def)
qed

text \<open>
  Reset: writing zero to the status register puts every register and every queue back
  to its initial value and keeps the device's identity, from any state.
\<close>

lemma status_zero_resets:
  "write_reg V m REG_STATUS 0 mem =
    (Inr None, \<lparr>mmio_base = mmio_base m, device_id = device_id m,
     device_features = device_features m, mmio_status = 0, device_features_sel = 0,
     driver_features_sel = 0, driver_features = 0, queue_sel = 0, interrupt_status = 0,
     irq_fd = irq_fd m, notify_fd = notify_fd m, queues = map (q_reset V) (queues m)\<rparr>)"
  by (simp add: write_reg_def write_status_def mmio_reset_def const_defs)



end
