(* ===== verification/MmioDevice.thy ===== *)
theory MmioDevice
  imports VirtioMmio
begin

text \<open>
  \<^verbatim>\<open>src/devices/mmio_device.rs\<close>: the kinds of MMIO devices, and where the three virtio
  devices put their register windows and interrupts (the constants of
  \<^verbatim>\<open>virtio_blk.rs\<close>, \<^verbatim>\<open>virtio_net.rs\<close> and \<^verbatim>\<open>virtio_vsock.rs\<close>).
\<close>

datatype MmioKind = KindBlock | KindNet | KindVsock

definition VIRTIO_MMIO_BASE :: u64 where [const_defs]: "VIRTIO_MMIO_BASE = GUEST_RAM_END"
definition VIRTIO_BLK_IRQ :: u32 where [const_defs]: "VIRTIO_BLK_IRQ = 5"
definition VIRTIO_NET_MMIO_BASE :: u64 where [const_defs]:
  "VIRTIO_NET_MMIO_BASE = GUEST_RAM_END + 0x1000"
definition VIRTIO_NET_IRQ :: u32 where [const_defs]: "VIRTIO_NET_IRQ = 6"
definition VIRTIO_VSOCK_MMIO_BASE :: u64 where [const_defs]:
  "VIRTIO_VSOCK_MMIO_BASE = GUEST_RAM_END + 0x2000"
definition VIRTIO_VSOCK_IRQ :: u32 where [const_defs]: "VIRTIO_VSOCK_IRQ = 7"

end
