(* ===== verification/QueueOps.thy ===== *)
theory QueueOps
  imports MmioDevice
begin

text \<open>
  What the three device workers do with the queues of their transport: asking whether a
  queue is ready, taking a descriptor chain and giving it back; and what the properties
  assume of the queue: that it takes and returns the heads it reports, and that a writer
  accepts what fits.
\<close>

definition queue_is_ready :: "('q, 'c, 'r, 'x, 'w) virtq \<Rightarrow> 'q VirtioMmio \<Rightarrow> u32 \<Rightarrow> bool" where
  "queue_is_ready V m i = (case mmio_queue m i of Some q \<Rightarrow> q_ready V q | None \<Rightarrow> False)"

definition mmio_pop ::
  "('q, 'c, 'r, 'x, 'w) virtq \<Rightarrow> u32 \<Rightarrow> 'q VirtioMmio \<Rightarrow> 'w \<Rightarrow> 'c option \<times> 'q VirtioMmio \<times> 'w" where
  "mmio_pop V i m w =
     (case mmio_queue m i of
       None \<Rightarrow> (None, m, w)
     | Some q \<Rightarrow> (case q_pop V q w of (c, q', w') \<Rightarrow> (c, put_queue i q' m, w')))"

text \<open>
  \<^verbatim>\<open>queue_mut(i).ok_or(missing)?.add_used(mem, head, len).map_err(wrap)\<close>, the same in the
  three devices up to the error.
\<close>

definition mmio_add_used ::
  "('q, 'c, 'r, 'x, 'w) virtq \<Rightarrow> (detail \<Rightarrow> error) \<Rightarrow> string \<Rightarrow> u32 \<Rightarrow> u16 \<Rightarrow> u32 \<Rightarrow> 'q VirtioMmio \<Rightarrow> 'w \<Rightarrow>
   (error, unit) result \<times> 'q VirtioMmio \<times> 'w" where
  "mmio_add_used V wrap missing i head len m w =
     (case mmio_queue m i of
       None \<Rightarrow> (Inl (wrap (Msg missing)), m, w)
     | Some q \<Rightarrow>
         (case q_add_used V head len q w of
           (Inl t, q', w') \<Rightarrow> (Inl (wrap (MsgExt t)), put_queue i q' m, w')
         | (Inr _, q', w') \<Rightarrow> (Inr (), put_queue i q' m, w')))"

section \<open>Laws of the queue\<close>

text \<open>
  \<open>taken\<close> and \<open>returned\<close> are the heads of the chains popped and used so far: \<^verbatim>\<open>pop\<close> takes
  the chain it returns, \<^verbatim>\<open>add_used\<close> returns the head it is given, and nothing else does
  either.
\<close>

definition queue_log ::
  "('q, 'c, 'r, 'x, 'w) virtq \<Rightarrow> ('w \<Rightarrow> u16 list) \<Rightarrow> ('w \<Rightarrow> u16 list) \<Rightarrow> bool" where
  "queue_log V taken returned \<longleftrightarrow>
     (\<forall>q w r q' w'. q_pop V q w = (r, q', w') \<longrightarrow>
        taken w' = taken w @ (case r of None \<Rightarrow> [] | Some c \<Rightarrow> [c_head V c]) \<and> returned w' = returned w) \<and>
     (\<forall>h n q w r q' w'. q_add_used V h n q w = (r, q', w') \<longrightarrow>
        returned w' = returned w @ (case r of Inl _ \<Rightarrow> [] | Inr _ \<Rightarrow> [h]) \<and> taken w' = taken w) \<and>
     (\<forall>n rd w r rd' w'. r_read_exact V n rd w = (r, rd', w') \<longrightarrow> taken w' = taken w \<and> returned w' = returned w) \<and>
     (\<forall>bs x w r x' w'. x_write_all V bs x w = (r, x', w') \<longrightarrow> taken w' = taken w \<and> returned w' = returned w)"

text \<open>
  \<open>written\<close> is what has been written to descriptor chains: a writer accepts everything that
  fits in the room it reports, and the queue operations and readers write nothing.
\<close>

definition writer_law ::
  "('q, 'c, 'r, 'x, 'w) virtq \<Rightarrow> ('w \<Rightarrow> bytes) \<Rightarrow> bool" where
  "writer_law V written \<longleftrightarrow>
     (\<forall>bs x w. length bs \<le> x_avail V x \<longrightarrow>
        (\<exists>x' w'. x_write_all V bs x w = (Inr (), x', w') \<and> x_avail V x' = x_avail V x - length bs \<and>
                 written w' = written w @ bs)) \<and>
     (\<forall>q w r q' w'. q_pop V q w = (r, q', w') \<longrightarrow> written w' = written w) \<and>
     (\<forall>h n q w r q' w'. q_add_used V h n q w = (r, q', w') \<longrightarrow> written w' = written w) \<and>
     (\<forall>n rd w r rd' w'. r_read_exact V n rd w = (r, rd', w') \<longrightarrow> written w' = written w)"

text \<open>Signalling an event is no queue operation.\<close>

definition event_log :: "'w evfd \<Rightarrow> ('w \<Rightarrow> u16 list) \<Rightarrow> ('w \<Rightarrow> u16 list) \<Rightarrow> bool" where
  "event_log E taken returned \<longleftrightarrow>
     (\<forall>fd k w r w'. ev_write E fd k w = (r, w') \<longrightarrow> taken w' = taken w \<and> returned w' = returned w)"

lemma sim_event_log: "event_log sim_evfd sim_taken (\<lambda>w. map fst (sim_used w))"
  by (auto simp: event_log_def sim_evfd_def)

lemma sim_queue_log: "queue_log sim_virtq sim_taken (\<lambda>w. map fst (sim_used w))"
  by (auto simp: queue_log_def sim_virtq_def split: list.splits if_splits)

lemma sim_writer_law: "writer_law sim_virtq (\<lambda>w. concat (map snd (sim_written w)))"
  by (auto simp: writer_law_def sim_virtq_def split: list.splits if_splits)

section \<open>Consequences\<close>

lemma put_queue_fields [simp]:
  "interrupt_status (put_queue i q m) = interrupt_status m" "irq_fd (put_queue i q m) = irq_fd m"
  "notify_fd (put_queue i q m) = notify_fd m" "driver_features (put_queue i q m) = driver_features m"
  "length (queues (put_queue i q m)) = length (queues m)"
  by (simp_all add: put_queue_def)

abbreviation same_irq :: "'q VirtioMmio \<Rightarrow> 'q VirtioMmio \<Rightarrow> bool" where
  "same_irq m m' \<equiv> interrupt_status m' = interrupt_status m \<and> irq_fd m' = irq_fd m"

lemma mmio_pop_log:
  assumes "queue_log V tk rt" and "mmio_pop V i m w = (r, m', w')"
  shows "tk w' = tk w @ (case r of None \<Rightarrow> [] | Some c \<Rightarrow> [c_head V c])" and "rt w' = rt w"
    and "same_irq m m'"
proof -
  have law: "q_pop V q w = (r, q', w') \<Longrightarrow>
      tk w' = tk w @ (case r of None \<Rightarrow> [] | Some c \<Rightarrow> [c_head V c]) \<and> rt w' = rt w" for q r q' w'
    using assms(1) unfolding queue_log_def by metis
  show "tk w' = tk w @ (case r of None \<Rightarrow> [] | Some c \<Rightarrow> [c_head V c])" "rt w' = rt w"
    "same_irq m m'"
    using assms(2) by (auto simp: mmio_pop_def split: option.splits prod.splits dest!: law)
qed

lemma mmio_add_used_log:
  assumes "queue_log V tk rt" and "mmio_add_used V wrap missing i h n m w = (r, m', w')"
  shows "rt w' = rt w @ (case r of Inl _ \<Rightarrow> [] | Inr _ \<Rightarrow> [h])" and "tk w' = tk w"
    and "same_irq m m'"
proof -
  have law: "q_add_used V h n q w = (r, q', w') \<Longrightarrow>
      rt w' = rt w @ (case r of Inl _ \<Rightarrow> [] | Inr _ \<Rightarrow> [h]) \<and> tk w' = tk w" for q r q' w'
    using assms(1) unfolding queue_log_def by blast
  show "rt w' = rt w @ (case r of Inl _ \<Rightarrow> [] | Inr _ \<Rightarrow> [h])" "tk w' = tk w"
    "same_irq m m'"
    using assms(2) by (auto simp: mmio_add_used_def split: option.splits prod.splits sum.splits dest!: law)
qed

lemma read_exact_log:
  assumes "queue_log V tk rt" and "r_read_exact V n rd w = (r, rd', w')"
  shows "tk w' = tk w" and "rt w' = rt w"
  using assms unfolding queue_log_def by blast+

lemma write_all_log:
  assumes "queue_log V tk rt" and "x_write_all V bs x w = (r, x', w')"
  shows "tk w' = tk w" and "rt w' = rt w"
  using assms unfolding queue_log_def by blast+

lemmas queue_logs = mmio_pop_log mmio_add_used_log read_exact_log write_all_log

lemma mmio_written:
  assumes "writer_law V wr"
  shows "mmio_pop V i m w = (r, m', w') \<Longrightarrow> wr w' = wr w"
    and "mmio_add_used V wrap missing i h n m w = (u, m', w') \<Longrightarrow> wr w' = wr w"
proof -
  have laws: "q_pop V q w = (r, q', w') \<Longrightarrow> wr w' = wr w"
    "q_add_used V h n q w = (u, q', w') \<Longrightarrow> wr w' = wr w" for q r q' w' u
    using assms unfolding writer_law_def by blast+
  show "mmio_pop V i m w = (r, m', w') \<Longrightarrow> wr w' = wr w"
    and "mmio_add_used V wrap missing i h n m w = (u, m', w') \<Longrightarrow> wr w' = wr w"
    by (auto simp: mmio_pop_def mmio_add_used_def split: option.splits prod.splits sum.splits dest!: laws)
qed

lemma write_allE:
  assumes "writer_law V wr" and "length bs \<le> x_avail V x"
  obtains x' w' where "x_write_all V bs x w = (Inr (), x', w')" and "x_avail V x' = x_avail V x - length bs"
    and "wr w' = wr w @ bs"
  using assms unfolding writer_law_def by metis

lemma signal_used_spec:
  assumes "signal_used_queue E m w = (Inr (), m', w')"
  shows "bit (interrupt_status m') 0" and "ev_write E (irq_fd m) 1 w = (Inr (), w')"
  using assms
  by (auto simp: signal_used_queue_def Let_def VIRTIO_MMIO_INT_VRING_def bit_or_iff
      split: prod.splits sum.splits)

text \<open>
  A batch of turns of a queue loop that gives back the chains it takes, in order: the relation
  between the world before and after.
\<close>

definition returns_all :: "('w \<Rightarrow> u16 list) \<Rightarrow> ('w \<Rightarrow> u16 list) \<Rightarrow> 'w \<Rightarrow> 'w \<Rightarrow> u16 list \<Rightarrow> bool" where
  "returns_all tk rt w w' hs \<longleftrightarrow> tk w' = tk w @ hs \<and> rt w' = rt w @ hs"

lemma returns_all_refl [simp]: "returns_all tk rt w w hs \<longleftrightarrow> hs = []"
  by (auto simp: returns_all_def)

lemma returns_all_trans:
  "returns_all tk rt w w' hs \<Longrightarrow> returns_all tk rt w' w'' hs' \<Longrightarrow> returns_all tk rt w w'' (hs @ hs')"
  by (simp add: returns_all_def)

end
