(* ===== verification/BlkDisk.thy ===== *)
theory BlkDisk
  imports QueueOps "HOL-Library.Monad_Syntax"
begin

text \<open>
  The host side of \<^verbatim>\<open>src/devices/virtio_blk.rs\<close>: the page-aligned scratch buffer
  (\<^verbatim>\<open>AlignedBuf\<close>), opening the disk image, and reading, writing and flushing it through an
  \<^verbatim>\<open>io_uring\<close>, through a descriptor opened with \<^verbatim>\<open>O_DIRECT\<close>, or through plain system
  calls (\<^verbatim>\<open>BlockDisk\<close>). The system calls, the allocator and the ring are parameters.
\<close>

definition SECTOR_SIZE :: u64 where [const_defs]: "SECTOR_SIZE = 512"
definition IO_ALIGN :: nat where [const_defs]: "IO_ALIGN = 4096"
definition SCRATCH_INITIAL :: nat where [const_defs]: "SCRATCH_INITIAL = 64 * 1024"
definition RING_USER_READ :: u64 where [const_defs]: "RING_USER_READ = 1"
definition RING_USER_WRITE :: u64 where [const_defs]: "RING_USER_WRITE = 2"
definition RING_USER_FSYNC :: u64 where [const_defs]: "RING_USER_FSYNC = 3"

text \<open>The open flags of Linux on x86-64.\<close>

definition O_RDONLY :: u32 where [const_defs]: "O_RDONLY = 0"
definition O_RDWR :: u32 where [const_defs]: "O_RDWR = 2"
definition O_DIRECT :: u32 where [const_defs]: "O_DIRECT = 0x4000"
definition O_CLOEXEC :: u32 where [const_defs]: "O_CLOEXEC = 0x80000"

section \<open>The host\<close>

text \<open>
  A submission names the descriptor, the file offset and the user data; a read asks for a
  number of bytes, a write carries them. A completion has the user data, the result and, for
  a read, the bytes the kernel put at the start of the buffer before completing.
\<close>

datatype Sqe =
    SqeRead int u32 u64 u64
  | SqeWrite int bytes u64 u64
  | SqeFdatasync int u64

record Cqe =
  cq_user_data :: u64
  cq_result :: int
  cq_data :: bytes

record 'n hostio =
  h_open :: "bytes \<Rightarrow> u32 \<Rightarrow> 'n \<Rightarrow> (int, int, 'n) effect"
  h_close :: "int \<Rightarrow> 'n \<Rightarrow> 'n"
  h_file_len :: "int \<Rightarrow> 'n \<Rightarrow> (io_error, u64) result"
  h_blksize :: "int \<Rightarrow> 'n \<Rightarrow> u64 option"
  h_pread :: "int \<Rightarrow> nat \<Rightarrow> u64 \<Rightarrow> 'n \<Rightarrow> (int, bytes, 'n) effect"
  h_pwrite :: "int \<Rightarrow> bytes \<Rightarrow> u64 \<Rightarrow> 'n \<Rightarrow> (int, nat, 'n) effect"
  h_fdatasync :: "int \<Rightarrow> 'n \<Rightarrow> (int, unit, 'n) effect"
  h_alloc :: "nat \<Rightarrow> 'n \<Rightarrow> bytes option \<times> 'n"
  h_realloc :: "bytes \<Rightarrow> nat \<Rightarrow> 'n \<Rightarrow> bytes option \<times> 'n"
  h_dealloc :: "bytes \<Rightarrow> 'n \<Rightarrow> 'n"
  u_new :: "nat \<Rightarrow> 'n \<Rightarrow> (io_error, int, 'n) effect"
  u_push :: "int \<Rightarrow> Sqe \<Rightarrow> 'n \<Rightarrow> (string, unit, 'n) effect"
  u_submit_and_wait :: "int \<Rightarrow> nat \<Rightarrow> 'n \<Rightarrow> (io_error, unit, 'n) effect"
  u_submit :: "int \<Rightarrow> 'n \<Rightarrow> (io_error, unit, 'n) effect"
  u_next :: "int \<Rightarrow> 'n \<Rightarrow> Cqe option \<times> 'n"
  u_drop :: "int \<Rightarrow> 'n \<Rightarrow> 'n"

section \<open>The scratch buffer\<close>

text \<open>The memory behind \<^verbatim>\<open>ptr\<close> is its contents; \<^verbatim>\<open>cap\<close> is kept beside it as in the source.\<close>

record AlignedBuf =
  ab_mem :: bytes
  ab_cap :: nat

definition next_multiple_of :: "nat \<Rightarrow> nat \<Rightarrow> nat" where
  "next_multiple_of n a = (n + a - 1) div a * a"

text \<open>\<^verbatim>\<open>Layout::from_size_align\<close> refuses a size that does not fit \<^verbatim>\<open>isize\<close> once rounded up.\<close>

definition layout_ok :: "nat \<Rightarrow> bool" where
  "layout_ok sz \<longleftrightarrow> int sz \<le> 2 ^ 63 - int IO_ALIGN"

definition layout_error :: string where
  "layout_error = ''invalid parameters to Layout::from_size_align''"

definition AlignedBuf_new :: "'n hostio \<Rightarrow> nat \<Rightarrow> 'n \<Rightarrow> (string, AlignedBuf, 'n) effect" where
  "AlignedBuf_new H want n =
     (let cap = next_multiple_of (max want IO_ALIGN) IO_ALIGN
      in if \<not> layout_ok cap then (Inl layout_error, n)
         else case h_alloc H cap n of
                (None, n) \<Rightarrow> (Inl ''aligned buffer allocation failed'', n)
              | (Some mem, n) \<Rightarrow> (Inr \<lparr>ab_mem = mem, ab_cap = cap\<rparr>, n))"

definition ab_ensure :: "'n hostio \<Rightarrow> nat \<Rightarrow> AlignedBuf \<Rightarrow> 'n \<Rightarrow> (string, unit) result \<times> AlignedBuf \<times> 'n" where
  "ab_ensure H need b n =
     (if need \<le> ab_cap b then (Inr (), b, n)
      else
        (let new_cap = next_multiple_of need IO_ALIGN
         in if \<not> layout_ok (ab_cap b) \<or> \<not> layout_ok new_cap then (Inl layout_error, b, n)
            else case h_realloc H (ab_mem b) new_cap n of
                   (None, n) \<Rightarrow> (Inl ''aligned buffer reallocation failed'', b, n)
                 | (Some mem, n) \<Rightarrow> (Inr (), \<lparr>ab_mem = mem, ab_cap = new_cap\<rparr>, n)))"

text \<open>
  \<^verbatim>\<open>as_mut\<close> with what the caller stores through the slice, whose length is that of \<open>bs\<close>.
\<close>

definition ab_store :: "bytes \<Rightarrow> AlignedBuf \<Rightarrow> AlignedBuf" where
  "ab_store bs b = b\<lparr>ab_mem := bs @ drop (length bs) (ab_mem b)\<rparr>"

definition ab_as_slice :: "nat \<Rightarrow> AlignedBuf \<Rightarrow> (string, bytes) result" where
  "ab_as_slice len b = (if len > ab_cap b then Inl ''scratch buffer too small'' else Inr (take len (ab_mem b)))"

definition ab_drop :: "'n hostio \<Rightarrow> AlignedBuf \<Rightarrow> 'n \<Rightarrow> 'n" where
  "ab_drop H b n = (if ab_cap b = 0 then n else h_dealloc H (ab_mem b) n)"

section \<open>Opening the image\<close>

record OpenedDisk =
  od_buffered_file :: int
  od_direct_file :: "int option"
  od_readonly :: bool
  od_direct_align :: u64

definition open_buffered :: "'n hostio \<Rightarrow> bytes \<Rightarrow> 'n \<Rightarrow> (error, int \<times> bool, 'n) effect" where
  "open_buffered H path n =
     (case h_open H path (O_RDWR OR O_CLOEXEC) n of
       (Inr fd, n) \<Rightarrow> (Inr (fd, False), n)
     | (Inl e, n) \<Rightarrow>
         (let access_denied = (e = EACCES \<or> e = EPERM \<or> io_kind_of (Os e) = PermissionDenied)
          in if \<not> access_denied then (Inl (ImageIo (Os e)), n)
             else case h_open H path (O_RDONLY OR O_CLOEXEC) n of
                    (Inl e, n) \<Rightarrow> (Inl (ImageIo (Os e)), n)
                  | (Inr fd, n) \<Rightarrow> (Inr (fd, True), n)))"

definition open_direct :: "'n hostio \<Rightarrow> bytes \<Rightarrow> bool \<Rightarrow> 'n \<Rightarrow> int option \<times> 'n" where
  "open_direct H path readonly n =
     (let flags = (if readonly then O_RDONLY OR O_DIRECT OR O_CLOEXEC else O_RDWR OR O_DIRECT OR O_CLOEXEC)
      in case h_open H path flags n of
           (Inl _, n) \<Rightarrow> (None, n)
         | (Inr fd, n) \<Rightarrow> (Some fd, n))"

definition logical_block_size :: "'n hostio \<Rightarrow> int \<Rightarrow> 'n \<Rightarrow> u64" where
  "logical_block_size H fd n =
     (case h_blksize H fd n of
       None \<Rightarrow> max SECTOR_SIZE (of_nat IO_ALIGN)
     | Some bs \<Rightarrow> if bs = 0 then max SECTOR_SIZE (of_nat IO_ALIGN) else max bs SECTOR_SIZE)"

definition open_disk_image :: "'n hostio \<Rightarrow> bytes \<Rightarrow> 'n \<Rightarrow> (error, OpenedDisk, 'n) effect" where
  "open_disk_image H path n =
     (if 0 \<in> set path then (Inl (Block (Msg ''disk path contains interior NUL'')), n)
      else case open_buffered H path n of
        (Inl e, n) \<Rightarrow> (Inl e, n)
      | (Inr (fd, readonly), n) \<Rightarrow>
          (let direct_align = logical_block_size H fd n
           in case open_direct H path readonly n of
                (direct, n) \<Rightarrow>
                  (Inr \<lparr>od_buffered_file = fd, od_direct_file = direct, od_readonly = readonly,
                        od_direct_align = direct_align\<rparr>, n)))"

section \<open>System calls in a loop\<close>

text \<open>
  A transfer restarts after what is done so far. The buffer is returned as it stands, also
  on an error. Offsets are added with wrap-around; the callers keep them below the size of
  the image.
\<close>

definition to_off_t :: "u64 \<Rightarrow> (io_error, u64) result" where
  "to_off_t off =
     (if off < 0x8000000000000000 then Inr off
      else Inl (Custom InvalidInput ''file offset does not fit in off_t''))"

partial_function (option) pread_all ::
  "'n hostio \<Rightarrow> int \<Rightarrow> u64 \<Rightarrow> nat \<Rightarrow> bytes \<Rightarrow> 'n \<Rightarrow> ((io_error, unit) result \<times> bytes \<times> 'n) option" where
  "pread_all H fd offset done buf n =
     (if done < length buf then
        (case to_off_t (offset + of_nat done) of
          Inl e \<Rightarrow> Some (Inl e, buf, n)
        | Inr off \<Rightarrow>
            (case h_pread H fd (length buf - done) off n of
              (Inl e, n) \<Rightarrow>
                if e = EINTR then pread_all H fd offset done buf n else Some (Inl (Os e), buf, n)
            | (Inr bs, n) \<Rightarrow>
                if bs = [] then Some (Inl (Custom UnexpectedEof ''pread short read''), buf, n)
                else pread_all H fd offset (done + length bs)
                       (take done buf @ bs @ drop (done + length bs) buf) n))
      else Some (Inr (), buf, n))"

partial_function (option) pwrite_all ::
  "'n hostio \<Rightarrow> int \<Rightarrow> u64 \<Rightarrow> nat \<Rightarrow> bytes \<Rightarrow> 'n \<Rightarrow> ((io_error, unit) result \<times> 'n) option" where
  "pwrite_all H fd offset done buf n =
     (if done < length buf then
        (case to_off_t (offset + of_nat done) of
          Inl e \<Rightarrow> Some (Inl e, n)
        | Inr off \<Rightarrow>
            (case h_pwrite H fd (drop done buf) off n of
              (Inl e, n) \<Rightarrow>
                if e = EINTR then pwrite_all H fd offset done buf n else Some (Inl (Os e), n)
            | (Inr k, n) \<Rightarrow>
                if k = 0 then Some (Inl (Custom WriteZero ''pwrite short write''), n)
                else pwrite_all H fd offset (done + k) buf n))
      else Some (Inr (), n))"

section \<open>The ring\<close>

text \<open>
  One request on the ring, the same in the three operations up to the name in the error
  texts: queue it, submit and wait, and take its completion.
\<close>

definition ring_round ::
  "'n hostio \<Rightarrow> string \<Rightarrow> u64 \<Rightarrow> int \<Rightarrow> Sqe \<Rightarrow> 'n \<Rightarrow> (io_error, Cqe, 'n) effect" where
  "ring_round H what user rg entry n =
     (case u_push H rg entry n of
       (Inl t, n) \<Rightarrow> (Inl (Custom OtherKind t), n)
     | (Inr _, n) \<Rightarrow>
         (case u_submit_and_wait H rg 1 n of
           (Inl e, n) \<Rightarrow> (Inl e, n)
         | (Inr _, n) \<Rightarrow>
             (case u_next H rg n of
               (None, n) \<Rightarrow> (Inl (Custom OtherKind (''io_uring '' @ what @ '': missing completion'')), n)
             | (Some c, n) \<Rightarrow>
                 if cq_user_data c \<noteq> user
                 then (Inl (Custom OtherKind (''io_uring '' @ what @ '': unexpected user_data'')), n)
                 else (Inr c, n))))"

text \<open>\<^verbatim>\<open>u32::try_from\<close> of a length succeeds.\<close>

definition fits_u32 :: "nat \<Rightarrow> bool" where
  "fits_u32 k \<longleftrightarrow> int k < 2 ^ 32"

partial_function (option) ring_read ::
  "'n hostio \<Rightarrow> int \<Rightarrow> int \<Rightarrow> u64 \<Rightarrow> nat \<Rightarrow> bytes \<Rightarrow> 'n \<Rightarrow> ((io_error, unit) result \<times> bytes \<times> 'n) option" where
  "ring_read H rg fd offset done buf n =
     (if done < length buf then
        if \<not> fits_u32 (length buf - done) then Some (Inl (Custom InvalidInput ''read too large''), buf, n)
        else
          (case ring_round H ''read'' RING_USER_READ rg
                  (SqeRead fd (of_nat (length buf - done)) (offset + of_nat done) RING_USER_READ) n of
            (Inl e, n) \<Rightarrow> Some (Inl e, buf, n)
          | (Inr c, n) \<Rightarrow>
              (let buf = take done buf @ cq_data c @ drop (done + length (cq_data c)) buf
               in if cq_result c < 0 then Some (Inl (Os (- cq_result c)), buf, n)
                  else if cq_result c = 0 then Some (Inl (Custom UnexpectedEof ''io_uring read: EOF''), buf, n)
                  else ring_read H rg fd offset (done + nat (cq_result c)) buf n))
      else Some (Inr (), buf, n))"

partial_function (option) ring_write ::
  "'n hostio \<Rightarrow> int \<Rightarrow> int \<Rightarrow> u64 \<Rightarrow> nat \<Rightarrow> bytes \<Rightarrow> 'n \<Rightarrow> ((io_error, unit) result \<times> 'n) option" where
  "ring_write H rg fd offset done buf n =
     (if done < length buf then
        if \<not> fits_u32 (length buf - done) then Some (Inl (Custom InvalidInput ''write too large''), n)
        else
          (case ring_round H ''write'' RING_USER_WRITE rg
                  (SqeWrite fd (drop done buf) (offset + of_nat done) RING_USER_WRITE) n of
            (Inl e, n) \<Rightarrow> Some (Inl e, n)
          | (Inr c, n) \<Rightarrow>
              if cq_result c < 0 then Some (Inl (Os (- cq_result c)), n)
              else if cq_result c = 0 then Some (Inl (Custom WriteZero ''io_uring write: zero''), n)
              else ring_write H rg fd offset (done + nat (cq_result c)) buf n)
      else Some (Inr (), n))"

definition ring_fsync :: "'n hostio \<Rightarrow> int \<Rightarrow> int \<Rightarrow> 'n \<Rightarrow> (io_error, unit, 'n) effect" where
  "ring_fsync H rg fd n =
     (case ring_round H ''fsync'' RING_USER_FSYNC rg (SqeFdatasync fd RING_USER_FSYNC) n of
       (Inl e, n) \<Rightarrow> (Inl e, n)
     | (Inr c, n) \<Rightarrow> if cq_result c < 0 then (Inl (Os (- cq_result c)), n) else (Inr (), n))"

partial_function (option) drain_completions :: "'n hostio \<Rightarrow> int \<Rightarrow> 'n \<Rightarrow> 'n option" where
  "drain_completions H rg n =
     (case u_next H rg n of (None, n) \<Rightarrow> Some n | (Some _, n) \<Rightarrow> drain_completions H rg n)"

definition drain_ring :: "'n hostio \<Rightarrow> int \<Rightarrow> 'n \<Rightarrow> 'n option" where
  "drain_ring H rg n = drain_completions H rg (snd (u_submit H rg n))"

section \<open>The disk\<close>

record BlockDisk =
  direct_file :: "int option"
  buffered_file :: int
  use_direct :: bool
  direct_align :: u64
  scratch :: AlignedBuf
  bd_ring :: "int option"

definition zero_scratch ::
  "'n hostio \<Rightarrow> nat \<Rightarrow> BlockDisk \<Rightarrow> 'n \<Rightarrow> (string, unit) result \<times> BlockDisk \<times> 'n" where
  "zero_scratch H len d n =
     (case ab_ensure H len (scratch d) n of
       (Inl t, b, n) \<Rightarrow> (Inl t, d\<lparr>scratch := b\<rparr>, n)
     | (Inr _, b, n) \<Rightarrow> (Inr (), d\<lparr>scratch := ab_store (replicate len 0) b\<rparr>, n))"

definition is_direct_aligned :: "u64 \<Rightarrow> nat \<Rightarrow> u64 \<Rightarrow> bool" where
  "is_direct_aligned offset len align \<longleftrightarrow> align \<noteq> 0 \<and> offset mod align = 0 \<and> of_nat len mod align = 0"

definition prefer_direct :: "u64 \<Rightarrow> nat \<Rightarrow> BlockDisk \<Rightarrow> bool" where
  "prefer_direct offset len d \<longleftrightarrow>
     use_direct d \<and> direct_file d \<noteq> None \<and> is_direct_aligned offset len (direct_align d)"

definition io_fd :: "bool \<Rightarrow> BlockDisk \<Rightarrow> int" where
  "io_fd prefer d =
     (if prefer then (case direct_file d of Some f \<Rightarrow> f | None \<Rightarrow> buffered_file d) else buffered_file d)"

definition disable_direct :: "BlockDisk \<Rightarrow> BlockDisk" where
  "disable_direct d = (if use_direct d then d\<lparr>use_direct := False\<rparr> else d)"

definition disable_ring :: "'n hostio \<Rightarrow> BlockDisk \<Rightarrow> 'n \<Rightarrow> (BlockDisk \<times> 'n) option" where
  "disable_ring H d n =
     (case bd_ring d of
       None \<Rightarrow> Some (d, n)
     | Some rg \<Rightarrow> do {
         n \<leftarrow> drain_ring H rg n;
         Some (d\<lparr>bd_ring := None\<rparr>, u_drop H rg n)
       })"

definition read_at_fd ::
  "'n hostio \<Rightarrow> int \<Rightarrow> u64 \<Rightarrow> bytes \<Rightarrow> BlockDisk \<Rightarrow> 'n \<Rightarrow>
   ((io_error, unit) result \<times> bytes \<times> BlockDisk \<times> 'n) option" where
  "read_at_fd H fd offset buf d n =
     (case bd_ring d of
       None \<Rightarrow> do { (r, buf, n) \<leftarrow> pread_all H fd offset 0 buf n; Some (r, buf, d, n) }
     | Some rg \<Rightarrow> do {
         (r, buf, n) \<leftarrow> ring_read H rg fd offset 0 buf n;
         (case r of
           Inr _ \<Rightarrow> Some (Inr (), buf, d, n)
         | Inl e \<Rightarrow> do {
             (d, n) \<leftarrow> disable_ring H d n;
             (r, buf, n) \<leftarrow> pread_all H fd offset 0 buf n;
             Some (r, buf, d, n)
           })
       })"

text \<open>The slice \<open>buf\<close> is the front of the scratch buffer itself, so it is stored back each time.\<close>

partial_function (option) read_loop ::
  "'n hostio \<Rightarrow> bool \<Rightarrow> u64 \<Rightarrow> nat \<Rightarrow> BlockDisk \<Rightarrow> 'n \<Rightarrow> ((io_error, unit) result \<times> BlockDisk \<times> 'n) option" where
  "read_loop H prefer offset len d n = do {
     (r, buf, d, n) \<leftarrow> read_at_fd H (io_fd prefer d) offset (take len (ab_mem (scratch d))) d n;
     let d = d\<lparr>scratch := ab_store buf (scratch d)\<rparr>;
     (case r of
       Inr _ \<Rightarrow> Some (Inr (), d, n)
     | Inl e \<Rightarrow>
         if prefer \<and> raw_os_error e = Some EINVAL \<and> use_direct d
         then read_loop H False offset len (disable_direct d) n
         else Some (Inl e, d, n))
   }"

definition read_at ::
  "'n hostio \<Rightarrow> u64 \<Rightarrow> nat \<Rightarrow> BlockDisk \<Rightarrow> 'n \<Rightarrow> ((io_error, unit) result \<times> BlockDisk \<times> 'n) option" where
  "read_at H offset len d n =
     (if len = 0 then Some (Inr (), d, n)
      else case ab_ensure H len (scratch d) n of
        (Inl t, b, n) \<Rightarrow> Some (Inl (Custom OtherKind t), d\<lparr>scratch := b\<rparr>, n)
      | (Inr _, b, n) \<Rightarrow> read_loop H (prefer_direct offset len d) offset len (d\<lparr>scratch := b\<rparr>) n)"

definition write_at_fd ::
  "'n hostio \<Rightarrow> int \<Rightarrow> u64 \<Rightarrow> bytes \<Rightarrow> BlockDisk \<Rightarrow> 'n \<Rightarrow> ((io_error, unit) result \<times> BlockDisk \<times> 'n) option" where
  "write_at_fd H fd offset buf d n =
     (case bd_ring d of
       None \<Rightarrow> do { (r, n) \<leftarrow> pwrite_all H fd offset 0 buf n; Some (r, d, n) }
     | Some rg \<Rightarrow> do {
         (r, n) \<leftarrow> ring_write H rg fd offset 0 buf n;
         (case r of
           Inr _ \<Rightarrow> Some (Inr (), d, n)
         | Inl e \<Rightarrow> do {
             (d, n) \<leftarrow> disable_ring H d n;
             (r, n) \<leftarrow> pwrite_all H fd offset 0 buf n;
             Some (r, d, n)
           })
       })"

partial_function (option) write_loop ::
  "'n hostio \<Rightarrow> bool \<Rightarrow> u64 \<Rightarrow> nat \<Rightarrow> BlockDisk \<Rightarrow> 'n \<Rightarrow> ((io_error, unit) result \<times> BlockDisk \<times> 'n) option" where
  "write_loop H prefer offset len d n = do {
     (r, d, n) \<leftarrow> write_at_fd H (io_fd prefer d) offset (take len (ab_mem (scratch d))) d n;
     (case r of
       Inr _ \<Rightarrow> Some (Inr (), d, n)
     | Inl e \<Rightarrow>
         if prefer \<and> raw_os_error e = Some EINVAL \<and> use_direct d
         then write_loop H False offset len (disable_direct d) n
         else Some (Inl e, d, n))
   }"

definition write_at ::
  "'n hostio \<Rightarrow> u64 \<Rightarrow> nat \<Rightarrow> BlockDisk \<Rightarrow> 'n \<Rightarrow> ((io_error, unit) result \<times> BlockDisk \<times> 'n) option" where
  "write_at H offset len d n =
     (if len = 0 then Some (Inr (), d, n)
      else if len > ab_cap (scratch d)
      then Some (Inl (Custom OtherKind ''scratch buffer too small for write''), d, n)
      else write_loop H (prefer_direct offset len d) offset len d n)"

definition fsync_fd ::
  "'n hostio \<Rightarrow> int \<Rightarrow> BlockDisk \<Rightarrow> 'n \<Rightarrow> ((io_error, unit) result \<times> BlockDisk \<times> 'n) option" where
  "fsync_fd H fd d n =
     (let datasync = (\<lambda>d n. case h_fdatasync H fd n of
                        (Inl e, n) \<Rightarrow> Some (Inl (Os e), d, n)
                      | (Inr _, n) \<Rightarrow> Some (Inr (), d, n))
      in case bd_ring d of
           None \<Rightarrow> datasync d n
         | Some rg \<Rightarrow>
             (case ring_fsync H rg fd n of
               (Inr _, n) \<Rightarrow> Some (Inr (), d, n)
             | (Inl e, n) \<Rightarrow> do { (d, n) \<leftarrow> disable_ring H d n; datasync d n }))"

definition flush_data ::
  "'n hostio \<Rightarrow> BlockDisk \<Rightarrow> 'n \<Rightarrow> ((io_error, unit) result \<times> BlockDisk \<times> 'n) option" where
  "flush_data H d n = do {
     (r, d, n) \<leftarrow> (case (use_direct d, direct_file d) of
                    (True, Some f) \<Rightarrow> fsync_fd H f d n
                  | _ \<Rightarrow> Some (Inr (), d, n));
     (case r of
       Inl e \<Rightarrow> Some (Inl e, d, n)
     | Inr _ \<Rightarrow> fsync_fd H (buffered_file d) d n)
   }"

end
