(* ===== verification/VirtioDev.thy ===== *)
theory VirtioDev
  imports QueueOps
begin

text \<open>
  \<^verbatim>\<open>src/devices/virtio_dev.rs\<close>: the shell the three virtio devices share. The trait
  \<^verbatim>\<open>VirtioState\<close> is a record of operations with the contract \<open>virtio_state\<close>, which each
  device interprets on its own state; the worker slot is the protocol by which a worker
  thread is reserved, committed and taken back.
\<close>

section \<open>The trait and the shell\<close>

definition CONFIG_CAP :: nat where [const_defs]: "CONFIG_CAP = 64"

text \<open>
  \<^verbatim>\<open>mmio\<close> and the update through \<^verbatim>\<open>mmio_mut\<close>; \<^verbatim>\<open>copy_config\<close> fills the buffer it is given
  and returns the length of the configuration.
\<close>

record ('s, 'q) VirtioState =
  vs_mmio :: "'s \<Rightarrow> 'q VirtioMmio"
  vs_set_mmio :: "'q VirtioMmio \<Rightarrow> 's \<Rightarrow> 's"
  vs_copy_config :: "'s \<Rightarrow> bytes \<Rightarrow> bytes \<times> nat"

datatype 'h WorkerSlot = Idle | Starting | Running 'h

record ('s, 'h) VirtioDev =
  vd_base :: u64
  vd_state :: 's
  vd_kick :: EventFd
  vd_stop :: bool
  vd_worker :: "'h WorkerSlot"

definition VirtioDev_new ::
  "('s, 'q) VirtioState \<Rightarrow> 'w evfd \<Rightarrow> u64 \<Rightarrow> 's \<Rightarrow> 'w \<Rightarrow> (error, ('s, 'h) VirtioDev, 'w) effect" where
  "VirtioDev_new T E bs st w =
     try_then (map_err (\<lambda>e. Virtio (MsgIo '''' e)) (ev_clone E (notify_fd (vs_mmio T st)) w)) (\<lambda>kick w.
       (Inr \<lparr>vd_base = bs, vd_state = st, vd_kick = kick, vd_stop = False, vd_worker = Idle\<rparr>, w))"

definition vd_range :: "('s, 'h) VirtioDev \<Rightarrow> u64 \<times> u64" where
  "vd_range d = (vd_base d, vd_base d + MMIO_SIZE)"

definition vd_handles :: "('s, 'h) VirtioDev \<Rightarrow> u64 \<Rightarrow> bool" where
  "vd_handles d addr \<longleftrightarrow> fst (vd_range d) \<le> addr \<and> addr < snd (vd_range d)"

definition vd_read ::
  "('s, 'q) VirtioState \<Rightarrow> ('q, 'c, 'r, 'x, 'w) virtq \<Rightarrow> ('s, 'h) VirtioDev \<Rightarrow> u64 \<Rightarrow> bytes \<Rightarrow> bytes" where
  "vd_read T V d addr data =
     (let (raw, len) = vs_copy_config T (vd_state d) (replicate CONFIG_CAP 0);
          n = min len (length raw)
      in mmio_read V (vs_mmio T (vd_state d)) addr data (take n raw))"

definition vd_write ::
  "('s, 'q) VirtioState \<Rightarrow> ('q, 'c, 'r, 'x, 'w) virtq \<Rightarrow> 'w evfd \<Rightarrow> ('s, 'h) VirtioDev \<Rightarrow>
   u64 \<Rightarrow> bytes \<Rightarrow> 'w \<Rightarrow> (error, unit) result \<times> ('s, 'h) VirtioDev \<times> 'w" where
  "vd_write T V E d addr data w =
     (case mmio_write V (vs_mmio T (vd_state d)) addr data w of
       (r, m) \<Rightarrow>
         (let d = d\<lparr>vd_state := vs_set_mmio T m (vd_state d)\<rparr>
          in case r of
               Inl e \<Rightarrow> (Inl e, d, w)
             | Inr None \<Rightarrow> (Inr (), d, w)
             | Inr (Some _) \<Rightarrow>
                 (case ev_write E (vd_kick d) 1 w of
                   (Inl e, w) \<Rightarrow> (Inl (Virtio (MsgIo '''' e)), d, w)
                 | (Inr _, w) \<Rightarrow> (Inr (), d, w))))"

section \<open>The worker slot\<close>

definition clone_kick :: "'w evfd \<Rightarrow> ('s, 'h) VirtioDev \<Rightarrow> 'w \<Rightarrow> (io_error, EventFd, 'w) effect" where
  "clone_kick E d w = ev_clone E (vd_kick d) w"

definition clear_stop :: "('s, 'h) VirtioDev \<Rightarrow> ('s, 'h) VirtioDev" where
  "clear_stop d = d\<lparr>vd_stop := False\<rparr>"

text \<open>\<^verbatim>\<open>reserve\<close>: whether a reservation is handed out, and the slot it leaves.\<close>

definition reserve_slot :: "'h WorkerSlot \<Rightarrow> bool \<times> 'h WorkerSlot" where
  "reserve_slot sl = (case sl of Idle \<Rightarrow> (True, Starting) | _ \<Rightarrow> (False, sl))"

definition commit_slot :: "'h \<Rightarrow> 'h WorkerSlot \<Rightarrow> 'h WorkerSlot" where
  "commit_slot h sl = Running h"

text \<open>Dropping a reservation that was not committed.\<close>

definition release_slot :: "'h WorkerSlot \<Rightarrow> 'h WorkerSlot" where
  "release_slot sl = (case sl of Starting \<Rightarrow> Idle | _ \<Rightarrow> sl)"

definition request_stop :: "'w evfd \<Rightarrow> ('s, 'h) VirtioDev \<Rightarrow> 'w \<Rightarrow> ('s, 'h) VirtioDev \<times> 'w" where
  "request_stop E d w = (d\<lparr>vd_stop := True\<rparr>, snd (ev_write E (vd_kick d) 1 w))"

text \<open>
  One turn of the loop of \<^verbatim>\<open>take_worker\<close>: \<open>None\<close> means that the slot was being started and
  the loop goes round again.
\<close>

definition take_worker_turn :: "'h WorkerSlot \<Rightarrow> 'h option option \<times> 'h WorkerSlot" where
  "take_worker_turn sl =
     (case sl of
       Running h \<Rightarrow> (Some (Some h), Idle)
     | Idle \<Rightarrow> (Some None, Idle)
     | Starting \<Rightarrow> (None, Starting))"

partial_function (option) take_worker :: "'h WorkerSlot \<Rightarrow> ('h option \<times> 'h WorkerSlot) option" where
  "take_worker sl =
     (case take_worker_turn sl of
       (Some r, sl) \<Rightarrow> Some (r, sl)
     | (None, sl) \<Rightarrow> take_worker sl)"

text \<open>
  Dropping the device; \<open>join\<close> waits for the thread of a handle and gives its result, \<open>None\<close>
  when it panicked.
\<close>

definition vd_drop ::
  "'w evfd \<Rightarrow> ('h \<Rightarrow> 'w \<Rightarrow> 'o option \<times> 'w) \<Rightarrow> ('s, 'h) VirtioDev \<Rightarrow> 'w \<Rightarrow> 'w option" where
  "vd_drop E join d w =
     (case request_stop E d w of
       (d, w) \<Rightarrow>
         (case take_worker (vd_worker d) of
           None \<Rightarrow> None
         | Some (None, _) \<Rightarrow> Some w
         | Some (Some h, _) \<Rightarrow> Some (snd (join h w))))"

text \<open>
  \<^verbatim>\<open>start_worker\<close> and \<^verbatim>\<open>stop_worker\<close> of the network and vsock devices, the same up to the
  error they report. \<open>spawn\<close> starts the thread; an early return drops the reservation.
\<close>

definition start_thread ::
  "(detail \<Rightarrow> error) \<Rightarrow> 'w evfd \<Rightarrow> (EventFd \<Rightarrow> 'w \<Rightarrow> (io_error, 'h, 'w) effect) \<Rightarrow>
   ('s, 'h) VirtioDev \<Rightarrow> 'w \<Rightarrow> (error, unit) result \<times> ('s, 'h) VirtioDev \<times> 'w" where
  "start_thread wrap E spawn d w =
     (case reserve_slot (vd_worker d) of
       (False, _) \<Rightarrow> (Inr (), d, w)
     | (True, sl) \<Rightarrow>
         (let d = d\<lparr>vd_worker := sl\<rparr>
          in case clone_kick E d w of
               (Inl e, w) \<Rightarrow> (Inl (wrap (MsgIo '''' e)), d\<lparr>vd_worker := release_slot sl\<rparr>, w)
             | (Inr kick, w) \<Rightarrow>
                 (let d = clear_stop d
                  in case spawn kick w of
                       (Inl e, w) \<Rightarrow> (Inl (wrap (MsgIo '''' e)), d\<lparr>vd_worker := release_slot sl\<rparr>, w)
                     | (Inr h, w) \<Rightarrow> (Inr (), d\<lparr>vd_worker := commit_slot h sl\<rparr>, w))))"

definition stop_thread ::
  "error \<Rightarrow> 'w evfd \<Rightarrow> ('h \<Rightarrow> 'w \<Rightarrow> (error, unit) result option \<times> 'w) \<Rightarrow>
   ('s, 'h) VirtioDev \<Rightarrow> 'w \<Rightarrow> ((error, unit) result \<times> ('s, 'h) VirtioDev \<times> 'w) option" where
  "stop_thread panicked E join d w =
     (case request_stop E d w of
       (d, w) \<Rightarrow>
         (case take_worker (vd_worker d) of
           None \<Rightarrow> None
         | Some (None, sl) \<Rightarrow> Some (Inr (), d\<lparr>vd_worker := sl\<rparr>, w)
         | Some (Some h, sl) \<Rightarrow>
             (case join h w of
               (Some r, w) \<Rightarrow> Some (r, d\<lparr>vd_worker := sl\<rparr>, w)
             | (None, w) \<Rightarrow> Some (Inl panicked, d\<lparr>vd_worker := sl\<rparr>, w))))"

section \<open>The contract of a device state\<close>

locale virtio_state =
  fixes T :: "('s, 'q) VirtioState" and config :: "'s \<Rightarrow> bytes"
  assumes get_set: "vs_mmio T (vs_set_mmio T m s) = m"
    and config_set: "config (vs_set_mmio T m s) = config s"
    and config_fits: "length (config s) \<le> CONFIG_CAP"
    and copies: "length d = CONFIG_CAP \<Longrightarrow>
      vs_copy_config T s d = (config s @ drop (length (config s)) d, length (config s))"
begin

text \<open>A read shows the registers, and the device's configuration from \<open>0x100\<close> on.\<close>

lemma read_window: "vd_read T V d addr data = mmio_read V (vs_mmio T (vd_state d)) addr data (config (vd_state d))"
  using config_fits [of "vd_state d"] by (simp add: vd_read_def copies)

lemma read_config:
  assumes "addr = mmio_base (vs_mmio T (vd_state d)) + REG_CONFIG + of_nat i" and "i < length (config (vd_state d))"
  shows "vd_read T V d addr data =
     map (\<lambda>k. if i + k < length (config (vd_state d)) then config (vd_state d) ! (i + k) else 0) [0..<length data]"
proof -
  let ?c = "config (vd_state d)"
  have len: "length ?c \<le> 64" using config_fits [of "vd_state d"] by (simp add: CONFIG_CAP_def)
  with assms have i: "unat (of_nat i :: u64) = i" by (simp add: unat_of_nat)
  have "REG_CONFIG \<le> REG_CONFIG + of_nat i" "REG_CONFIG + of_nat i < REG_CONFIG + of_nat (length ?c)"
    using len assms(2) i
    by (simp_all add: REG_CONFIG_def word_le_nat_alt word_less_nat_alt unat_word_ariths unat_of_nat)
  with assms(1) i show ?thesis
    by (simp add: read_window mmio_read_def Let_def add.commute)
qed

text \<open>A write goes to the registers alone and kicks the worker exactly on a queue notification.\<close>

lemma write_state:
  "vd_state (fst (snd (vd_write T V E d addr data w))) =
     vs_set_mmio T (snd (mmio_write V (vs_mmio T (vd_state d)) addr data w)) (vd_state d)"
  by (auto simp: vd_write_def Let_def split: prod.splits sum.splits option.splits)

lemma write_keeps_config:
  "config (vd_state (fst (snd (vd_write T V E d addr data w)))) = config (vd_state d)"
  by (simp add: write_state config_set)

lemma write_keeps_identity:
  "same_identity (vs_mmio T (vd_state d)) (vs_mmio T (vd_state (fst (snd (vd_write T V E d addr data w)))))"
  by (simp add: write_state get_set mmio_write_def write_reg_identity)

end

text \<open>A sequence of guest writes to a device, each with the world of its moment.\<close>

fun vd_writes ::
  "('s, 'q) VirtioState \<Rightarrow> ('q, 'c, 'r, 'x, 'w) virtq \<Rightarrow> 'w evfd \<Rightarrow> ('s, 'h) VirtioDev \<Rightarrow>
   (u64 \<times> bytes \<times> 'w) list \<Rightarrow> ('s, 'h) VirtioDev" where
  "vd_writes T V E d [] = d"
| "vd_writes T V E d ((addr, data, w) # ws) =
     vd_writes T V E (fst (snd (vd_write T V E d addr data w))) ws"

context virtio_state
begin

lemma writes_keep:
  "config (vd_state (vd_writes T V E d ws)) = config (vd_state d) \<and>
   same_identity (vs_mmio T (vd_state d)) (vs_mmio T (vd_state (vd_writes T V E d ws)))"
proof (induction ws arbitrary: d)
  case Nil
  then show ?case by (simp add: same_identity_def)
next
  case (Cons a ws)
  obtain addr data w where a: "a = (addr, data, w)" by (cases a)
  show ?case
    using Cons.IH [of "fst (snd (vd_write T V E d addr data w))"]
      write_keeps_config [of V E d addr data w] write_keeps_identity [of d V E addr data w] a
    by (simp add: same_identity_def)
qed

end

section \<open>Reservations\<close>

text \<open>
  The slot under any interleaving of the threads that start and stop a worker. \<open>ws_active\<close>
  counts the reservations in flight, \<open>ws_committed\<close> and \<open>ws_taken\<close> list the handles put into
  the slot and taken out of it, newest first.
\<close>

record 'h worker_sys =
  ws_slot :: "'h WorkerSlot"
  ws_active :: nat
  ws_committed :: "'h list"
  ws_taken :: "'h list"

inductive worker_step :: "'h worker_sys \<Rightarrow> 'h worker_sys \<Rightarrow> bool" where
  ws_reserve: "reserve_slot (ws_slot x) = (True, s) \<Longrightarrow>
    worker_step x (x\<lparr>ws_slot := s, ws_active := Suc (ws_active x)\<rparr>)"
| ws_refused: "reserve_slot (ws_slot x) = (False, s) \<Longrightarrow> worker_step x (x\<lparr>ws_slot := s\<rparr>)"
| ws_commit: "ws_active x = Suc n \<Longrightarrow>
    worker_step x (x\<lparr>ws_slot := commit_slot h (ws_slot x), ws_active := n,
                    ws_committed := h # ws_committed x\<rparr>)"
| ws_release: "ws_active x = Suc n \<Longrightarrow>
    worker_step x (x\<lparr>ws_slot := release_slot (ws_slot x), ws_active := n\<rparr>)"
| ws_take: "take_worker_turn (ws_slot x) = (Some (Some h), s) \<Longrightarrow>
    worker_step x (x\<lparr>ws_slot := s, ws_taken := h # ws_taken x\<rparr>)"
| ws_none: "take_worker_turn (ws_slot x) = (r, s) \<Longrightarrow> r = None \<or> r = Some None \<Longrightarrow>
    worker_step x (x\<lparr>ws_slot := s\<rparr>)"

inductive worker_reachable :: "'h worker_sys \<Rightarrow> bool" where
  ws_start: "worker_reachable \<lparr>ws_slot = Idle, ws_active = 0, ws_committed = [], ws_taken = []\<rparr>"
| ws_step: "worker_reachable x \<Longrightarrow> worker_step x y \<Longrightarrow> worker_reachable y"

inductive_cases worker_stepE [elim]: "worker_step x y"

definition slot_handles :: "'h WorkerSlot \<Rightarrow> 'h list" where
  "slot_handles sl = (case sl of Running h \<Rightarrow> [h] | _ \<Rightarrow> [])"

definition worker_inv :: "'h worker_sys \<Rightarrow> bool" where
  "worker_inv x \<longleftrightarrow>
     ws_active x = (if ws_slot x = Starting then 1 else 0) \<and>
     ws_committed x = slot_handles (ws_slot x) @ ws_taken x"

lemma worker_inv_step: "worker_step x y \<Longrightarrow> worker_inv x \<Longrightarrow> worker_inv y"
  by (induction rule: worker_step.induct)
    (auto simp: worker_inv_def reserve_slot_def commit_slot_def release_slot_def take_worker_turn_def
      slot_handles_def split: WorkerSlot.splits if_splits)

lemma worker_reachable_inv: "worker_reachable x \<Longrightarrow> worker_inv x"
proof (induction rule: worker_reachable.induct)
  case ws_start
  then show ?case by (simp add: worker_inv_def slot_handles_def)
next
  case (ws_step x y)
  then show ?case by (blast intro: worker_inv_step)
qed



end
