(* ===== verification/VirtioBlk.thy ===== *)
theory VirtioBlk
  imports BlkDisk VirtioDev
begin

text \<open>
  The device side of \<^verbatim>\<open>src/devices/virtio_blk.rs\<close>: creation, the worker with its disk, the
  request queue and the requests of a guest.
\<close>

definition VIRTIO_ID_BLOCK :: u32 where [const_defs]: "VIRTIO_ID_BLOCK = 2"
definition VIRTIO_BLK_F_SIZE_MAX :: u64 where [const_defs]: "VIRTIO_BLK_F_SIZE_MAX = push_bit 1 1"
definition VIRTIO_BLK_F_SEG_MAX :: u64 where [const_defs]: "VIRTIO_BLK_F_SEG_MAX = push_bit 2 1"
definition VIRTIO_BLK_F_RO :: u64 where [const_defs]: "VIRTIO_BLK_F_RO = push_bit 5 1"
definition VIRTIO_BLK_F_BLK_SIZE :: u64 where [const_defs]: "VIRTIO_BLK_F_BLK_SIZE = push_bit 6 1"
definition VIRTIO_BLK_F_FLUSH :: u64 where [const_defs]: "VIRTIO_BLK_F_FLUSH = push_bit 9 1"
definition CONFIG_SIZE_MAX :: u32 where [const_defs]: "CONFIG_SIZE_MAX = 65536"
definition CONFIG_SEG_MAX :: u32 where [const_defs]: "CONFIG_SEG_MAX = 32"
definition CONFIG_BLK_SIZE :: u32 where [const_defs]: "CONFIG_BLK_SIZE = 512"
definition VIRTIO_BLK_T_IN :: u32 where [const_defs]: "VIRTIO_BLK_T_IN = 0"
definition VIRTIO_BLK_T_OUT :: u32 where [const_defs]: "VIRTIO_BLK_T_OUT = 1"
definition VIRTIO_BLK_T_FLUSH :: u32 where [const_defs]: "VIRTIO_BLK_T_FLUSH = 4"
definition VIRTIO_BLK_T_GET_ID :: u32 where [const_defs]: "VIRTIO_BLK_T_GET_ID = 8"
definition VIRTIO_BLK_S_OK :: u8 where [const_defs]: "VIRTIO_BLK_S_OK = 0"
definition VIRTIO_BLK_S_IOERR :: u8 where [const_defs]: "VIRTIO_BLK_S_IOERR = 1"
definition VIRTIO_BLK_S_UNSUPP :: u8 where [const_defs]: "VIRTIO_BLK_S_UNSUPP = 2"
definition BLK_QUEUE_MAX_SIZE :: u16 where [const_defs]: "BLK_QUEUE_MAX_SIZE = 256"
definition QUEUE_REQUEST :: u32 where [const_defs]: "QUEUE_REQUEST = 0"
definition CONFIG_LEN :: nat where [const_defs]: "CONFIG_LEN = 24"

section \<open>The state\<close>

record 'q BlockTransport =
  bt_mmio :: "'q VirtioMmio"
  capacity_sectors :: u64
  bt_readonly :: bool

record ('q, 'h) VirtioBlock =
  vb_dev :: "('q BlockTransport, 'h) VirtioDev"
  vb_disk :: "BlockDisk option"

definition blk_advertised_features :: "bool \<Rightarrow> u64" where
  "blk_advertised_features readonly =
     (let feats = VIRTIO_F_VERSION_1 OR VIRTIO_BLK_F_SIZE_MAX OR VIRTIO_BLK_F_SEG_MAX OR
                  VIRTIO_BLK_F_BLK_SIZE OR VIRTIO_BLK_F_FLUSH
      in if readonly then feats OR VIRTIO_BLK_F_RO else feats)"

definition blk_config_space :: "u64 \<Rightarrow> bytes" where
  "blk_config_space cap =
     le_bytes 8 cap @ le_bytes 4 CONFIG_SIZE_MAX @ le_bytes 4 CONFIG_SEG_MAX @ [0, 0, 0, 0] @
     le_bytes 4 CONFIG_BLK_SIZE"

definition blk_copy_config :: "'q BlockTransport \<Rightarrow> bytes \<Rightarrow> bytes \<times> nat" where
  "blk_copy_config st dest =
     (let cfg = blk_config_space (capacity_sectors st); n = min (length cfg) (length dest)
      in (take n cfg @ drop n dest, length cfg))"

definition blk_state_ops :: "('q BlockTransport, 'q) VirtioState" where
  "blk_state_ops =
     \<lparr>vs_mmio = bt_mmio, vs_set_mmio = (\<lambda>m st. st\<lparr>bt_mmio := m\<rparr>), vs_copy_config = blk_copy_config\<rparr>"

lemma length_blk_config [simp]: "length (blk_config_space cap) = CONFIG_LEN"
  by (simp add: blk_config_space_def CONFIG_LEN_def)

interpretation blk: virtio_state blk_state_ops "\<lambda>st. blk_config_space (capacity_sectors st)"
  by unfold_locales (auto simp: blk_state_ops_def blk_copy_config_def CONFIG_LEN_def CONFIG_CAP_def Let_def)

section \<open>Creation\<close>

text \<open>
  An error closes the descriptors opened so far; one of \<^verbatim>\<open>VirtioDev::new\<close> also frees the
  scratch buffer and the ring.
\<close>

definition od_close :: "'n hostio \<Rightarrow> OpenedDisk \<Rightarrow> 'n \<Rightarrow> 'n" where
  "od_close H od n =
     (let n = h_close H (od_buffered_file od) n
      in case od_direct_file od of None \<Rightarrow> n | Some f \<Rightarrow> h_close H f n)"

definition blk_capacity :: "u64 \<Rightarrow> u64 option" where
  "blk_capacity len = (if len < SECTOR_SIZE \<or> len mod SECTOR_SIZE \<noteq> 0 then None else Some (len div SECTOR_SIZE))"

definition VirtioBlock_new ::
  "('q, 'c, 'r, 'x, 'g) virtq \<Rightarrow> 'g evfd \<Rightarrow> 'g kvm_wiring \<Rightarrow> 'n hostio \<Rightarrow> bytes \<Rightarrow> 'g \<Rightarrow> 'n \<Rightarrow>
   (error, ('q, 'h) VirtioBlock) result \<times> 'g \<times> 'n" where
  "VirtioBlock_new V E K H path g n =
     (case open_disk_image H path n of
       (Inl e, n) \<Rightarrow> (Inl e, g, n)
     | (Inr od, n) \<Rightarrow>
         (case h_file_len H (od_buffered_file od) n of
           Inl e \<Rightarrow> (Inl (ImageIo e), g, od_close H od n)
         | Inr len \<Rightarrow>
             (case blk_capacity len of
               None \<Rightarrow>
                 (Inl (Block (Msg ''disk image size must be a non-zero multiple of 512 bytes'')), g, od_close H od n)
             | Some cap \<Rightarrow>
                 (case
                    try_then (VirtioMmio_new V E VIRTIO_MMIO_BASE VIRTIO_ID_BLOCK
                                (blk_advertised_features (od_readonly od)) 1 BLK_QUEUE_MAX_SIZE g) (\<lambda>m g.
                    try_then (map_err KvmIoctl (register_irq K m VIRTIO_BLK_IRQ g)) (\<lambda>_ g.
                    try_then (map_err KvmIoctl (register_ioeventfds K m g)) (\<lambda>_ g. (Inr m, g))))
                  of
                    (Inl e, g) \<Rightarrow> (Inl e, g, od_close H od n)
                  | (Inr m, g) \<Rightarrow>
                      (case AlignedBuf_new H SCRATCH_INITIAL n of
                        (Inl t, n) \<Rightarrow> (Inl (Block (Msg t)), g, od_close H od n)
                      | (Inr buf, n) \<Rightarrow>
                          (case u_new H 8 n of
                            (ring, n) \<Rightarrow>
                              (let ring = (case ring of Inl _ \<Rightarrow> None | Inr rg \<Rightarrow> Some rg)
                               in case VirtioDev_new blk_state_ops E VIRTIO_MMIO_BASE
                                         \<lparr>bt_mmio = m, capacity_sectors = cap, bt_readonly = od_readonly od\<rparr> g of
                                    (Inl e, g) \<Rightarrow>
                                      (let n = (case ring of None \<Rightarrow> n | Some rg \<Rightarrow> u_drop H rg n)
                                       in (Inl e, g, od_close H od (ab_drop H buf n)))
                                  | (Inr dev, g) \<Rightarrow>
                                      (Inr \<lparr>vb_dev = dev,
                                            vb_disk = Some \<lparr>direct_file = od_direct_file od,
                                                            buffered_file = od_buffered_file od,
                                                            use_direct = (od_direct_file od \<noteq> None),
                                                            direct_align = od_direct_align od,
                                                            scratch = buf, bd_ring = ring\<rparr>\<rparr>, g, n))))))))"

section \<open>The worker thread\<close>

text \<open>
  The disk moves into the thread \<open>spawn\<close> starts, and back when that fails; \<open>join\<close> gives the
  outcome with the disk, \<open>None\<close> when the thread panicked.
\<close>

definition blk_start_worker ::
  "'g evfd \<Rightarrow> (BlockDisk \<Rightarrow> EventFd \<Rightarrow> 'g \<Rightarrow> (io_error, 'h, 'g) effect) \<Rightarrow> ('q, 'h) VirtioBlock \<Rightarrow> 'g \<Rightarrow>
   (error, unit) result \<times> ('q, 'h) VirtioBlock \<times> 'g" where
  "blk_start_worker E spawn b g =
     (case reserve_slot (vd_worker (vb_dev b)) of
       (False, _) \<Rightarrow> (Inr (), b, g)
     | (True, sl) \<Rightarrow>
         (let dev = (vb_dev b)\<lparr>vd_worker := sl\<rparr>; released = dev\<lparr>vd_worker := release_slot sl\<rparr>
          in case vb_disk b of
               None \<Rightarrow> (Inl (Block (Msg ''block disk already in use'')), b\<lparr>vb_dev := released\<rparr>, g)
             | Some disk \<Rightarrow>
                 (case clone_kick E dev g of
                   (Inl e, g) \<Rightarrow>
                     (Inl (Block (MsgIo '''' e)), b\<lparr>vb_dev := released, vb_disk := Some disk\<rparr>, g)
                 | (Inr kick, g) \<Rightarrow>
                     (case spawn disk kick g of
                       (Inl e, g) \<Rightarrow>
                         (Inl (Block (MsgIo '''' e)), b\<lparr>vb_dev := clear_stop released, vb_disk := Some disk\<rparr>, g)
                     | (Inr h, g) \<Rightarrow>
                         (Inr (), b\<lparr>vb_dev := (clear_stop dev)\<lparr>vd_worker := commit_slot h sl\<rparr>, vb_disk := None\<rparr>, g)))))"

definition blk_stop_worker ::
  "'g evfd \<Rightarrow> ('h \<Rightarrow> 'g \<Rightarrow> ((error, unit) result \<times> BlockDisk) option \<times> 'g) \<Rightarrow> ('q, 'h) VirtioBlock \<Rightarrow> 'g \<Rightarrow>
   ((error, unit) result \<times> ('q, 'h) VirtioBlock \<times> 'g) option" where
  "blk_stop_worker E join b g =
     (case request_stop E (vb_dev b) g of
       (dev, g) \<Rightarrow>
         (case take_worker (vd_worker dev) of
           None \<Rightarrow> None
         | Some (None, sl) \<Rightarrow> Some (Inr (), b\<lparr>vb_dev := dev\<lparr>vd_worker := sl\<rparr>\<rparr>, g)
         | Some (Some h, sl) \<Rightarrow>
             (case join h g of
               (Some (r, disk), g) \<Rightarrow> Some (r, b\<lparr>vb_dev := dev\<lparr>vd_worker := sl\<rparr>, vb_disk := Some disk\<rparr>, g)
             | (None, g) \<Rightarrow>
                 Some (Inl (Block (Msg ''virtio-blk worker panicked'')), b\<lparr>vb_dev := dev\<lparr>vd_worker := sl\<rparr>\<rparr>, g))))"

section \<open>Requests\<close>

datatype BlockReqError = ReqIo | ReqChain | ReqUnsupported

record VirtioBlkReqHdr =
  rh_type :: u32
  rh_ioprio :: u32
  rh_sector :: u64

definition HDR_LEN :: nat where "HDR_LEN = 16"

text \<open>The 16 bytes of the header as \<^verbatim>\<open>read_obj\<close> lays them over the structure.\<close>

definition hdr_of :: "bytes \<Rightarrow> VirtioBlkReqHdr" where
  "hdr_of bs = \<lparr>rh_type = le_word (take 4 bs), rh_ioprio = le_word (take 4 (drop 4 bs)),
                rh_sector = le_word (take 8 (drop 8 bs))\<rparr>"

text \<open>The byte range of a request, or \<open>None\<close> when it overflows; and whether it leaves the disk.\<close>

definition req_range :: "u64 \<Rightarrow> nat \<Rightarrow> (u64 \<times> u64) option" where
  "req_range sector data_len =
     (case checked_mul sector SECTOR_SIZE of
       None \<Rightarrow> None
     | Some offset \<Rightarrow>
         (case checked_add offset (of_nat data_len) of
           None \<Rightarrow> None
         | Some e \<Rightarrow> Some (offset, e)))"

definition put_status ::
  "('q, 'c, 'r, 'x, 'g) virtq \<Rightarrow> bytes list \<Rightarrow> u32 \<Rightarrow> 'x \<Rightarrow> 'g \<Rightarrow> (BlockReqError, u32, 'g) effect" where
  "put_status V parts used x g =
     (case foldl (\<lambda>(r, x, g) bs. case r of Inl e \<Rightarrow> (Inl e, x, g) | Inr _ \<Rightarrow> x_write_all V bs x g)
             (Inr (), x, g) parts of
       (Inl _, x, g) \<Rightarrow> (Inl ReqIo, g)
     | (Inr _, x, g) \<Rightarrow> (Inr used, g))"

text \<open>Filling the scratch buffer for a read request, with the status to report.\<close>

definition req_fill ::
  "'n hostio \<Rightarrow> u64 \<Rightarrow> u64 \<Rightarrow> u64 \<Rightarrow> nat \<Rightarrow> BlockDisk \<Rightarrow> 'n \<Rightarrow>
   ((BlockReqError, u8) result \<times> BlockDisk \<times> 'n) option" where
  "req_fill H cap offset e data_len d n =
     (if e > cap * SECTOR_SIZE then
        (case zero_scratch H data_len d n of
          (Inl _, d, n) \<Rightarrow> Some (Inl ReqIo, d, n)
        | (Inr _, d, n) \<Rightarrow> Some (Inr VIRTIO_BLK_S_IOERR, d, n))
      else do {
        (r, d, n) \<leftarrow> read_at H offset data_len d n;
        (case r of
          Inr _ \<Rightarrow> Some (Inr VIRTIO_BLK_S_OK, d, n)
        | Inl _ \<Rightarrow> (case zero_scratch H data_len d n of (_, d, n) \<Rightarrow> Some (Inr VIRTIO_BLK_S_IOERR, d, n)))
      })"

definition req_in ::
  "('q, 'c, 'r, 'x, 'g) virtq \<Rightarrow> 'n hostio \<Rightarrow> u64 \<Rightarrow> u64 \<Rightarrow> 'x \<Rightarrow> BlockDisk \<Rightarrow> 'g \<Rightarrow> 'n \<Rightarrow>
   ((BlockReqError, u32) result \<times> BlockDisk \<times> 'g \<times> 'n) option" where
  "req_in V H cap sector x d g n =
     (let total = x_avail V x
      in if total = 0 then Some (Inl ReqChain, d, g, n)
         else
           (let data_len = total - 1
            in case req_range sector data_len of
                 None \<Rightarrow> Some (Inl ReqIo, d, g, n)
               | Some (offset, e) \<Rightarrow> do {
                   (r, d, n) \<leftarrow> req_fill H cap offset e data_len d n;
                   (case r of
                     Inl err \<Rightarrow> Some (Inl err, d, g, n)
                   | Inr status \<Rightarrow>
                       (case ab_as_slice data_len (scratch d) of
                         Inl _ \<Rightarrow> Some (Inl ReqIo, d, g, n)
                       | Inr data \<Rightarrow>
                           (case put_status V [data, [status]] (of_nat (data_len + 1)) x g of
                             (r, g) \<Rightarrow> Some (r, d, g, n))))
                 }))"

text \<open>The first half of a write request takes the data into the scratch buffer.\<close>

definition req_take ::
  "('q, 'c, 'r, 'x, 'g) virtq \<Rightarrow> 'n hostio \<Rightarrow> 'r \<Rightarrow> BlockDisk \<Rightarrow> 'g \<Rightarrow> 'n \<Rightarrow>
   (BlockReqError, nat) result \<times> BlockDisk \<times> 'g \<times> 'n" where
  "req_take V H rd d g n =
     (let data_len = r_avail V rd
      in case ab_ensure H data_len (scratch d) n of
           (Inl _, b, n) \<Rightarrow> (Inl ReqIo, d\<lparr>scratch := b\<rparr>, g, n)
         | (Inr _, b, n) \<Rightarrow>
             (case r_read_exact V data_len rd g of
               (Inl _, rd, g) \<Rightarrow> (Inl ReqIo, d\<lparr>scratch := b\<rparr>, g, n)
             | (Inr bs, rd, g) \<Rightarrow> (Inr data_len, d\<lparr>scratch := ab_store bs b\<rparr>, g, n)))"

definition req_out ::
  "('q, 'c, 'r, 'x, 'g) virtq \<Rightarrow> 'n hostio \<Rightarrow> u64 \<Rightarrow> bool \<Rightarrow> u64 \<Rightarrow> u64 \<Rightarrow> 'r \<Rightarrow> 'x \<Rightarrow> BlockDisk \<Rightarrow> 'g \<Rightarrow> 'n \<Rightarrow>
   ((BlockReqError, u32) result \<times> BlockDisk \<times> 'g \<times> 'n) option" where
  "req_out V H cap ro feats sector rd x d g n =
     (case req_take V H rd d g n of
       (Inl err, d, g, n) \<Rightarrow> Some (Inl err, d, g, n)
     | (Inr data_len, d, g, n) \<Rightarrow>
         (case req_range sector data_len of
           None \<Rightarrow> Some (Inl ReqIo, d, g, n)
         | Some (offset, e) \<Rightarrow>
             (let readonly = (ro \<or> feats AND VIRTIO_BLK_F_RO \<noteq> 0);
                  out_of_range = (e > cap * SECTOR_SIZE)
              in do {
                   (io_err, d, n) \<leftarrow>
                     (if \<not> readonly \<and> \<not> out_of_range
                      then do { (r, d, n) \<leftarrow> write_at H offset data_len d n; Some (is_err r, d, n) }
                      else Some (False, d, n));
                   let status = (if readonly \<or> out_of_range \<or> io_err then VIRTIO_BLK_S_IOERR else VIRTIO_BLK_S_OK);
                   (case put_status V [[status]] 1 x g of (r, g) \<Rightarrow> Some (r, d, g, n))
                 })))"

definition req_flush ::
  "('q, 'c, 'r, 'x, 'g) virtq \<Rightarrow> 'n hostio \<Rightarrow> bool \<Rightarrow> u64 \<Rightarrow> 'x \<Rightarrow> BlockDisk \<Rightarrow> 'g \<Rightarrow> 'n \<Rightarrow>
   ((BlockReqError, u32) result \<times> BlockDisk \<times> 'g \<times> 'n) option" where
  "req_flush V H ro feats x d g n = do {
     (status, d, n) \<leftarrow>
       (if feats AND VIRTIO_BLK_F_FLUSH = 0 then Some (VIRTIO_BLK_S_UNSUPP, d, n)
        else if ro then Some (VIRTIO_BLK_S_OK, d, n)
        else do {
          (r, d, n) \<leftarrow> flush_data H d n;
          Some (if is_err r then VIRTIO_BLK_S_IOERR else VIRTIO_BLK_S_OK, d, n)
        });
     (case put_status V [[status]] 1 x g of (r, g) \<Rightarrow> Some (r, d, g, n))
   }"

definition blk_id :: bytes where
  "blk_id = ascii ''kitsune-blk'' @ replicate 9 0"

definition req_get_id ::
  "('q, 'c, 'r, 'x, 'g) virtq \<Rightarrow> 'x \<Rightarrow> 'g \<Rightarrow> (BlockReqError, u32, 'g) effect" where
  "req_get_id V x g =
     (if x_avail V x < 21 then (Inl ReqChain, g)
      else put_status V [blk_id, [VIRTIO_BLK_S_OK]] 21 x g)"

text \<open>Any other request: zeroes and the status, whether or not they can be written.\<close>

definition req_unsupported ::
  "('q, 'c, 'r, 'x, 'g) virtq \<Rightarrow> 'n hostio \<Rightarrow> 'x \<Rightarrow> BlockDisk \<Rightarrow> 'g \<Rightarrow> 'n \<Rightarrow>
   (BlockReqError, u32) result \<times> BlockDisk \<times> 'g \<times> 'n" where
  "req_unsupported V H x d g n =
     (let total = x_avail V x
      in if total = 0 then (Inl ReqUnsupported, d, g, n)
         else if total > 1 then
           (case zero_scratch H (total - 1) d n of
             (Inl _, d, n) \<Rightarrow> (Inl ReqIo, d, g, n)
           | (Inr _, d, n) \<Rightarrow>
               (case ab_as_slice (total - 1) (scratch d) of
                 Inl _ \<Rightarrow> (Inl ReqIo, d, g, n)
               | Inr pad \<Rightarrow>
                   (case x_write_all V pad x g of
                     (_, x, g) \<Rightarrow>
                       (case x_write_all V [VIRTIO_BLK_S_UNSUPP] x g of
                         (_, _, g) \<Rightarrow> (Inr (of_nat total), d, g, n)))))
         else
           (case x_write_all V [VIRTIO_BLK_S_UNSUPP] x g of
             (_, _, g) \<Rightarrow> (Inr (of_nat total), d, g, n)))"

definition handle_request ::
  "('q, 'c, 'r, 'x, 'g) virtq \<Rightarrow> 'n hostio \<Rightarrow> u64 \<Rightarrow> bool \<Rightarrow> u64 \<Rightarrow> 'c \<Rightarrow> BlockDisk \<Rightarrow> 'g \<Rightarrow> 'n \<Rightarrow>
   ((BlockReqError, u32) result \<times> BlockDisk \<times> 'g \<times> 'n) option" where
  "handle_request V H cap ro feats c d g n =
     (case reader_new V c g of
       Inl _ \<Rightarrow> Some (Inl ReqChain, d, g, n)
     | Inr rd \<Rightarrow>
         (case writer_new V c g of
           Inl _ \<Rightarrow> Some (Inl ReqChain, d, g, n)
         | Inr x \<Rightarrow>
             (case r_read_exact V HDR_LEN rd g of
               (Inl _, rd, g) \<Rightarrow> Some (Inl ReqIo, d, g, n)
             | (Inr bs, rd, g) \<Rightarrow>
                 (let hdr = hdr_of bs
                  in if rh_type hdr = VIRTIO_BLK_T_IN then req_in V H cap (rh_sector hdr) x d g n
                     else if rh_type hdr = VIRTIO_BLK_T_OUT then
                       req_out V H cap ro feats (rh_sector hdr) rd x d g n
                     else if rh_type hdr = VIRTIO_BLK_T_FLUSH then req_flush V H ro feats x d g n
                     else if rh_type hdr = VIRTIO_BLK_T_GET_ID then
                       (case req_get_id V x g of (r, g) \<Rightarrow> Some (r, d, g, n))
                     else Some (req_unsupported V H x d g n)))))"

section \<open>The queue\<close>

text \<open>
  The transport is unlocked while a request is handled: \<open>env\<close> is what the virtual CPUs do to
  it meanwhile. \<^verbatim>\<open>unwrap_or(1)\<close> is the length reported for a request that failed.
\<close>

partial_function (option) queue_loop ::
  "('q, 'c, 'r, 'x, 'g) virtq \<Rightarrow> 'n hostio \<Rightarrow> ('q BlockTransport \<Rightarrow> 'g \<Rightarrow> 'q BlockTransport \<times> 'g) \<Rightarrow>
   bool \<Rightarrow> 'q BlockTransport \<Rightarrow> BlockDisk \<Rightarrow> 'g \<Rightarrow> 'n \<Rightarrow>
   ((error, bool) result \<times> 'q BlockTransport \<times> BlockDisk \<times> 'g \<times> 'n) option" where
  "queue_loop V H env used t d g n =
     (if \<not> queue_is_ready V (bt_mmio t) QUEUE_REQUEST then Some (Inr used, t, d, g, n)
      else case mmio_pop V QUEUE_REQUEST (bt_mmio t) g of
        (None, m, g) \<Rightarrow> Some (Inr used, t\<lparr>bt_mmio := m\<rparr>, d, g, n)
      | (Some c, m, g) \<Rightarrow> do {
          (r, d, g, n) \<leftarrow> handle_request V H (capacity_sectors t) (bt_readonly t) (driver_features m) c d g n;
          let written = (case r of Inl _ \<Rightarrow> 1 | Inr k \<Rightarrow> k);
          let (t, g) = env (t\<lparr>bt_mmio := m\<rparr>) g;
          (case mmio_add_used V Block ''missing request queue'' QUEUE_REQUEST (c_head V c) written (bt_mmio t) g of
            (Inl e, m, g) \<Rightarrow> Some (Inl e, t\<lparr>bt_mmio := m\<rparr>, d, g, n)
          | (Inr _, m, g) \<Rightarrow> queue_loop V H env True (t\<lparr>bt_mmio := m\<rparr>) d g n)
        })"

definition process_queue ::
  "('q, 'c, 'r, 'x, 'g) virtq \<Rightarrow> 'g evfd \<Rightarrow> 'n hostio \<Rightarrow>
   ('q BlockTransport \<Rightarrow> 'g \<Rightarrow> 'q BlockTransport \<times> 'g) \<Rightarrow>
   'q BlockTransport \<Rightarrow> BlockDisk \<Rightarrow> 'g \<Rightarrow> 'n \<Rightarrow>
   ((error, unit) result \<times> 'q BlockTransport \<times> BlockDisk \<times> 'g \<times> 'n) option" where
  "process_queue V E H env t d g n = do {
     (r, t, d, g, n) \<leftarrow> queue_loop V H env False t d g n;
     (case r of
       Inl e \<Rightarrow> Some (Inl e, t, d, g, n)
     | Inr True \<Rightarrow>
         (case signal_used_queue E (bt_mmio t) g of
           (r, m, g) \<Rightarrow> Some (r, t\<lparr>bt_mmio := m\<rparr>, d, g, n))
     | Inr False \<Rightarrow> Some (Inr (), t, d, g, n))
   }"

text \<open>A turn of \<^verbatim>\<open>worker_loop\<close>: \<open>Some\<close> error ends the thread.\<close>

definition blk_worker_turn ::
  "('q, 'c, 'r, 'x, 'g) virtq \<Rightarrow> 'g evfd \<Rightarrow> 'n hostio \<Rightarrow>
   ('q BlockTransport \<Rightarrow> 'g \<Rightarrow> 'q BlockTransport \<times> 'g) \<Rightarrow>
   (EventFd \<times> u16 \<Rightarrow> 'n \<Rightarrow> (int, u16, 'n) effect) \<Rightarrow> EventFd \<Rightarrow>
   'q BlockTransport \<Rightarrow> BlockDisk \<Rightarrow> 'g \<Rightarrow> 'n \<Rightarrow>
   (error option \<times> 'q BlockTransport \<times> BlockDisk \<times> 'g \<times> 'n) option" where
  "blk_worker_turn V E H env poll kick t d g n =
     (case poll (kick, POLLIN) n of
       (Inl e, n) \<Rightarrow> Some (if e = EINTR then None else Some (Block (MsgIo ''poll: '' (Os e))), t, d, g, n)
     | (Inr revents, n) \<Rightarrow>
         if revents = 0 then Some (None, t, d, g, n)
         else do {
           (r, t, d, g, n) \<leftarrow> process_queue V E H env t d (snd (ev_read E kick g)) n;
           Some (None, t, d, g, n)
         })"

end
