(* ===== verification/BlkDiskProps.thy ===== *)
theory BlkDiskProps
  imports BlkDisk
begin

text \<open>
  The three ways to the disk image are one. The image is its contents; every operation of
  \<^verbatim>\<open>BlockDisk\<close> is shown to return, and to be the same operation on the contents whether it
  goes through the ring, the direct descriptor or plain system calls.
\<close>

lemma loop_returns3:
  assumes "wf R" and "I (a, b, c)"
    and turn: "\<And>a b c. I (a, b, c) \<Longrightarrow> (\<exists>y. f a b c = Some y \<and> Q y) \<or>
      (\<exists>a' b' c'. f a b c = f a' b' c' \<and> I (a', b', c') \<and> ((a', b', c'), (a, b, c)) \<in> R)"
  shows "\<exists>y. f a b c = Some y \<and> Q y"
proof -
  let ?f = "\<lambda>(a, b, c). f a b c"
  have "\<exists>y. ?f (a, b, c) = Some y \<and> Q y"
  proof (rule loop_returns [of R I, OF assms(1,2)])
    fix s assume "I s"
    then show "(\<exists>y. ?f s = Some y \<and> Q y) \<or> (\<exists>s'. ?f s = ?f s' \<and> I s' \<and> (s', s) \<in> R)"
      using turn by (cases s) fastforce
  qed
  then show ?thesis by simp
qed

section \<open>Images\<close>

definition patch :: "nat \<Rightarrow> bytes \<Rightarrow> bytes \<Rightarrow> bytes" where
  "patch off bs c = take off c @ bs @ drop (off + length bs) c"

definition part :: "nat \<Rightarrow> nat \<Rightarrow> bytes \<Rightarrow> bytes" where
  "part off len c = take len (drop off c)"

text \<open>What a failed write may leave behind: anything inside its range, nothing outside.\<close>

definition scribble :: "nat \<Rightarrow> nat \<Rightarrow> bytes \<Rightarrow> bytes \<Rightarrow> bool" where
  "scribble off len c c' \<longleftrightarrow>
     length c' = length c \<and> take off c' = take off c \<and> drop (off + len) c' = drop (off + len) c"

lemma length_patch [simp]: "off + length bs \<le> length c \<Longrightarrow> length (patch off bs c) = length c"
  by (simp add: patch_def)

lemma scribble_refl [simp]: "scribble off len c c"
  by (simp add: scribble_def)

lemma scribble_trans: "scribble off len c c' \<Longrightarrow> scribble off len c' c'' \<Longrightarrow> scribble off len c c''"
  by (simp add: scribble_def)

lemma scribble_sub:
  assumes "scribble (off + k) l c c'" and "k + l \<le> len"
  shows "scribble off len c c'"
proof -
  from assms(1) have "take off (take (off + k) c') = take off (take (off + k) c)"
    and "drop (len - k - l) (drop (off + k + l) c') = drop (len - k - l) (drop (off + k + l) c)"
    by (simp_all add: scribble_def)
  moreover have "len - k - l + (off + k + l) = off + len" using assms(2) by simp
  ultimately show ?thesis using assms by (simp add: scribble_def add.commute)
qed

lemma patch_scribble: "off + length bs \<le> length c \<Longrightarrow> scribble off (length bs) c (patch off bs c)"
  by (simp add: patch_def scribble_def)

lemma patch_Nil [simp]: "patch off [] c = c"
  by (simp add: patch_def)

lemma patch_patch:
  "off + length as + length bs \<le> length c \<Longrightarrow>
   patch (off + length as) bs (patch off as c) = patch off (as @ bs) c"
  by (simp add: patch_def add.commute add.left_commute)

lemma patch_scribbled: "scribble off (length bs) c c' \<Longrightarrow> patch off bs c' = patch off bs c"
  by (simp add: patch_def scribble_def)

lemma part_patch: "off + length bs \<le> length c \<Longrightarrow> part off (length bs) (patch off bs c) = bs"
  by (simp add: part_def patch_def)

lemma length_part: "off + len \<le> length c \<Longrightarrow> length (part off len c) = len"
  by (simp add: part_def)

section \<open>What is assumed of the host\<close>

text \<open>
  \<open>fds\<close> are the descriptors of the image and \<open>img\<close> its contents. A read returns bytes of the
  image and a write stores a first part of its data; an interrupted call (\<^verbatim>\<open>EINTR\<close>) is
  repeated finitely often, as \<open>\<mu>\<close> decreases. The allocator grows a block to the size asked for.
\<close>

definition file_law :: "'n hostio \<Rightarrow> int set \<Rightarrow> ('n \<Rightarrow> bytes) \<Rightarrow> ('n \<Rightarrow> nat) \<Rightarrow> bool" where
  "file_law H fds img \<mu> \<longleftrightarrow>
     (\<forall>fd k off n r n'. fd \<in> fds \<longrightarrow> h_pread H fd k off n = (r, n') \<longrightarrow>
        img n' = img n \<and> (r = Inl EINTR \<longrightarrow> \<mu> n' < \<mu> n) \<and>
        (\<forall>bs. r = Inr bs \<longrightarrow> length bs \<le> k \<and> bs = part (unat off) (length bs) (img n))) \<and>
     (\<forall>fd bs off n r n'. fd \<in> fds \<longrightarrow> unat off + length bs \<le> length (img n) \<longrightarrow>
        h_pwrite H fd bs off n = (r, n') \<longrightarrow>
        (case r of
          Inl e \<Rightarrow> scribble (unat off) (length bs) (img n) (img n') \<and> (e = EINTR \<longrightarrow> \<mu> n' < \<mu> n)
        | Inr k \<Rightarrow> k \<le> length bs \<and> img n' = patch (unat off) (take k bs) (img n))) \<and>
     (\<forall>fd n. img (snd (h_fdatasync H fd n)) = img n) \<and>
     (\<forall>mem k n r n'. h_realloc H mem k n = (r, n') \<longrightarrow> img n' = img n \<and> (\<forall>mem'. r = Some mem' \<longrightarrow> length mem' = k))"

text \<open>
  A ring without requests is idle. It takes one request at a time, which it may refuse;
  otherwise submitting it and waiting for one completion succeeds, and the completion is the
  one of that request, with the effect of the corresponding system call.
\<close>

fun sqe_fd :: "Sqe \<Rightarrow> int" where
  "sqe_fd (SqeRead fd _ _ _) = fd"
| "sqe_fd (SqeWrite fd _ _ _) = fd"
| "sqe_fd (SqeFdatasync fd _) = fd"

fun completes :: "Sqe \<Rightarrow> bytes \<Rightarrow> Cqe \<Rightarrow> bytes \<Rightarrow> bool" where
  "completes (SqeRead fd len off user) c q c' \<longleftrightarrow>
     cq_user_data q = user \<and> c' = c \<and>
     (if cq_result q < 0 then length (cq_data q) \<le> unat len
      else nat (cq_result q) \<le> unat len \<and> length (cq_data q) = nat (cq_result q) \<and>
           cq_data q = part (unat off) (nat (cq_result q)) c)"
| "completes (SqeWrite fd bs off user) c q c' \<longleftrightarrow>
     cq_user_data q = user \<and>
     (unat off + length bs \<le> length c \<longrightarrow>
       (if cq_result q < 0 then scribble (unat off) (length bs) c c'
        else nat (cq_result q) \<le> length bs \<and> c' = patch (unat off) (take (nat (cq_result q)) bs) c))"
| "completes (SqeFdatasync fd user) c q c' \<longleftrightarrow> cq_user_data q = user \<and> c' = c"

definition ring_law :: "'n hostio \<Rightarrow> int set \<Rightarrow> ('n \<Rightarrow> bytes) \<Rightarrow> (int \<Rightarrow> 'n \<Rightarrow> bool) \<Rightarrow> bool" where
  "ring_law H fds img idle \<longleftrightarrow>
     (\<forall>rg entry n. sqe_fd entry \<in> fds \<longrightarrow> idle rg n \<longrightarrow>
        (case u_push H rg entry n of
          (Inl _, n1) \<Rightarrow> img n1 = img n \<and> idle rg n1
        | (Inr _, n1) \<Rightarrow>
            (\<exists>n2 q n3. u_submit_and_wait H rg 1 n1 = (Inr (), n2) \<and> u_next H rg n2 = (Some q, n3) \<and>
               idle rg n3 \<and> completes entry (img n) q (img n3)))) \<and>
     (\<forall>rg n. idle rg n \<longrightarrow>
        (\<exists>n'. u_next H rg (snd (u_submit H rg n)) = (None, n') \<and> img (u_drop H rg n') = img n)) \<and>
     (\<forall>rg mem k n. idle rg n \<longrightarrow> idle rg (snd (h_realloc H mem k n)))"

section \<open>System calls\<close>

lemma unat_offset:
  "unat off + len < 2 ^ 64 \<Longrightarrow> k \<le> len \<Longrightarrow> unat (off + of_nat k) = unat off + k" for off :: u64
  by (simp add: unat_word_ariths unat_of_nat)

lemma to_off_tD: "to_off_t x = Inr y \<Longrightarrow> y = x"
  by (simp add: to_off_t_def split: if_splits)

text \<open>
  The state of a transfer: how much is done, and for a read the buffer; its front is the
  front of the image. \<open>W\<close> is what is kept of the world.
\<close>

definition reading :: "nat \<Rightarrow> nat \<Rightarrow> bytes \<Rightarrow> ('n \<Rightarrow> bool) \<Rightarrow> nat \<times> bytes \<times> 'n \<Rightarrow> bool" where
  "reading off len c W = (\<lambda>(done, buf, n).
     length buf = len \<and> done \<le> len \<and> take done buf = part off done c \<and> W n)"

definition have_read ::
  "nat \<Rightarrow> nat \<Rightarrow> bytes \<Rightarrow> ('n \<Rightarrow> bool) \<Rightarrow> (io_error, unit) result \<times> bytes \<times> 'n \<Rightarrow> bool" where
  "have_read off len c W = (\<lambda>(r, buf, n). length buf = len \<and> W n \<and> (r = Inr () \<longrightarrow> buf = part off len c))"

definition less_left :: "nat \<Rightarrow> ('n \<Rightarrow> nat) \<Rightarrow> ((nat \<times> 'b \<times> 'n) \<times> (nat \<times> 'b \<times> 'n)) set" where
  "less_left len \<mu> = inv_image (less_than <*lex*> less_than) (\<lambda>(done, _, n). (len - done, \<mu> n))"

lemma wf_less_left: "wf (less_left len \<mu>)"
  by (simp add: less_left_def wf_lex_prod)

lemma less_left_iff:
  "((d', b', n'), (d, b, n)) \<in> less_left len \<mu> \<longleftrightarrow> len - d' < len - d \<or> len - d' = len - d \<and> \<mu> n' < \<mu> n"
  by (auto simp: less_left_def)

lemma reading_extend:
  assumes "reading off len c W (done, buf, n)" and "bs = part (off + done) (length bs) c"
    and "length bs \<le> len - done" and "W n'"
  shows "reading off len c W (done + length bs, take done buf @ bs @ drop (done + length bs) buf, n')"
proof -
  define a where "a = take done buf"
  have buf: "length buf = len" "done \<le> len" "a = part off done c"
    using assms(1) by (simp_all add: reading_def a_def)
  have len: "length a = done" using buf(1,2) unfolding a_def by simp
  have "a @ bs = part off done c @ part (off + done) (length bs) c" using buf(3) assms(2) by simp
  also have "\<dots> = part off (done + length bs) c" by (simp add: part_def take_add add.commute)
  finally have "a @ bs = part off (done + length bs) c" .
  with len buf(1,2) assms(3,4) show ?thesis
    unfolding reading_def a_def [symmetric] by simp
qed

lemma pread_turn:
  assumes law: "file_law H fds img \<mu>" and fd: "fd \<in> fds" and room: "unat off + len < 2 ^ 64"
    and inv: "reading (unat off) len c (\<lambda>n. img n = c) (done, buf, n)"
  shows "(\<exists>y. pread_all H fd off done buf n = Some y \<and> have_read (unat off) len c (\<lambda>n. img n = c) y) \<or>
    (\<exists>d' b' n'. pread_all H fd off done buf n = pread_all H fd off d' b' n' \<and>
       reading (unat off) len c (\<lambda>n. img n = c) (d', b', n') \<and> ((d', b', n'), (done, buf, n)) \<in> less_left len \<mu>)"
proof (cases "done < length buf \<and> (\<exists>x. to_off_t (off + of_nat done) = Inr x)")
  case False
  with inv show ?thesis
    by (subst (1 2) pread_all.simps) (cases "to_off_t (off + of_nat done)"; auto simp: reading_def have_read_def)
next
  case True
  then obtain x where lt: "done < length buf" and x: "to_off_t (off + of_nat done) = Inr x" by blast
  have ux: "unat x = unat off + done"
    using to_off_tD [OF x] inv room unat_offset [of off len "done"] by (simp add: reading_def)
  obtain r n1 where c: "h_pread H fd (length buf - done) x n = (r, n1)" by force
  have l: "img n1 = img n" "r = Inl EINTR \<Longrightarrow> \<mu> n1 < \<mu> n"
    "\<And>bs. r = Inr bs \<Longrightarrow> length bs \<le> length buf - done \<and> bs = part (unat off + done) (length bs) (img n)"
    using law fd c ux unfolding file_law_def by metis+
  show ?thesis
  proof (cases r)
    case (Inl e)
    with lt x c l inv show ?thesis
      by (subst (1 2) pread_all.simps) (auto simp: reading_def have_read_def less_left_iff)
  next
    case (Inr bs)
    have b: "length buf = len" "img n = c" using inv by (simp_all add: reading_def)
    have "reading (unat off) len c (\<lambda>n. img n = c) (done + length bs, take done buf @ bs @ drop (done + length bs) buf, n1)"
      using l(1) l(3) [OF Inr] b by (intro reading_extend [OF inv]) simp_all
    moreover have "bs \<noteq> [] \<Longrightarrow> len - (done + length bs) < len - done"
      using lt inv by (cases bs) (auto simp: reading_def)
    ultimately show ?thesis using Inr lt x c l(1) b
      by (subst (1 2) pread_all.simps) (auto simp: have_read_def less_left_iff)
  qed
qed

lemma pread_all_spec:
  assumes "file_law H fds img \<mu>" and "fd \<in> fds" and "unat off + length buf < 2 ^ 64"
  shows "\<exists>r buf' n'. pread_all H fd off 0 buf n = Some (r, buf', n') \<and> img n' = img n \<and>
    length buf' = length buf \<and> (r = Inr () \<longrightarrow> buf' = part (unat off) (length buf) (img n))"
proof -
  let ?I = "reading (unat off) (length buf) (img n) (\<lambda>m. img m = img n)"
  let ?Q = "have_read (unat off) (length buf) (img n) (\<lambda>m. img m = img n)"
  have "?I (0, buf, n)" by (simp add: reading_def part_def)
  then have "\<exists>y. pread_all H fd off 0 buf n = Some y \<and> ?Q y"
    by (rule loop_returns3 [OF wf_less_left]) (rule pread_turn [OF assms])
  then show ?thesis by (auto simp: have_read_def)
qed

text \<open>A write: the front of the range holds the data, the rest of it may hold anything.\<close>

definition writing :: "nat \<Rightarrow> bytes \<Rightarrow> bytes \<Rightarrow> ('n \<Rightarrow> bytes) \<Rightarrow> ('n \<Rightarrow> bool) \<Rightarrow> nat \<times> unit \<times> 'n \<Rightarrow> bool" where
  "writing off bs c img W = (\<lambda>(done, _, n).
     done \<le> length bs \<and> scribble off (length bs) c (img n) \<and> part off done (img n) = take done bs \<and> W n)"

definition have_written ::
  "nat \<Rightarrow> bytes \<Rightarrow> bytes \<Rightarrow> ('n \<Rightarrow> bytes) \<Rightarrow> ('n \<Rightarrow> bool) \<Rightarrow> (io_error, unit) result \<times> 'n \<Rightarrow> bool" where
  "have_written off bs c img W = (\<lambda>(r, n).
     scribble off (length bs) c (img n) \<and> W n \<and> (r = Inr () \<longrightarrow> img n = patch off bs c))"

lemma scribble_length: "scribble off len c c' \<Longrightarrow> length c' = length c"
  by (simp add: scribble_def)

lemma part_scribble: "scribble (off + k) len c c' \<Longrightarrow> part off k c' = part off k c"
  by (simp add: scribble_def part_def take_drop add.commute)

lemma part_patch_next:
  assumes "part off k c = as" and "length as = k" and "off + k + length bs \<le> length c"
  shows "part off (k + length bs) (patch (off + k) bs c) = as @ bs"
proof -
  have "drop off (take (off + k) c) = as" using assms(1) by (simp add: part_def take_drop add.commute)
  then show ?thesis using assms(2,3) by (simp add: part_def patch_def)
qed

lemma patch_of_part:
  assumes "scribble off (length bs) c c'" and "part off (length bs) c' = bs"
  shows "c' = patch off bs c"
proof -
  have "c' = take off c' @ part off (length bs) c' @ drop (off + length bs) c'"
    by (simp add: part_def) (metis append_take_drop_id drop_drop add.commute)
  with assms show ?thesis by (simp add: patch_def scribble_def)
qed

lemma writing_failed:
  assumes "writing off bs c img W (done, u, n)"
    and "scribble (off + done) (length bs - done) (img n) (img n')" and "W n'"
  shows "writing off bs c img W (done, u, n')"
proof -
  from assms(1) have inv: "done \<le> length bs" "scribble off (length bs) c (img n)"
    "part off done (img n) = take done bs" by (simp_all add: writing_def)
  then have "scribble off (length bs) (img n) (img n')" using scribble_sub [OF assms(2)] by simp
  from scribble_trans [OF inv(2) this] show ?thesis
    using inv assms(3) part_scribble [OF assms(2)] by (simp add: writing_def)
qed

lemma writing_extend:
  assumes "writing off bs c img W (done, u, n)" and "k \<le> length bs - done" and "off + length bs \<le> length c"
    and "img n' = patch (off + done) (take k (drop done bs)) (img n)" and "W n'"
  shows "writing off bs c img W (done + k, u, n')"
proof -
  from assms(1) have inv: "done \<le> length bs" "scribble off (length bs) c (img n)"
    "part off done (img n) = take done bs" by (simp_all add: writing_def)
  then have len: "length (img n) = length c" by (simp add: scribble_length)
  have k: "length (take k (drop done bs)) = k" using assms(2) by simp
  define ch where "ch = take k (drop done bs)"
  have room: "off + done + length ch \<le> length (img n)" using inv(1) assms(2,3) len k by (simp add: ch_def)
  have "scribble (off + done) k (img n) (img n')"
    using patch_scribble [OF room] assms(4) k by (simp add: ch_def)
  then have "scribble off (length bs) (img n) (img n')"
    by (rule scribble_sub) (use inv(1) assms(2) in linarith)
  from scribble_trans [OF inv(2) this] have sc: "scribble off (length bs) c (img n')" .
  have "part off (done + length ch) (img n') = take done bs @ ch"
    using part_patch_next [OF inv(3) _ room] inv(1) assms(4) by (simp add: ch_def)
  then have "part off (done + k) (img n') = take (done + k) bs"
    using k by (simp add: ch_def take_add)
  with sc assms(2,5) inv(1) show ?thesis by (simp add: writing_def)
qed

lemma writing_done:
  "writing off bs c img W (done, u, n) \<Longrightarrow> length bs \<le> done \<Longrightarrow> have_written off bs c img W (Inr (), n)"
  by (auto simp: writing_def have_written_def intro: patch_of_part)

lemma writing_stopped: "writing off bs c img W (done, u, n) \<Longrightarrow> have_written off bs c img W (Inl e, n)"
  by (simp add: writing_def have_written_def)

lemma pwrite_turn:
  assumes law: "file_law H fds img \<mu>" and fd: "fd \<in> fds" and room: "unat off + length bs < 2 ^ 64"
    and fits: "unat off + length bs \<le> length c"
    and inv: "writing (unat off) bs c img (\<lambda>_. True) (done, u, n)"
  shows "(\<exists>y. pwrite_all H fd off done bs n = Some y \<and> have_written (unat off) bs c img (\<lambda>_. True) y) \<or>
    (\<exists>d' u' n'. pwrite_all H fd off done bs n = pwrite_all H fd off d' bs n' \<and>
       writing (unat off) bs c img (\<lambda>_. True) (d', u', n') \<and> ((d', u', n'), (done, u, n)) \<in> less_left (length bs) \<mu>)"
proof (cases "done < length bs \<and> (\<exists>x. to_off_t (off + of_nat done) = Inr x)")
  case False
  with inv show ?thesis
    by (subst (1 2) pwrite_all.simps)
      (cases "to_off_t (off + of_nat done)"; auto intro: writing_done writing_stopped simp: not_less)
next
  case True
  then obtain x where lt: "done < length bs" and x: "to_off_t (off + of_nat done) = Inr x" by blast
  have ux: "unat x = unat off + done"
    using to_off_tD [OF x] lt room unat_offset [of off "length bs" "done"] by simp
  obtain r n1 where w: "h_pwrite H fd (drop done bs) x n = (r, n1)" by force
  have "unat x + length (drop done bs) \<le> length (img n)"
    using ux lt fits inv by (auto simp: writing_def dest: scribble_length)
  then have l: "case r of
      Inl e \<Rightarrow> scribble (unat x) (length (drop done bs)) (img n) (img n1) \<and> (e = EINTR \<longrightarrow> \<mu> n1 < \<mu> n)
    | Inr k \<Rightarrow> k \<le> length (drop done bs) \<and> img n1 = patch (unat x) (take k (drop done bs)) (img n)"
    using law fd w unfolding file_law_def by blast
  show ?thesis
  proof (cases r)
    case (Inl e)
    with l ux have "writing (unat off) bs c img (\<lambda>_. True) (done, u, n1)" "e = EINTR \<Longrightarrow> \<mu> n1 < \<mu> n"
      using writing_failed [OF inv, of n1] by simp_all
    with Inl lt x w show ?thesis
      by (subst (1 2) pwrite_all.simps) (auto simp: less_left_iff intro: writing_stopped)
  next
    case (Inr k)
    with l ux have k: "k \<le> length bs - done" and g: "writing (unat off) bs c img (\<lambda>_. True) (done + k, u, n1)"
      using writing_extend [OF inv, of k n1] fits by simp_all
    have "k = 0 \<or> length bs - (done + k) < length bs - done" using lt by auto
    with g Inr lt x w show ?thesis
      by (subst (1 2) pwrite_all.simps) (auto simp: less_left_iff intro: writing_stopped)
  qed
qed

lemma pwrite_all_spec:
  assumes "file_law H fds img \<mu>" and "fd \<in> fds" and "unat off + length bs < 2 ^ 64"
    and "unat off + length bs \<le> length c" and "scribble (unat off) (length bs) c (img n)"
  shows "\<exists>r n'. pwrite_all H fd off 0 bs n = Some (r, n') \<and> scribble (unat off) (length bs) c (img n') \<and>
    (r = Inr () \<longrightarrow> img n' = patch (unat off) bs c)"
proof -
  let ?I = "writing (unat off) bs c img (\<lambda>_. True)"
  have "?I (0, (), n)" using assms(5) by (simp add: writing_def part_def)
  then have "\<exists>y. (\<lambda>d u n. pwrite_all H fd off d bs n) 0 () n = Some y \<and> have_written (unat off) bs c img (\<lambda>_. True) y"
    by (rule loop_returns3 [OF wf_less_left]) (rule pwrite_turn [OF assms(1-4)])
  then show ?thesis by (auto simp: have_written_def)
qed

section \<open>The ring\<close>

fun sqe_user :: "Sqe \<Rightarrow> u64" where
  "sqe_user (SqeRead _ _ _ user) = user"
| "sqe_user (SqeWrite _ _ _ user) = user"
| "sqe_user (SqeFdatasync _ user) = user"

lemma completes_user: "completes entry c q c' \<Longrightarrow> cq_user_data q = sqe_user entry"
  by (cases entry) simp_all

lemma ring_round_spec:
  assumes "ring_law H fds img idle" and "sqe_fd entry \<in> fds" and "idle rg n" and "user = sqe_user entry"
    and "ring_round H what user rg entry n = (r, n')"
  shows "idle rg n'" and "case r of Inl _ \<Rightarrow> img n' = img n | Inr q \<Rightarrow> completes entry (img n) q (img n')"
proof -
  obtain p n1 where p: "u_push H rg entry n = (p, n1)" by force
  with assms(1-3) have l: "case p of Inl _ \<Rightarrow> img n1 = img n \<and> idle rg n1
    | Inr _ \<Rightarrow> (\<exists>n2 q n3. u_submit_and_wait H rg 1 n1 = (Inr (), n2) \<and> u_next H rg n2 = (Some q, n3) \<and>
               idle rg n3 \<and> completes entry (img n) q (img n3))"
    unfolding ring_law_def by (metis (mono_tags, lifting) case_prod_conv)
  show "idle rg n'" and "case r of Inl _ \<Rightarrow> img n' = img n | Inr q \<Rightarrow> completes entry (img n) q (img n')"
    using l p assms(4,5) by (auto simp: ring_round_def completes_user split: sum.splits)
qed

lemma ring_read_turn:
  assumes law: "ring_law H fds img idle" and fd: "fd \<in> fds" and room: "unat off + len < 2 ^ 64"
    and inv: "reading (unat off) len c (\<lambda>n. img n = c \<and> idle rg n) (done, buf, n)"
  shows "(\<exists>y. ring_read H rg fd off done buf n = Some y \<and> have_read (unat off) len c (\<lambda>n. img n = c \<and> idle rg n) y) \<or>
    (\<exists>d' b' n'. ring_read H rg fd off done buf n = ring_read H rg fd off d' b' n' \<and>
       reading (unat off) len c (\<lambda>n. img n = c \<and> idle rg n) (d', b', n') \<and>
       ((d', b', n'), (done, buf, n)) \<in> less_left len (\<lambda>_. 0))"
proof (cases "done < length buf \<and> fits_u32 (length buf - done)")
  case False
  with inv show ?thesis by (subst (1 2) ring_read.simps) (auto simp: reading_def have_read_def)
next
  case True
  let ?e = "SqeRead fd (of_nat (length buf - done)) (off + of_nat done) RING_USER_READ"
  have b: "length buf = len" "img n = c" "idle rg n" using inv by (simp_all add: reading_def)
  have ux: "unat (off + of_nat done :: u64) = unat off + done"
    using True b room unat_offset [of off len "done"] by simp
  have ul: "unat (of_nat (length buf - done) :: u32) = length buf - done"
    using True by (simp add: unat_of_nat fits_u32_def del: of_nat_diff)
  obtain r n1 where q: "ring_round H ''read'' RING_USER_READ rg ?e n = (r, n1)" by force
  have l: "idle rg n1" "case r of Inl _ \<Rightarrow> img n1 = img n | Inr q \<Rightarrow> completes ?e (img n) q (img n1)"
    using ring_round_spec [OF law _ b(3) _ q] fd by simp_all
  show ?thesis
  proof (cases r)
    case (Inl e)
    with True q l b show ?thesis
      by (subst (1 2) ring_read.simps) (auto simp: have_read_def)
  next
    case (Inr z)
    note z = l(2) [unfolded Inr, simplified, unfolded ux ul]
    show ?thesis
    proof (cases "cq_result z \<le> 0")
      case stop: True
      have "length (cq_data z) \<le> len - done" using z b stop True by (auto split: if_splits)
      with stop True q Inr z l(1) b show ?thesis
        by (subst (1 2) ring_read.simps) (auto simp: have_read_def Let_def)
    next
      case False
      with z b have d: "length (cq_data z) = nat (cq_result z)" "cq_data z = part (unat off + done) (length (cq_data z)) c"
        "length (cq_data z) \<le> len - done" "img n1 = c" by auto
      from reading_extend [OF inv d(2,3), of n1] d l(1)
      have "reading (unat off) len c (\<lambda>n. img n = c \<and> idle rg n)
        (done + nat (cq_result z), take done buf @ cq_data z @ drop (done + length (cq_data z)) buf, n1)" by simp
      moreover have "len - (done + nat (cq_result z)) < len - done" using False True b(1) by (simp add: diff_less_mono2)
      ultimately show ?thesis using False True q Inr
        by (subst (1 2) ring_read.simps) (auto simp: Let_def less_left_iff)
    qed
  qed
qed

lemma ring_read_spec:
  assumes "ring_law H fds img idle" and "fd \<in> fds" and "unat off + length buf < 2 ^ 64" and "idle rg n"
  shows "\<exists>r buf' n'. ring_read H rg fd off 0 buf n = Some (r, buf', n') \<and> img n' = img n \<and> idle rg n' \<and>
    length buf' = length buf \<and> (r = Inr () \<longrightarrow> buf' = part (unat off) (length buf) (img n))"
proof -
  let ?W = "\<lambda>m. img m = img n \<and> idle rg m"
  have "reading (unat off) (length buf) (img n) ?W (0, buf, n)" using assms(4) by (simp add: reading_def part_def)
  then have "\<exists>y. ring_read H rg fd off 0 buf n = Some y \<and> have_read (unat off) (length buf) (img n) ?W y"
    by (rule loop_returns3 [OF wf_less_left]) (rule ring_read_turn [OF assms(1-3)])
  then show ?thesis by (auto simp: have_read_def)
qed

lemma ring_write_turn:
  assumes law: "ring_law H fds img idle" and fd: "fd \<in> fds" and room: "unat off + length bs < 2 ^ 64"
    and fits: "unat off + length bs \<le> length c"
    and inv: "writing (unat off) bs c img (idle rg) (done, u, n)"
  shows "(\<exists>y. ring_write H rg fd off done bs n = Some y \<and> have_written (unat off) bs c img (idle rg) y) \<or>
    (\<exists>d' u' n'. ring_write H rg fd off done bs n = ring_write H rg fd off d' bs n' \<and>
       writing (unat off) bs c img (idle rg) (d', u', n') \<and> ((d', u', n'), (done, u, n)) \<in> less_left (length bs) (\<lambda>_. 0))"
proof (cases "done < length bs \<and> fits_u32 (length bs - done)")
  case False
  with inv show ?thesis
    by (subst (1 2) ring_write.simps) (auto intro: writing_done writing_stopped simp: not_less)
next
  case True
  let ?e = "SqeWrite fd (drop done bs) (off + of_nat done) RING_USER_WRITE"
  have ux: "unat (off + of_nat done :: u64) = unat off + done"
    using True room unat_offset [of off "length bs" "done"] by simp
  have idle: "idle rg n" using inv by (simp add: writing_def)
  obtain r n1 where q: "ring_round H ''write'' RING_USER_WRITE rg ?e n = (r, n1)" by force
  have l: "idle rg n1" "case r of Inl _ \<Rightarrow> img n1 = img n | Inr q \<Rightarrow> completes ?e (img n) q (img n1)"
    using ring_round_spec [OF law _ idle _ q] fd by simp_all
  have len: "unat off + done + (length bs - done) \<le> length (img n)"
    using fits True inv by (auto simp: writing_def dest: scribble_length)
  show ?thesis
  proof (cases r)
    case (Inl e)
    with l have "writing (unat off) bs c img (idle rg) (done, u, n1)" using writing_failed [OF inv, of n1] by simp
    with Inl True q show ?thesis
      by (subst (1 2) ring_write.simps) (auto intro: writing_stopped)
  next
    case (Inr z)
    note z = l(2) [unfolded Inr, simplified, unfolded ux]
    show ?thesis
    proof (cases "cq_result z < 0")
      case stop: True
      with z len have "writing (unat off) bs c img (idle rg) (done, u, n1)"
        using writing_failed [OF inv, of n1] l(1) by simp
      with stop True q Inr show ?thesis
        by (subst (1 2) ring_write.simps) (auto intro: writing_stopped)
    next
      case False
      define k where "k = nat (cq_result z)"
      with z len False have "k \<le> length bs - done" "img n1 = patch (unat off + done) (take k (drop done bs)) (img n)"
        by simp_all
      with inv fits l(1) have "writing (unat off) bs c img (idle rg) (done + k, u, n1)"
        by (intro writing_extend) simp_all
      moreover have "k = 0 \<or> length bs - (done + k) < length bs - done" using True by auto
      ultimately show ?thesis using False True q Inr
        by (subst (1 2) ring_write.simps) (auto simp: less_left_iff k_def intro: writing_stopped)
    qed
  qed
qed

lemma ring_write_spec:
  assumes "ring_law H fds img idle" and "fd \<in> fds" and "unat off + length bs < 2 ^ 64"
    and "unat off + length bs \<le> length c" and "scribble (unat off) (length bs) c (img n)" and "idle rg n"
  shows "\<exists>r n'. ring_write H rg fd off 0 bs n = Some (r, n') \<and> idle rg n' \<and>
    scribble (unat off) (length bs) c (img n') \<and> (r = Inr () \<longrightarrow> img n' = patch (unat off) bs c)"
proof -
  have "writing (unat off) bs c img (idle rg) (0, (), n)" using assms(5,6) by (simp add: writing_def part_def)
  then have "\<exists>y. (\<lambda>d u n. ring_write H rg fd off d bs n) 0 () n = Some y \<and> have_written (unat off) bs c img (idle rg) y"
    by (rule loop_returns3 [OF wf_less_left]) (rule ring_write_turn [OF assms(1-4)])
  then show ?thesis by (auto simp: have_written_def)
qed

lemma disable_ring_spec:
  assumes "ring_law H fds img idle" and "bd_ring d = Some rg" and "idle rg n"
  shows "\<exists>n'. disable_ring H d n = Some (d\<lparr>bd_ring := None\<rparr>, n') \<and> img n' = img n"
proof -
  obtain n' where "u_next H rg (snd (u_submit H rg n)) = (None, n')" "img (u_drop H rg n') = img n"
    using assms(1,3) unfolding ring_law_def by blast
  then show ?thesis
    using assms(2) by (simp add: disable_ring_def drain_ring_def drain_completions.simps)
qed

lemma ring_fsync_spec:
  assumes "ring_law H fds img idle" and "fd \<in> fds" and "idle rg n" and "ring_fsync H rg fd n = (r, n')"
  shows "idle rg n'" and "img n' = img n"
proof -
  obtain q n1 where q: "ring_round H ''fsync'' RING_USER_FSYNC rg (SqeFdatasync fd RING_USER_FSYNC) n = (q, n1)" by force
  have "idle rg n1" "case q of Inl _ \<Rightarrow> img n1 = img n | Inr z \<Rightarrow> completes (SqeFdatasync fd RING_USER_FSYNC) (img n) z (img n1)"
    using ring_round_spec [OF assms(1) _ assms(3) _ q] assms(2) by simp_all
  with q assms(4) show "idle rg n'" "img n' = img n"
    by (auto simp: ring_fsync_def split: sum.splits if_splits)
qed

section \<open>The disk\<close>

text \<open>
  The files of a disk are descriptors of the image, its ring is idle, and its scratch buffer
  has the capacity it records.
\<close>

definition disk_wf :: "int set \<Rightarrow> (int \<Rightarrow> 'n \<Rightarrow> bool) \<Rightarrow> BlockDisk \<Rightarrow> 'n \<Rightarrow> bool" where
  "disk_wf fds idle d n \<longleftrightarrow>
     buffered_file d \<in> fds \<and> (\<forall>f. direct_file d = Some f \<longrightarrow> f \<in> fds) \<and>
     (\<forall>rg. bd_ring d = Some rg \<longrightarrow> idle rg n) \<and> length (ab_mem (scratch d)) = ab_cap (scratch d)"

definition disk_law ::
  "'n hostio \<Rightarrow> int set \<Rightarrow> ('n \<Rightarrow> bytes) \<Rightarrow> ('n \<Rightarrow> nat) \<Rightarrow> (int \<Rightarrow> 'n \<Rightarrow> bool) \<Rightarrow> bool" where
  "disk_law H fds img \<mu> idle \<longleftrightarrow> file_law H fds img \<mu> \<and> ring_law H fds img idle"

lemma disk_lawD:
  assumes "disk_law H fds img \<mu> idle"
  shows "file_law H fds img \<mu>" and "ring_law H fds img idle"
  using assms by (simp_all add: disk_law_def)

lemma io_fd_in: "disk_wf fds idle d n \<Longrightarrow> io_fd prefer d \<in> fds"
  by (simp add: disk_wf_def io_fd_def split: option.splits)

lemma ab_ensure_spec:
  assumes law: "disk_law H fds img \<mu> idle" and wf: "disk_wf fds idle d n"
    and run: "ab_ensure H need (scratch d) n = (r, b, n')"
  shows "img n' = img n" and "disk_wf fds idle (d\<lparr>scratch := b\<rparr>) n'" and "r = Inr () \<Longrightarrow> need \<le> ab_cap b"
proof -
  have keep: "idle rg m \<Longrightarrow> idle rg (snd (h_realloc H mem k m))" for rg mem k m
    using disk_lawD(2) [OF law] unfolding ring_law_def by blast
  have re: "h_realloc H mem k m = (x, m') \<Longrightarrow> img m' = img m \<and> (\<forall>mem'. x = Some mem' \<longrightarrow> length mem' = k)"
    for mem k m x m' using disk_lawD(1) [OF law] unfolding file_law_def by blast
  have up: "need \<le> next_multiple_of need IO_ALIGN"
  proof -
    have "(need + 4095) div 4096 * 4096 + (need + 4095) mod 4096 = need + 4095" by (rule div_mult_mod_eq)
    moreover have "(need + 4095) mod 4096 < 4096" by simp
    ultimately show ?thesis unfolding next_multiple_of_def IO_ALIGN_def by linarith
  qed
  obtain x m where x: "h_realloc H (ab_mem (scratch d)) (next_multiple_of need IO_ALIGN) n = (x, m)" by force
  have x': "img m = img n" "\<forall>mem'. x = Some mem' \<longrightarrow> length mem' = next_multiple_of need IO_ALIGN"
    "\<forall>rg. bd_ring d = Some rg \<longrightarrow> idle rg m"
    using re [OF x] keep [of _ n "ab_mem (scratch d)"] x wf by (auto simp: disk_wf_def) (metis snd_conv)
  have "b = scratch d \<and> (n' = n \<or> n' = m) \<and> (r = Inr () \<longrightarrow> need \<le> ab_cap b) \<or>
      (\<exists>mem. x = Some mem \<and> b = \<lparr>ab_mem = mem, ab_cap = next_multiple_of need IO_ALIGN\<rparr> \<and> n' = m)"
    using run x by (auto simp: ab_ensure_def Let_def split: if_splits option.splits)
  then show "img n' = img n" and "disk_wf fds idle (d\<lparr>scratch := b\<rparr>) n'" and "r = Inr () \<Longrightarrow> need \<le> ab_cap b"
    using x' wf up by (auto simp: disk_wf_def)
qed

lemma zero_scratch_spec:
  assumes "disk_law H fds img \<mu> idle" and "disk_wf fds idle d n" and "zero_scratch H len d n = (r, d', n')"
  shows "img n' = img n" and "disk_wf fds idle d' n'"
    and "r = Inr () \<Longrightarrow> len \<le> ab_cap (scratch d') \<and> take len (ab_mem (scratch d')) = replicate len 0"
proof -
  obtain q b m where e: "ab_ensure H len (scratch d) n = (q, b, m)" by (metis prod_cases3)
  have s: "img m = img n" "disk_wf fds idle (d\<lparr>scratch := b\<rparr>) m" "q = Inr () \<Longrightarrow> len \<le> ab_cap b"
    using ab_ensure_spec [OF assms(1,2) e] by simp_all
  show "img n' = img n" and "disk_wf fds idle d' n'"
    and "r = Inr () \<Longrightarrow> len \<le> ab_cap (scratch d') \<and> take len (ab_mem (scratch d')) = replicate len 0"
    using assms(3) e s
    by (auto simp: zero_scratch_def ab_store_def disk_wf_def split: sum.splits)
qed

lemma read_at_fd_spec:
  assumes law: "disk_law H fds img \<mu> idle" and wf: "disk_wf fds idle d n" and fd: "fd \<in> fds"
    and room: "unat off + length buf < 2 ^ 64"
  shows "\<exists>r buf' d' n'. read_at_fd H fd off buf d n = Some (r, buf', d', n') \<and> img n' = img n \<and>
    length buf' = length buf \<and> (r = Inr () \<longrightarrow> buf' = part (unat off) (length buf) (img n)) \<and>
    (d' = d \<or> d' = d\<lparr>bd_ring := None\<rparr>) \<and> disk_wf fds idle d' n'"
proof (cases "bd_ring d")
  case None
  obtain r buf' n' where "pread_all H fd off 0 buf n = Some (r, buf', n')" "img n' = img n"
    "length buf' = length buf" "r = Inr () \<longrightarrow> buf' = part (unat off) (length buf) (img n)"
    using pread_all_spec [OF disk_lawD(1) [OF law] fd room, of n] by blast
  with None wf show ?thesis by (auto simp: read_at_fd_def disk_wf_def)
next
  case (Some rg)
  with wf have idle: "idle rg n" by (simp add: disk_wf_def)
  obtain r buf1 n1 where rr: "ring_read H rg fd off 0 buf n = Some (r, buf1, n1)" "img n1 = img n" "idle rg n1"
    "length buf1 = length buf" "r = Inr () \<longrightarrow> buf1 = part (unat off) (length buf) (img n)"
    using ring_read_spec [OF disk_lawD(2) [OF law] fd room idle] by blast
  show ?thesis
  proof (cases r)
    case (Inr x)
    with Some rr wf show ?thesis by (auto simp: read_at_fd_def disk_wf_def)
  next
    case (Inl e)
    obtain n2 where dr: "disable_ring H d n1 = Some (d\<lparr>bd_ring := None\<rparr>, n2)" "img n2 = img n1"
      using disable_ring_spec [OF disk_lawD(2) [OF law] Some rr(3)] by blast
    have "unat off + length buf1 < 2 ^ 64" using room rr(4) by simp
    then obtain r' buf' n' where "pread_all H fd off 0 buf1 n2 = Some (r', buf', n')" "img n' = img n2"
      "length buf' = length buf1" "r' = Inr () \<longrightarrow> buf' = part (unat off) (length buf1) (img n2)"
      using pread_all_spec [OF disk_lawD(1) [OF law] fd, of off buf1 n2] by blast
    with Some Inl rr dr wf show ?thesis by (simp add: read_at_fd_def disk_wf_def)
  qed
qed

lemma write_at_fd_spec:
  assumes law: "disk_law H fds img \<mu> idle" and wf: "disk_wf fds idle d n" and fd: "fd \<in> fds"
    and room: "unat off + length bs < 2 ^ 64" and fits: "unat off + length bs \<le> length c"
    and start: "scribble (unat off) (length bs) c (img n)"
  shows "\<exists>r d' n'. write_at_fd H fd off bs d n = Some (r, d', n') \<and>
    scribble (unat off) (length bs) c (img n') \<and> (r = Inr () \<longrightarrow> img n' = patch (unat off) bs c) \<and>
    (d' = d \<or> d' = d\<lparr>bd_ring := None\<rparr>) \<and> disk_wf fds idle d' n'"
proof (cases "bd_ring d")
  case None
  obtain r n' where "pwrite_all H fd off 0 bs n = Some (r, n')" "scribble (unat off) (length bs) c (img n')"
    "r = Inr () \<longrightarrow> img n' = patch (unat off) bs c"
    using pwrite_all_spec [OF disk_lawD(1) [OF law] fd room fits start] by blast
  with None wf show ?thesis by (auto simp: write_at_fd_def disk_wf_def)
next
  case (Some rg)
  with wf have idle: "idle rg n" by (simp add: disk_wf_def)
  obtain r n1 where rr: "ring_write H rg fd off 0 bs n = Some (r, n1)" "idle rg n1"
    "scribble (unat off) (length bs) c (img n1)" "r = Inr () \<longrightarrow> img n1 = patch (unat off) bs c"
    using ring_write_spec [OF disk_lawD(2) [OF law] fd room fits start idle] by blast
  show ?thesis
  proof (cases r)
    case (Inr x)
    with Some rr wf show ?thesis by (auto simp: write_at_fd_def disk_wf_def)
  next
    case (Inl e)
    obtain n2 where dr: "disable_ring H d n1 = Some (d\<lparr>bd_ring := None\<rparr>, n2)" "img n2 = img n1"
      using disable_ring_spec [OF disk_lawD(2) [OF law] Some rr(2)] by blast
    obtain r' n' where "pwrite_all H fd off 0 bs n2 = Some (r', n')" "scribble (unat off) (length bs) c (img n')"
      "r' = Inr () \<longrightarrow> img n' = patch (unat off) bs c"
      using pwrite_all_spec [OF disk_lawD(1) [OF law] fd room fits, of n2] rr(3) dr(2) by auto
    with Some Inl rr dr wf show ?thesis by (simp add: write_at_fd_def disk_wf_def)
  qed
qed

text \<open>
  \<open>same_files\<close>: a disk may lose its ring and stop using the direct descriptor, but keeps its
  files.
\<close>

definition same_files :: "BlockDisk \<Rightarrow> BlockDisk \<Rightarrow> bool" where
  "same_files d d' \<longleftrightarrow>
     direct_file d' = direct_file d \<and> buffered_file d' = buffered_file d \<and> direct_align d' = direct_align d \<and>
     (use_direct d' \<longrightarrow> use_direct d) \<and> (bd_ring d' = bd_ring d \<or> bd_ring d' = None)"

lemma read_turn_spec:
  assumes law: "disk_law H fds img \<mu> idle" and wf: "disk_wf fds idle d n"
    and room: "unat off + len < 2 ^ 64" and cap: "len \<le> ab_cap (scratch d)"
  shows "\<exists>r buf d1 n1. read_at_fd H (io_fd prefer d) off (take len (ab_mem (scratch d))) d n = Some (r, buf, d1, n1) \<and>
    img n1 = img n \<and> same_files d d1 \<and> use_direct d1 = use_direct d \<and> scratch d1 = scratch d \<and>
    (let d2 = d1\<lparr>scratch := ab_store buf (scratch d1)\<rparr> in
      disk_wf fds idle d2 n1 \<and> ab_cap (scratch d2) = ab_cap (scratch d) \<and>
      (r = Inr () \<longrightarrow> take len (ab_mem (scratch d2)) = part (unat off) len (img n)))"
proof -
  have len: "length (take len (ab_mem (scratch d))) = len" using wf cap by (simp add: disk_wf_def)
  obtain r buf d1 n1 where "read_at_fd H (io_fd prefer d) off (take len (ab_mem (scratch d))) d n = Some (r, buf, d1, n1)"
    "img n1 = img n" "length buf = len" "r = Inr () \<longrightarrow> buf = part (unat off) len (img n)"
    "d1 = d \<or> d1 = d\<lparr>bd_ring := None\<rparr>" "disk_wf fds idle d1 n1"
    using read_at_fd_spec [OF law wf io_fd_in [OF wf], of off "take len (ab_mem (scratch d))" "prefer"] len room by auto
  with cap wf show ?thesis by (auto simp: same_files_def ab_store_def disk_wf_def Let_def)
qed

lemma read_loop_spec:
  assumes law: "disk_law H fds img \<mu> idle" and wf: "disk_wf fds idle d n"
    and room: "unat off + len < 2 ^ 64" and cap: "len \<le> ab_cap (scratch d)"
  shows "\<exists>r d' n'. read_loop H prefer off len d n = Some (r, d', n') \<and> img n' = img n \<and>
    disk_wf fds idle d' n' \<and> same_files d d' \<and>
    (r = Inr () \<longrightarrow> len \<le> ab_cap (scratch d') \<and> take len (ab_mem (scratch d')) = part (unat off) len (img n))"
proof -
  have once: "\<exists>r d' n'. read_loop H False off len d n = Some (r, d', n') \<and> img n' = img n \<and>
      disk_wf fds idle d' n' \<and> same_files d d' \<and>
      (r = Inr () \<longrightarrow> len \<le> ab_cap (scratch d') \<and> take len (ab_mem (scratch d')) = part (unat off) len (img n))"
    if "disk_wf fds idle d n" "len \<le> ab_cap (scratch d)" for d n
    using read_turn_spec [OF law that(1) room that(2), of False] that
    by (subst read_loop.simps) (auto simp: Let_def same_files_def split: sum.splits)
  obtain r buf d1 n1 where t: "read_at_fd H (io_fd prefer d) off (take len (ab_mem (scratch d))) d n = Some (r, buf, d1, n1)"
    "img n1 = img n" "same_files d d1"
    and t': "disk_wf fds idle (d1\<lparr>scratch := ab_store buf (scratch d1)\<rparr>) n1"
    "ab_cap (ab_store buf (scratch d1)) = ab_cap (scratch d)"
    "r = Inr () \<Longrightarrow> take len (ab_mem (ab_store buf (scratch d1))) = part (unat off) len (img n)"
    using read_turn_spec [OF law wf room cap, of "prefer"] by (auto simp: Let_def)
  define d2 where "d2 = d1\<lparr>scratch := ab_store buf (scratch d1)\<rparr>"
  have d2: "disk_wf fds idle d2 n1" "same_files d d2" "len \<le> ab_cap (scratch d2)"
    using t' t(3) cap by (simp_all add: d2_def same_files_def)
  show ?thesis
  proof (cases "\<exists>e. r = Inl e \<and> prefer \<and> raw_os_error e = Some EINVAL \<and> use_direct d2")
    case False
    with t t' d2 show ?thesis by (subst read_loop.simps) (cases r; auto simp: d2_def Let_def)
  next
    case True
    have "disk_wf fds idle (disable_direct d2) n1" "len \<le> ab_cap (scratch (disable_direct d2))"
      "same_files d2 (disable_direct d2)"
      using d2 by (simp_all add: disable_direct_def disk_wf_def same_files_def)
    with once [OF this(1,2)] True t d2 show ?thesis
      by (subst read_loop.simps) (auto simp: d2_def [symmetric] same_files_def Let_def)
  qed
qed

lemma read_at_spec:
  assumes law: "disk_law H fds img \<mu> idle" and wf: "disk_wf fds idle d n" and room: "unat off + len < 2 ^ 64"
  shows "\<exists>r d' n'. read_at H off len d n = Some (r, d', n') \<and> img n' = img n \<and> disk_wf fds idle d' n' \<and>
    same_files d d' \<and>
    (r = Inr () \<longrightarrow> len \<le> ab_cap (scratch d') \<and> take len (ab_mem (scratch d')) = part (unat off) len (img n))"
proof (cases "len = 0")
  case True
  with wf show ?thesis by (simp add: read_at_def part_def same_files_def)
next
  case False
  obtain q b m where e: "ab_ensure H len (scratch d) n = (q, b, m)" by (metis prod_cases3)
  have s: "img m = img n" "disk_wf fds idle (d\<lparr>scratch := b\<rparr>) m" "q = Inr () \<Longrightarrow> len \<le> ab_cap b"
    using ab_ensure_spec [OF law wf e] by simp_all
  show ?thesis
  proof (cases q)
    case (Inl t)
    with False e s show ?thesis by (simp add: read_at_def same_files_def)
  next
    case (Inr u)
    with s have "len \<le> ab_cap (scratch (d\<lparr>scratch := b\<rparr>))" by simp
    from read_loop_spec [OF law s(2) room this, of "prefer_direct off len d"] False e s(1) Inr
    show ?thesis by (auto simp: read_at_def same_files_def)
  qed
qed

lemma write_turn_spec:
  assumes law: "disk_law H fds img \<mu> idle" and wf: "disk_wf fds idle d n"
    and room: "unat off + len < 2 ^ 64" and fits: "unat off + len \<le> length c" and cap: "len \<le> ab_cap (scratch d)"
    and start: "scribble (unat off) len c (img n)"
  shows "\<exists>r d' n'. write_at_fd H (io_fd prefer d) off (take len (ab_mem (scratch d))) d n = Some (r, d', n') \<and>
    scribble (unat off) len c (img n') \<and> (r = Inr () \<longrightarrow> img n' = patch (unat off) (take len (ab_mem (scratch d))) c) \<and>
    disk_wf fds idle d' n' \<and> same_files d d' \<and> scratch d' = scratch d"
proof -
  have len: "length (take len (ab_mem (scratch d))) = len" using wf cap by (simp add: disk_wf_def)
  show ?thesis
    using write_at_fd_spec [OF law wf io_fd_in [OF wf], of off "take len (ab_mem (scratch d))" c "prefer"]
      len room fits start
    by (fastforce simp: same_files_def)
qed

lemma write_loop_spec:
  assumes law: "disk_law H fds img \<mu> idle" and wf: "disk_wf fds idle d n"
    and room: "unat off + len < 2 ^ 64" and fits: "unat off + len \<le> length c" and cap: "len \<le> ab_cap (scratch d)"
    and start: "scribble (unat off) len c (img n)"
  shows "\<exists>r d' n'. write_loop H prefer off len d n = Some (r, d', n') \<and> scribble (unat off) len c (img n') \<and>
    (r = Inr () \<longrightarrow> img n' = patch (unat off) (take len (ab_mem (scratch d))) c) \<and>
    disk_wf fds idle d' n' \<and> same_files d d' \<and> scratch d' = scratch d"
proof -
  obtain r d1 n1 where t: "write_at_fd H (io_fd prefer d) off (take len (ab_mem (scratch d))) d n = Some (r, d1, n1)"
    "scribble (unat off) len c (img n1)" "r = Inr () \<longrightarrow> img n1 = patch (unat off) (take len (ab_mem (scratch d))) c"
    "disk_wf fds idle d1 n1" "same_files d d1" "scratch d1 = scratch d"
    using write_turn_spec [OF law wf room fits cap start, of "prefer"] by blast
  show ?thesis
  proof (cases "\<exists>e. r = Inl e \<and> prefer \<and> raw_os_error e = Some EINVAL \<and> use_direct d1")
    case False
    with t show ?thesis by (subst write_loop.simps) (cases r; auto)
  next
    case True
    define d2 where "d2 = disable_direct d1"
    have d2: "disk_wf fds idle d2 n1" "len \<le> ab_cap (scratch d2)" "same_files d d2" "scratch d2 = scratch d"
      using t cap by (simp_all add: d2_def disable_direct_def disk_wf_def same_files_def)
    have "\<exists>r d' n'. write_loop H False off len d2 n1 = Some (r, d', n') \<and> scribble (unat off) len c (img n') \<and>
        (r = Inr () \<longrightarrow> img n' = patch (unat off) (take len (ab_mem (scratch d2))) c) \<and>
        disk_wf fds idle d' n' \<and> same_files d2 d' \<and> scratch d' = scratch d2"
      using write_turn_spec [OF law d2(1) room fits d2(2) t(2), of False]
      by (subst write_loop.simps) (auto split: sum.splits)
    with True t d2 show ?thesis
      by (subst write_loop.simps) (auto simp: d2_def [symmetric] same_files_def)
  qed
qed

lemma write_at_spec:
  assumes "disk_law H fds img \<mu> idle" and "disk_wf fds idle d n"
    and "unat off + len < 2 ^ 64" and "unat off + len \<le> length (img n)"
  shows "\<exists>r d' n'. write_at H off len d n = Some (r, d', n') \<and> scribble (unat off) len (img n) (img n') \<and>
    (r = Inr () \<longrightarrow> img n' = patch (unat off) (take len (ab_mem (scratch d))) (img n)) \<and>
    disk_wf fds idle d' n' \<and> same_files d d' \<and> scratch d' = scratch d"
proof (cases "len = 0 \<or> len > ab_cap (scratch d)")
  case True
  with assms(2) show ?thesis by (auto simp: write_at_def same_files_def)
next
  case False
  with write_loop_spec [OF assms, of "prefer_direct off len d"] show ?thesis by (simp add: write_at_def)
qed

lemma fsync_fd_spec:
  assumes law: "disk_law H fds img \<mu> idle" and wf: "disk_wf fds idle d n" and fd: "fd \<in> fds"
  shows "\<exists>r d' n'. fsync_fd H fd d n = Some (r, d', n') \<and> img n' = img n \<and> disk_wf fds idle d' n' \<and>
    same_files d d' \<and> use_direct d' = use_direct d \<and> scratch d' = scratch d"
proof -
  have sync: "img n' = img m" if "h_fdatasync H fd m = (r, n')" for m r n'
    using disk_lawD(1) [OF law] that unfolding file_law_def by (metis snd_conv)
  have plain: "\<exists>r n'. (case h_fdatasync H fd m of (Inl e, n) \<Rightarrow> Some (Inl (Os e), d, n)
      | (Inr _, n) \<Rightarrow> Some (Inr (), d, n)) = Some (r :: (io_error, unit) result, d :: BlockDisk, n') \<and> img n' = img m" for m d
    by (cases "h_fdatasync H fd m"; cases "fst (h_fdatasync H fd m)") (auto dest: sync)
  show ?thesis
  proof (cases "bd_ring d")
    case None
    with plain [of d n] wf show ?thesis by (auto simp: fsync_fd_def Let_def same_files_def disk_wf_def)
  next
    case (Some rg)
    obtain r n1 where r: "ring_fsync H rg fd n = (r, n1)" by force
    have "idle rg n" using wf Some by (simp add: disk_wf_def)
    then have k: "idle rg n1" "img n1 = img n" using ring_fsync_spec [OF disk_lawD(2) [OF law] fd _ r] by simp_all
    show ?thesis
    proof (cases r)
      case (Inr u)
      with Some r k wf show ?thesis by (auto simp: fsync_fd_def Let_def same_files_def disk_wf_def)
    next
      case (Inl e)
      obtain n2 where "disable_ring H d n1 = Some (d\<lparr>bd_ring := None\<rparr>, n2)" "img n2 = img n1"
        using disable_ring_spec [OF disk_lawD(2) [OF law] Some k(1)] by blast
      with Some r Inl k wf plain [of "d\<lparr>bd_ring := None\<rparr>" n2] show ?thesis
        by (auto simp: fsync_fd_def Let_def same_files_def disk_wf_def)
    qed
  qed
qed

lemma flush_data_spec:
  assumes law: "disk_law H fds img \<mu> idle" and wf: "disk_wf fds idle d n"
  shows "\<exists>r d' n'. flush_data H d n = Some (r, d', n') \<and> img n' = img n \<and> disk_wf fds idle d' n' \<and> same_files d d'"
proof -
  have "\<exists>r d1 n1. (case (use_direct d, direct_file d) of (True, Some f) \<Rightarrow> fsync_fd H f d n
      | _ \<Rightarrow> Some (Inr (), d, n)) = Some (r, d1, n1) \<and> img n1 = img n \<and> disk_wf fds idle d1 n1 \<and> same_files d d1"
  proof (cases "use_direct d \<and> direct_file d \<noteq> None")
    case True
    then obtain f where "use_direct d" "direct_file d = Some f" by blast
    with fsync_fd_spec [OF law wf, of f] wf show ?thesis by (auto simp: disk_wf_def)
  next
    case False
    with wf show ?thesis by (auto simp: same_files_def split: bool.splits option.splits)
  qed
  then obtain r d1 n1 where s: "(case (use_direct d, direct_file d) of (True, Some f) \<Rightarrow> fsync_fd H f d n
      | _ \<Rightarrow> Some (Inr (), d, n)) = Some (r, d1, n1)" "img n1 = img n" "disk_wf fds idle d1 n1" "same_files d d1"
    by blast
  then have "buffered_file d1 \<in> fds" by (simp add: disk_wf_def)
  from fsync_fd_spec [OF law s(3) this] s show ?thesis
    by (cases r) (auto simp: flush_data_def same_files_def)
qed

section \<open>A concrete host\<close>

text \<open>
  A host with one image, opened buffered as descriptor 3 and direct as 4. The direct
  descriptor refuses every transfer, a system call moves at most three bytes and may be
  interrupted, and the ring executes what it is given.
\<close>

record sim_host =
  sh_img :: bytes
  sh_eintr :: nat
  sh_sq :: "Sqe list"
  sh_cq :: "Cqe list"

fun sim_exec :: "Sqe \<Rightarrow> bytes \<Rightarrow> Cqe \<times> bytes" where
  "sim_exec (SqeRead fd len off user) c =
     (let bs = part (unat off) (unat len) c
      in (\<lparr>cq_user_data = user, cq_result = int (length bs), cq_data = bs\<rparr>, c))"
| "sim_exec (SqeWrite fd bs off user) c =
     (if fd = 4 then (\<lparr>cq_user_data = user, cq_result = - EINVAL, cq_data = []\<rparr>, c)
      else (\<lparr>cq_user_data = user, cq_result = int (length bs), cq_data = []\<rparr>, patch (unat off) bs c))"
| "sim_exec (SqeFdatasync fd user) c = (\<lparr>cq_user_data = user, cq_result = 0, cq_data = []\<rparr>, c)"

definition sim_submit :: "sim_host \<Rightarrow> sim_host" where
  "sim_submit n =
     (case sh_sq n of
       [] \<Rightarrow> n
     | e # es \<Rightarrow> (case sim_exec e (sh_img n) of
                  (q, c) \<Rightarrow> n\<lparr>sh_sq := es, sh_cq := sh_cq n @ [q], sh_img := c\<rparr>))"

definition sim_hostio :: "sim_host hostio" where
  "sim_hostio = \<lparr>
     h_open = (\<lambda>path flags n. (Inr (if flags AND O_DIRECT = 0 then 3 else 4), n)),
     h_close = (\<lambda>fd n. n),
     h_file_len = (\<lambda>fd n. Inr (of_nat (length (sh_img n)))),
     h_blksize = (\<lambda>fd n. Some 512),
     h_pread = (\<lambda>fd k off n.
       if sh_eintr n > 0 then (Inl EINTR, n\<lparr>sh_eintr := sh_eintr n - 1\<rparr>)
       else if fd = 4 then (Inl EINVAL, n)
       else (Inr (part (unat off) (min k 3) (sh_img n)), n)),
     h_pwrite = (\<lambda>fd bs off n.
       if sh_eintr n > 0 then (Inl EINTR, n\<lparr>sh_eintr := sh_eintr n - 1\<rparr>)
       else if fd = 4 then (Inl EINVAL, n)
       else (Inr (min (length bs) 3), n\<lparr>sh_img := patch (unat off) (take (min (length bs) 3) bs) (sh_img n)\<rparr>)),
     h_fdatasync = (\<lambda>fd n. (Inr (), n)),
     h_alloc = (\<lambda>k n. (Some (replicate k 0), n)),
     h_realloc = (\<lambda>mem k n. (Some (take k (mem @ replicate k 0)), n)),
     h_dealloc = (\<lambda>mem n. n),
     u_new = (\<lambda>k n. (Inr 5, n)),
     u_push = (\<lambda>rg e n. if sh_sq n = [] then (Inr (), n\<lparr>sh_sq := [e]\<rparr>) else (Inl ''submission queue is full'', n)),
     u_submit_and_wait = (\<lambda>rg k n. (Inr (), sim_submit n)),
     u_submit = (\<lambda>rg n. (Inr (), sim_submit n)),
     u_next = (\<lambda>rg n. case sh_cq n of [] \<Rightarrow> (None, n) | q # qs \<Rightarrow> (Some q, n\<lparr>sh_cq := qs\<rparr>)),
     u_drop = (\<lambda>rg n. n)\<rparr>"

definition sim_idle :: "int \<Rightarrow> sim_host \<Rightarrow> bool" where
  "sim_idle rg n \<longleftrightarrow> sh_sq n = [] \<and> sh_cq n = []"

lemma part_again: "part off (length (part off k c)) c = part off k c"
  by (simp add: part_def min_def)

lemma length_part_le: "length (part off k c) \<le> k"
  by (simp add: part_def)

lemma sim_completes:
  assumes "sim_exec e c = (q, c')"
  shows "completes e c q c'"
  using assms by (cases e) (auto simp: Let_def part_again length_part_le EINVAL_def split: if_splits)

lemma sim_disk_law: "disk_law sim_hostio {3, 4} sh_img sh_eintr sim_idle"
  unfolding disk_law_def file_law_def ring_law_def
  by (auto simp: sim_hostio_def sim_idle_def sim_submit_def part_again EINVAL_def EINTR_def
      order.trans [OF length_part_le] split: prod.splits if_splits intro!: sim_completes)

definition sim_disk :: BlockDisk where
  "sim_disk = \<lparr>direct_file = Some 4, buffered_file = 3, use_direct = True, direct_align = 4,
     scratch = \<lparr>ab_mem = [1, 2, 3, 4, 5, 6, 7, 8], ab_cap = 8\<rparr>, bd_ring = Some 5\<rparr>"

lemma sim_disk_wf: "sh_sq n = [] \<Longrightarrow> sh_cq n = [] \<Longrightarrow> disk_wf {3, 4} sim_idle sim_disk n"
  by (simp add: disk_wf_def sim_disk_def sim_idle_def)

section \<open>Properties\<close>


declare pread_all.simps [code] pwrite_all.simps [code] ring_read.simps [code] ring_write.simps [code]
  drain_completions.simps [code] read_loop.simps [code] write_loop.simps [code]

definition sim_image :: sim_host where
  "sim_image = \<lparr>sh_img = [10, 11, 12, 13, 14, 15, 16, 17, 18, 19, 20, 21], sh_eintr = 2, sh_sq = [], sh_cq = []\<rparr>"

lemma sim_reads:
  "case read_at sim_hostio 4 8 sim_disk sim_image of
     Some (r, d, n) \<Rightarrow> r = Inr () \<and> ab_mem (scratch d) = [14, 15, 16, 17, 18, 19, 20, 21] | _ \<Rightarrow> False"
  "case read_at sim_hostio 4 8 (sim_disk\<lparr>bd_ring := None\<rparr>) sim_image of
     Some (r, d, n) \<Rightarrow> r = Inr () \<and> \<not> use_direct d | _ \<Rightarrow> False"
  by code_simp+



lemma sim_write:
  "case write_at sim_hostio 2 5 sim_disk sim_image of
     Some (r, d, n) \<Rightarrow> r = Inr () \<and> d = sim_disk \<and> sh_sq n = [] \<and> sh_cq n = [] \<and>
       sh_img n = [10, 11, 1, 2, 3, 4, 5, 17, 18, 19, 20, 21]
   | _ \<Rightarrow> False"
  by code_simp


end
