(* ===== verification/VirtioBlkProps.thy ===== *)
theory VirtioBlkProps
  imports VirtioBlk BlkDiskProps
begin

text \<open>
  The block device answers requests as a disk does: an abstract disk gives, for a request,
  the answers and the new contents that are allowed, and \<open>handle_request\<close> refines it; the
  queue is served to its end, and every request is given back.
\<close>

section \<open>The abstract disk\<close>

definition in_range :: "u64 \<Rightarrow> u64 \<Rightarrow> nat \<Rightarrow> bool" where
  "in_range cap sector len \<longleftrightarrow> unat sector * 512 + len \<le> unat cap * 512"

definition writable :: "bool \<Rightarrow> u64 \<Rightarrow> bool" where
  "writable ro feats \<longleftrightarrow> \<not> ro \<and> feats AND VIRTIO_BLK_F_RO = 0"

text \<open>
  \<open>blk_spec cap ro feats h payload room c out c'\<close>: to the request \<open>h\<close> with data \<open>payload\<close> and
  \<open>room\<close> bytes for the answer, a disk with contents \<open>c\<close> may answer \<open>out\<close> and then have
  contents \<open>c'\<close>.
\<close>

inductive blk_spec ::
  "u64 \<Rightarrow> bool \<Rightarrow> u64 \<Rightarrow> VirtioBlkReqHdr \<Rightarrow> bytes \<Rightarrow> nat \<Rightarrow> bytes \<Rightarrow> bytes \<Rightarrow> bytes \<Rightarrow> bool"
  for cap ro feats h payload room c where
  spec_in: "rh_type h = VIRTIO_BLK_T_IN \<Longrightarrow> in_range cap (rh_sector h) (room - 1) \<Longrightarrow>
    blk_spec cap ro feats h payload room c
      (part (unat (rh_sector h) * 512) (room - 1) c @ [VIRTIO_BLK_S_OK]) c"
| spec_in_failed: "rh_type h = VIRTIO_BLK_T_IN \<Longrightarrow>
    blk_spec cap ro feats h payload room c (replicate (room - 1) 0 @ [VIRTIO_BLK_S_IOERR]) c"
| spec_out: "rh_type h = VIRTIO_BLK_T_OUT \<Longrightarrow> writable ro feats \<Longrightarrow>
    in_range cap (rh_sector h) (length payload) \<Longrightarrow>
    blk_spec cap ro feats h payload room c [VIRTIO_BLK_S_OK] (patch (unat (rh_sector h) * 512) payload c)"
| spec_out_refused: "rh_type h = VIRTIO_BLK_T_OUT \<Longrightarrow>
    \<not> (writable ro feats \<and> in_range cap (rh_sector h) (length payload)) \<Longrightarrow>
    blk_spec cap ro feats h payload room c [VIRTIO_BLK_S_IOERR] c"
| spec_out_failed: "rh_type h = VIRTIO_BLK_T_OUT \<Longrightarrow> writable ro feats \<Longrightarrow>
    in_range cap (rh_sector h) (length payload) \<Longrightarrow>
    scribble (unat (rh_sector h) * 512) (length payload) c c' \<Longrightarrow>
    blk_spec cap ro feats h payload room c [VIRTIO_BLK_S_IOERR] c'"
| spec_flush: "rh_type h = VIRTIO_BLK_T_FLUSH \<Longrightarrow> feats AND VIRTIO_BLK_F_FLUSH \<noteq> 0 \<Longrightarrow>
    s = VIRTIO_BLK_S_OK \<or> s = VIRTIO_BLK_S_IOERR \<Longrightarrow> blk_spec cap ro feats h payload room c [s] c"
| spec_no_flush: "rh_type h = VIRTIO_BLK_T_FLUSH \<Longrightarrow> feats AND VIRTIO_BLK_F_FLUSH = 0 \<Longrightarrow>
    blk_spec cap ro feats h payload room c [VIRTIO_BLK_S_UNSUPP] c"
| spec_id: "rh_type h = VIRTIO_BLK_T_GET_ID \<Longrightarrow>
    blk_spec cap ro feats h payload room c (blk_id @ [VIRTIO_BLK_S_OK]) c"
| spec_other:
    "rh_type h \<notin> {VIRTIO_BLK_T_IN, VIRTIO_BLK_T_OUT, VIRTIO_BLK_T_FLUSH, VIRTIO_BLK_T_GET_ID} \<Longrightarrow>
    blk_spec cap ro feats h payload room c (replicate (room - 1) 0 @ [VIRTIO_BLK_S_UNSUPP]) c"

section \<open>Requests\<close>

text \<open>A reader that succeeds returns the number of bytes asked for.\<close>

definition reader_law :: "('q, 'c, 'r, 'x, 'w) virtq \<Rightarrow> bool" where
  "reader_law V \<longleftrightarrow> (\<forall>k rd g bs rd' g'. r_read_exact V k rd g = (Inr bs, rd', g') \<longrightarrow> length bs = k)"

lemma req_range_spec:
  assumes "req_range sector len = Some (off, e)" and "len < 2 ^ 64"
  shows "unat off = unat sector * 512" and "unat off + len < 2 ^ 64"
    and "unat cap * 512 < 2 ^ 64 \<Longrightarrow> e > cap * SECTOR_SIZE \<longleftrightarrow> \<not> in_range cap sector len"
proof -
  have s: "checked_mul sector SECTOR_SIZE = Some off" "checked_add off (of_nat len) = Some e"
    using assms(1) by (auto simp: req_range_def split: option.splits)
  have off: "unat off = unat sector * 512" using checked_mul_unat [OF s(1)] by (simp add: SECTOR_SIZE_def)
  have len: "unat (of_nat len :: u64) = len" using assms(2) by (simp add: unat_of_nat)
  have e: "unat e = unat off + len" using checked_add_unat [OF s(2)] len by simp
  show "unat off = unat sector * 512" by (rule off)
  show "unat off + len < 2 ^ 64" using s(2) len by (simp add: checked_add_Some)
  assume "unat cap * 512 < 2 ^ 64"
  then have "unat (cap * SECTOR_SIZE) = unat cap * 512" by (simp add: SECTOR_SIZE_def unat_word_ariths)
  then show "e > cap * SECTOR_SIZE \<longleftrightarrow> \<not> in_range cap sector len"
    using e off by (simp add: word_less_nat_alt in_range_def not_le)
qed

lemma put_status_spec:
  assumes "writer_law V wr" and "length (concat parts) \<le> x_avail V x"
  shows "\<exists>g'. put_status V parts k x g = (Inr k, g') \<and> wr g' = wr g @ concat parts"
proof -
  have "\<exists>x' g'. foldl (\<lambda>(r, x, g) bs. case r of Inl e \<Rightarrow> (Inl e, x, g) | Inr _ \<Rightarrow> x_write_all V bs x g)
      (Inr (), x, g) parts = (Inr (), x', g') \<and> wr g' = wr g @ concat parts"
    using assms(2)
  proof (induction parts arbitrary: x g)
    case (Cons bs parts)
    then have "length bs \<le> x_avail V x" by simp
    then obtain x' g' where "x_write_all V bs x g = (Inr (), x', g')" "x_avail V x' = x_avail V x - length bs"
      "wr g' = wr g @ bs" by (rule write_allE [OF assms(1)])
    with Cons.IH [of x' g'] Cons.prems show ?case by auto
  qed simp
  then show ?thesis by (auto simp: put_status_def)
qed

lemma as_slice_ok: "len \<le> ab_cap b \<Longrightarrow> ab_as_slice len b = Inr (take len (ab_mem b))"
  by (simp add: ab_as_slice_def)

lemma req_fill_spec:
  assumes law: "disk_law H fds img \<mu> idle" and wf: "disk_wf fds idle d n" and range: "req_range sector len = Some (off, e)"
    and len: "len < 2 ^ 64" and cap: "unat cap * 512 < 2 ^ 64"
  shows "\<exists>r d' n'. req_fill H cap off e len d n = Some (r, d', n') \<and> img n' = img n \<and> disk_wf fds idle d' n' \<and>
    (r = Inr VIRTIO_BLK_S_OK \<and> in_range cap sector len \<and> len \<le> ab_cap (scratch d') \<and>
       take len (ab_mem (scratch d')) = part (unat sector * 512) len (img n) \<or>
     r = Inr VIRTIO_BLK_S_IOERR \<and> (len \<le> ab_cap (scratch d') \<longrightarrow> take len (ab_mem (scratch d')) = replicate len 0) \<or>
     (\<exists>err. r = Inl err))"
proof -
  note range_spec = req_range_spec [OF range len]
  have zero: "\<exists>r d' n'. zero_scratch H len d n = (r, d', n') \<and> img n' = img n \<and> disk_wf fds idle d' n' \<and>
      (r = Inr () \<longrightarrow> take len (ab_mem (scratch d')) = replicate len 0) \<and> (is_err r \<longrightarrow> \<not> len \<le> ab_cap (scratch d'))"
    if "disk_wf fds idle d n" for d n
  proof -
    obtain r d' n' where z: "zero_scratch H len d n = (r, d', n')" by (metis prod_cases3)
    have "is_err r \<Longrightarrow> \<not> len \<le> ab_cap (scratch d')"
      using z by (auto simp: zero_scratch_def ab_ensure_def Let_def split: if_splits option.splits sum.splits prod.splits)
    with z zero_scratch_spec [OF law that z] show ?thesis by auto
  qed
  show ?thesis
  proof (cases "in_range cap sector len")
    case False
    with zero [OF wf] range_spec(3) [OF cap] show ?thesis
      by (auto simp: req_fill_def split: sum.splits)
  next
    case True
    obtain r d1 n1 where r: "read_at H off len d n = Some (r, d1, n1)" "img n1 = img n" "disk_wf fds idle d1 n1"
      "r = Inr () \<longrightarrow> len \<le> ab_cap (scratch d1) \<and> take len (ab_mem (scratch d1)) = part (unat off) len (img n)"
      using read_at_spec [OF law wf range_spec(2)] by blast
    obtain q d2 n2 where z: "zero_scratch H len d1 n1 = (q, d2, n2)" "img n2 = img n1" "disk_wf fds idle d2 n2"
      "q = Inr () \<longrightarrow> take len (ab_mem (scratch d2)) = replicate len 0" "is_err q \<longrightarrow> \<not> len \<le> ab_cap (scratch d2)"
      using zero [OF r(3)] by blast
    with r True range_spec(1) range_spec(3) [OF cap] show ?thesis
      by (cases r; cases q) (auto simp: req_fill_def)
  qed
qed

text \<open>
  What a request may come to: an answer of the abstract disk, whose length is reported, or
  an error with nothing written to the guest or to the image.
\<close>

definition answered ::
  "u64 \<Rightarrow> bool \<Rightarrow> u64 \<Rightarrow> VirtioBlkReqHdr \<Rightarrow> bytes \<Rightarrow> nat \<Rightarrow> bytes \<times> bytes \<Rightarrow>
   (BlockReqError, u32) result \<Rightarrow> bytes \<times> bytes \<Rightarrow> bool" where
  "answered cap ro feats h payload room = (\<lambda>(w, c) r (w', c').
     case r of
       Inr k \<Rightarrow> (\<exists>out. w' = w @ out \<and> k = of_nat (length out) \<and> blk_spec cap ro feats h payload room c out c')
     | Inl _ \<Rightarrow> w' = w \<and> c' = c)"

lemma answered_status:
  "blk_spec cap ro feats h payload room c [s] c' \<Longrightarrow> answered cap ro feats h payload room (w, c) (Inr 1) (w @ [s], c')"
  by (auto simp: answered_def intro!: exI [of _ "[s]"])

lemma req_in_spec:
  assumes law: "disk_law H fds img \<mu> idle" and wf: "disk_wf fds idle d n" and wl: "writer_law V wr"
    and room: "0 < x_avail V x" "x_avail V x < 2 ^ 64" and cap: "unat cap * 512 < 2 ^ 64"
    and type: "rh_type h = VIRTIO_BLK_T_IN"
  shows "\<exists>r d' g' n'. req_in V H cap (rh_sector h) x d g n = Some (r, d', g', n') \<and> disk_wf fds idle d' n' \<and>
    answered cap ro feats h payload (x_avail V x) (wr g, img n) r (wr g', img n')"
proof (cases "req_range (rh_sector h) (x_avail V x - 1)")
  case None
  with wf room show ?thesis by (simp add: req_in_def Let_def answered_def)
next
  case (Some oe)
  obtain off e where range: "req_range (rh_sector h) (x_avail V x - 1) = Some (off, e)" using Some by (cases oe) auto
  let ?len = "x_avail V x - 1"
  have l: "?len < 2 ^ 64" using room by simp
  obtain r d1 n1 where f: "req_fill H cap off e ?len d n = Some (r, d1, n1)" "img n1 = img n" "disk_wf fds idle d1 n1"
    "r = Inr VIRTIO_BLK_S_OK \<and> in_range cap (rh_sector h) ?len \<and> ?len \<le> ab_cap (scratch d1) \<and>
       take ?len (ab_mem (scratch d1)) = part (unat (rh_sector h) * 512) ?len (img n) \<or>
     r = Inr VIRTIO_BLK_S_IOERR \<and> (?len \<le> ab_cap (scratch d1) \<longrightarrow> take ?len (ab_mem (scratch d1)) = replicate ?len 0) \<or>
     (\<exists>err. r = Inl err)"
    using req_fill_spec [OF law wf range l cap] by blast
  show ?thesis
  proof (cases "(\<exists>s. r = Inr s) \<and> ?len \<le> ab_cap (scratch d1)")
    case False
    with f range room show ?thesis
      by (cases r) (auto simp: req_in_def Let_def answered_def ab_as_slice_def)
  next
    case True
    then obtain s where s: "r = Inr s" by blast
    let ?data = "take ?len (ab_mem (scratch d1))"
    have len: "length ?data = ?len" using f(3) True by (simp add: disk_wf_def)
    then have "length (concat [?data, [s]]) \<le> x_avail V x" using room by simp
    from put_status_spec [OF wl this, of "of_nat (?len + 1)" g] obtain g' where
      p: "put_status V [?data, [s]] (of_nat (?len + 1)) x g = (Inr (of_nat (?len + 1)), g')" "wr g' = wr g @ ?data @ [s]"
      by auto
    have "blk_spec cap ro feats h payload (x_avail V x) (img n) (?data @ [s]) (img n)"
      using f(4) s True type by (auto simp del: One_nat_def intro: spec_in spec_in_failed)
    then have "answered cap ro feats h payload (x_avail V x) (wr g, img n) (Inr (of_nat (?len + 1))) (wr g', img n1)"
      using p(2) len f(2) by (auto simp: answered_def intro!: exI [of _ "?data @ [s]"])
    with f(1,3) range room s True p(1) show ?thesis
      by (simp add: req_in_def Let_def as_slice_ok)
  qed
qed

lemma req_take_spec:
  assumes law: "disk_law H fds img \<mu> idle" and wf: "disk_wf fds idle d n" and rl: "reader_law V"
    and read: "r_read_exact V (r_avail V rd) rd g = (Inr payload, rd', g')"
    and run: "req_take V H rd d g n = (r, d1, g1, n1)"
  shows "img n1 = img n" and "disk_wf fds idle d1 n1" and "g1 = g \<or> g1 = g'"
    and "r = Inr k \<Longrightarrow> k = length payload \<and> k \<le> ab_cap (scratch d1) \<and> take k (ab_mem (scratch d1)) = payload"
    and "\<nexists>k. r = Inr k \<Longrightarrow> is_err r"
proof -
  obtain q b m where e: "ab_ensure H (r_avail V rd) (scratch d) n = (q, b, m)" by (metis prod_cases3)
  have s: "img m = img n" "disk_wf fds idle (d\<lparr>scratch := b\<rparr>) m" "q = Inr () \<Longrightarrow> r_avail V rd \<le> ab_cap b"
    using ab_ensure_spec [OF law wf e] by simp_all
  have len: "length payload = r_avail V rd" using rl read unfolding reader_law_def by blast
  show "img n1 = img n" and "disk_wf fds idle d1 n1" and "g1 = g \<or> g1 = g'"
    and "r = Inr k \<Longrightarrow> k = length payload \<and> k \<le> ab_cap (scratch d1) \<and> take k (ab_mem (scratch d1)) = payload"
    using run e s read len
    by (auto simp: req_take_def Let_def ab_store_def disk_wf_def split: sum.splits)
  show "\<nexists>k. r = Inr k \<Longrightarrow> is_err r" by (cases r) auto
qed

lemma req_out_spec:
  assumes law: "disk_law H fds img \<mu> idle" and wf: "disk_wf fds idle d n" and wl: "writer_law V wr" and rl: "reader_law V"
    and room: "0 < x_avail V x" "r_avail V rd < 2 ^ 64" and cap: "unat cap * 512 = length (img n)" "length (img n) < 2 ^ 64"
    and type: "rh_type h = VIRTIO_BLK_T_OUT"
    and read: "r_read_exact V (r_avail V rd) rd g = (Inr payload, rd', g2)"
  shows "\<exists>r d' g' n'. req_out V H cap ro feats (rh_sector h) rd x d g n = Some (r, d', g', n') \<and> disk_wf fds idle d' n' \<and>
    answered cap ro feats h payload (x_avail V x) (wr g, img n) r (wr g', img n')"
proof -
  obtain r d1 g1 n1 where t: "req_take V H rd d g n = (r, d1, g1, n1)" by (metis prod_cases4)
  note s = req_take_spec [OF law wf rl read t]
  have "wr g2 = wr g" using wl read unfolding writer_law_def by blast
  then have w1: "wr g1 = wr g" using s(3) by auto
  have len: "length payload = r_avail V rd" using rl read unfolding reader_law_def by blast
  show ?thesis
  proof (cases "\<exists>off e. r = Inr (length payload) \<and> req_range (rh_sector h) (length payload) = Some (off, e)")
    case False
    show ?thesis
    proof (cases r)
      case (Inl err)
      with t s(1,2) w1 show ?thesis by (simp add: req_out_def answered_def)
    next
      case (Inr k)
      with False s(4) [OF Inr] have "req_range (rh_sector h) k = None" by (cases "req_range (rh_sector h) k") auto
      with Inr t s(1,2) w1 show ?thesis by (simp add: req_out_def answered_def)
    qed
  next
    case True
    then obtain off e where r: "r = Inr (length payload)" and range: "req_range (rh_sector h) (length payload) = Some (off, e)"
      by blast
    have l: "length payload < 2 ^ 64" using len room by simp
    have c: "unat cap * 512 < 2 ^ 64" using cap by simp
    note rs = req_range_spec [OF range l]
    have st: "\<exists>g'. put_status V [[u]] 1 x g1 = (Inr 1, g') \<and> wr g' = wr g @ [u]" for u
      using put_status_spec [OF wl, of "[[u]]" x 1 g1] room w1 by simp
    show ?thesis
    proof (cases "writable ro feats \<and> in_range cap (rh_sector h) (length payload)")
      case False
      obtain g' where g': "put_status V [[VIRTIO_BLK_S_IOERR]] 1 x g1 = (Inr 1, g')" "wr g' = wr g @ [VIRTIO_BLK_S_IOERR]"
        using st by blast
      have "answered cap ro feats h payload (x_avail V x) (wr g, img n) (Inr 1) (wr g', img n1)"
        unfolding g'(2) s(1) using False type by (intro answered_status spec_out_refused)
      moreover have "(ro \<or> feats AND VIRTIO_BLK_F_RO \<noteq> 0) \<or> e > cap * SECTOR_SIZE"
        using False rs(3) [OF c] by (auto simp: writable_def)
      then have "req_out V H cap ro feats (rh_sector h) rd x d g n = Some (Inr 1, d1, g', n1)"
        using t r range g'(1) by (auto simp: req_out_def Let_def)
      ultimately show ?thesis using s(2) by blast
    next
      case True
      have "unat off + length payload \<le> length (img n1)" using True rs(1) cap s(1) by (simp add: in_range_def)
      then obtain q d2 n2 where wr': "write_at H off (length payload) d1 n1 = Some (q, d2, n2)"
        "scribble (unat off) (length payload) (img n1) (img n2)" "disk_wf fds idle d2 n2"
        "q = Inr () \<longrightarrow> img n2 = patch (unat off) payload (img n1)"
        using write_at_spec [OF law s(2) rs(2)] s(4) [OF r] by auto
      define u where "u = (if is_err q then VIRTIO_BLK_S_IOERR else VIRTIO_BLK_S_OK)"
      obtain g' where g': "put_status V [[u]] 1 x g1 = (Inr 1, g')" "wr g' = wr g @ [u]" using st by blast
      have "blk_spec cap ro feats h payload (x_avail V x) (img n) [u] (img n2)"
      proof (cases q)
        case (Inl e)
        then show ?thesis
          using True type wr'(2) rs(1) s(1) by (auto simp: u_def intro: spec_out_failed)
      next
        case (Inr v)
        then have "img n2 = patch (unat (rh_sector h) * 512) payload (img n)" using wr'(4) rs(1) s(1) by simp
        with Inr True type show ?thesis by (auto simp: u_def intro: spec_out)
      qed
      then have "answered cap ro feats h payload (x_avail V x) (wr g, img n) (Inr 1) (wr g', img n2)"
        unfolding g'(2) by (rule answered_status)
      moreover have "\<not> (ro \<or> feats AND VIRTIO_BLK_F_RO \<noteq> 0)" and "\<not> e > cap * SECTOR_SIZE"
        using True rs(3) [OF c] by (auto simp: writable_def)
      then have "req_out V H cap ro feats (rh_sector h) rd x d g n = Some (Inr 1, d2, g', n2)"
        using t r range g'(1) wr'(1) by (simp add: req_out_def Let_def u_def)
      ultimately show ?thesis using wr'(3) by blast
    qed
  qed
qed

lemma req_flush_spec:
  assumes law: "disk_law H fds img \<mu> idle" and wf: "disk_wf fds idle d n" and wl: "writer_law V wr"
    and room: "0 < x_avail V x" and type: "rh_type h = VIRTIO_BLK_T_FLUSH"
  shows "\<exists>r d' g' n'. req_flush V H ro feats x d g n = Some (r, d', g', n') \<and> disk_wf fds idle d' n' \<and>
    answered cap ro feats h payload (x_avail V x) (wr g, img n) r (wr g', img n')"
proof -
  have st: "\<exists>g'. put_status V [[u]] 1 x g = (Inr 1, g') \<and> wr g' = wr g @ [u]" for u
    using put_status_spec [OF wl, of "[[u]]" x 1 g] room by simp
  obtain r d1 n1 where f: "flush_data H d n = Some (r, d1, n1)" "img n1 = img n" "disk_wf fds idle d1 n1"
    using flush_data_spec [OF law wf] by blast
  define u d2 n2 where "u = (if feats AND VIRTIO_BLK_F_FLUSH = 0 then VIRTIO_BLK_S_UNSUPP else if ro then VIRTIO_BLK_S_OK
      else if is_err r then VIRTIO_BLK_S_IOERR else VIRTIO_BLK_S_OK)"
    and "d2 = (if feats AND VIRTIO_BLK_F_FLUSH = 0 \<or> ro then d else d1)"
    and "n2 = (if feats AND VIRTIO_BLK_F_FLUSH = 0 \<or> ro then n else n1)"
  obtain g' where g': "put_status V [[u]] 1 x g = (Inr 1, g')" "wr g' = wr g @ [u]" using st by blast
  have "blk_spec cap ro feats h payload (x_avail V x) (img n) [u] (img n2)"
    using type f(2) by (auto simp: u_def n2_def intro: spec_flush spec_no_flush)
  then have "answered cap ro feats h payload (x_avail V x) (wr g, img n) (Inr 1) (wr g', img n2)"
    unfolding g'(2) by (rule answered_status)
  moreover have "req_flush V H ro feats x d g n = Some (Inr 1, d2, g', n2)"
    using f(1) g'(1) by (auto simp: req_flush_def u_def d2_def n2_def split: if_splits)
  moreover have "disk_wf fds idle d2 n2" using wf f(3) by (simp add: d2_def n2_def)
  ultimately show ?thesis by blast
qed

lemma req_get_id_spec:
  assumes wl: "writer_law V wr" and type: "rh_type h = VIRTIO_BLK_T_GET_ID"
  shows "\<exists>r g'. req_get_id V x g = (r, g') \<and> answered cap ro feats h payload (x_avail V x) (wr g, c) r (wr g', c)"
proof (cases "x_avail V x < 21")
  case True
  then show ?thesis by (simp add: req_get_id_def answered_def)
next
  case False
  have len: "length blk_id = 20" by (simp add: blk_id_def ascii_def)
  then obtain g' where g': "put_status V [blk_id, [VIRTIO_BLK_S_OK]] 21 x g = (Inr 21, g')"
    "wr g' = wr g @ blk_id @ [VIRTIO_BLK_S_OK]"
    using put_status_spec [OF wl, of "[blk_id, [VIRTIO_BLK_S_OK]]" x 21 g] False by auto
  have "answered cap ro feats h payload (x_avail V x) (wr g, c) (Inr 21) (wr g', c)"
    using g'(2) spec_id [OF type] len by (auto simp: answered_def intro!: exI [of _ "blk_id @ [VIRTIO_BLK_S_OK]"])
  with False g'(1) show ?thesis by (simp add: req_get_id_def)
qed

lemma req_unsupported_spec:
  assumes law: "disk_law H fds img \<mu> idle" and wf: "disk_wf fds idle d n" and wl: "writer_law V wr"
    and room: "0 < x_avail V x"
    and type: "rh_type h \<notin> {VIRTIO_BLK_T_IN, VIRTIO_BLK_T_OUT, VIRTIO_BLK_T_FLUSH, VIRTIO_BLK_T_GET_ID}"
  shows "\<exists>r d' g' n'. req_unsupported V H x d g n = (r, d', g', n') \<and> disk_wf fds idle d' n' \<and>
    answered cap ro feats h payload (x_avail V x) (wr g, img n) r (wr g', img n')"
proof -
  let ?len = "x_avail V x - 1"
  have spec: "answered cap ro feats h payload (x_avail V x) (w, c) (Inr (of_nat (x_avail V x)))
      (w @ replicate ?len 0 @ [VIRTIO_BLK_S_UNSUPP], c)" for w c
    using room spec_other [OF type, of cap ro feats payload "x_avail V x" c] by (fastforce simp: answered_def)
  obtain q d1 n1 where z: "zero_scratch H ?len d n = (q, d1, n1)" by (metis prod_cases3)
  have s: "img n1 = img n" "disk_wf fds idle d1 n1"
    "q = Inr () \<Longrightarrow> ?len \<le> ab_cap (scratch d1) \<and> take ?len (ab_mem (scratch d1)) = replicate ?len 0"
    using zero_scratch_spec [OF law wf z] by simp_all
  have "length (replicate ?len (0 :: u8)) \<le> x_avail V x" by simp
  then obtain x1 g1 where w1: "x_write_all V (replicate ?len 0) x g = (Inr (), x1, g1)"
    "x_avail V x1 = x_avail V x - length (replicate ?len (0 :: u8))" "wr g1 = wr g @ replicate ?len 0" by (rule write_allE [OF wl])
  then have "length [VIRTIO_BLK_S_UNSUPP] \<le> x_avail V x1" using room by simp
  then obtain x2 g2 where w2: "x_write_all V [VIRTIO_BLK_S_UNSUPP] x1 g1 = (Inr (), x2, g2)"
    "wr g2 = wr g1 @ [VIRTIO_BLK_S_UNSUPP]" by (rule write_allE [OF wl])
  have "length [VIRTIO_BLK_S_UNSUPP] \<le> x_avail V x" using room by simp
  then obtain x3 g3 where w3: "x_write_all V [VIRTIO_BLK_S_UNSUPP] x g = (Inr (), x3, g3)"
    "wr g3 = wr g @ [VIRTIO_BLK_S_UNSUPP]" by (rule write_allE [OF wl])
  show ?thesis
  proof (cases "x_avail V x = 1")
    case True
    with w3 wf spec [of "wr g" "img n"] show ?thesis by (simp add: req_unsupported_def Let_def)
  next
    case False
    then have more: "1 < x_avail V x" using room by simp
    show ?thesis
    proof (cases q)
      case (Inl t)
      with more z s show ?thesis by (simp add: req_unsupported_def Let_def answered_def)
    next
      case (Inr v)
      with more z s w1 w2 spec [of "wr g" "img n"] show ?thesis
        by (simp add: req_unsupported_def Let_def as_slice_ok)
    qed
  qed
qed

section \<open>Refinement\<close>


lemma sim_reader_law: "reader_law sim_virtq"
  by (auto simp: reader_law_def sim_virtq_def split: if_splits)

definition blk_header :: "u32 \<Rightarrow> u64 \<Rightarrow> bytes" where
  "blk_header ty sector = le_bytes 4 ty @ [0, 0, 0, 0] @ le_bytes 8 sector"

lemma hdr_of_blk_header: "hdr_of (blk_header ty sector) = \<lparr>rh_type = ty, rh_ioprio = 0, rh_sector = sector\<rparr>"
  by (simp add: hdr_of_def blk_header_def)

definition sim_guest :: "sim_chain list \<Rightarrow> sim_world" where
  "sim_guest cs = \<lparr>sim_avail = cs, sim_taken = [], sim_used = [], sim_written = [], sim_events = [], sim_next_fd = 9\<rparr>"

definition sim_sector :: sim_host where
  "sim_sector = \<lparr>sh_img = replicate 512 7, sh_eintr = 1, sh_sq = [], sh_cq = []\<rparr>"


section \<open>The queue\<close>

text \<open>
  Reading and writing a chain touches no other chain, and the byte counts of a chain fit
  \<^verbatim>\<open>usize\<close>, as \<^verbatim>\<open>Reader::new\<close> and \<^verbatim>\<open>Writer::new\<close> check.
\<close>

definition chain_law :: "('q, 'c, 'r, 'x, 'w) virtq \<Rightarrow> bool" where
  "chain_law V \<longleftrightarrow>
     (\<forall>c g rd. reader_new V c g = Inr rd \<longrightarrow> r_avail V rd < 2 ^ 64) \<and>
     (\<forall>c g x. writer_new V c g = Inr x \<longrightarrow> x_avail V x < 2 ^ 64) \<and>
     (\<forall>k rd g r rd' g'. r_read_exact V k rd g = (r, rd', g') \<longrightarrow> r_avail V rd' \<le> r_avail V rd)"

lemma sim_chain_law: "chain_law sim_virtq"
  by (auto simp: chain_law_def sim_virtq_def split: if_splits)

text \<open>Reading and writing a chain keeps \<open>I\<close>.\<close>

definition io_keeps :: "('q, 'c, 'r, 'x, 'w) virtq \<Rightarrow> ('w \<Rightarrow> bool) \<Rightarrow> bool" where
  "io_keeps V I \<longleftrightarrow>
     (\<forall>k rd w r rd' w'. r_read_exact V k rd w = (r, rd', w') \<longrightarrow> I w \<longrightarrow> I w') \<and>
     (\<forall>bs x w r x' w'. x_write_all V bs x w = (r, x', w') \<longrightarrow> I w \<longrightarrow> I w')"

lemma io_keepsD:
  assumes "io_keeps V I"
  shows "r_read_exact V k rd w = (r, rd', w') \<Longrightarrow> I w \<Longrightarrow> I w'"
    and "x_write_all V bs x w = (q, x', w') \<Longrightarrow> I w \<Longrightarrow> I w'"
  using assms unfolding io_keeps_def by blast+

lemma put_status_keeps:
  assumes io: "io_keeps V I" and "I g" and "put_status V parts k x g = (r, g')"
  shows "I g'"
proof -
  let ?f = "\<lambda>(r, x, g) bs. case r of Inl e \<Rightarrow> (Inl e, x, g) | Inr _ \<Rightarrow> x_write_all V bs x g"
  have keep: "I g'" if "foldl ?f (r, x, g) parts = (r', x', g')" and "I g" for r x g r' x' g'
    using that
  proof (induction parts arbitrary: r x g)
    case (Cons bs parts)
    obtain r1 x1 g1 where s: "x_write_all V bs x g = (r1, x1, g1)" by (rule prod_cases3)
    with io_keepsD(2) [OF io s] Cons.IH [of r1 x1 g1] Cons.IH [of r x g] Cons.prems show ?case
      by (cases r) simp_all
  qed simp
  obtain r1 x1 g1 where f: "foldl ?f (Inr (), x, g) parts = (r1, x1, g1)" by (rule prod_cases3)
  with keep [OF f] assms(2,3) show ?thesis by (cases r1) (simp_all add: put_status_def)
qed

text \<open>
  \<open>tidy\<close>: a request returned, with the disk usable, the image of the same size and
  \<open>I\<close> kept of the guest.
\<close>

definition tidy ::
  "int set \<Rightarrow> (int \<Rightarrow> 'n \<Rightarrow> bool) \<Rightarrow> ('n \<Rightarrow> bytes) \<Rightarrow> ('g \<Rightarrow> bool) \<Rightarrow> 'n \<Rightarrow>
   ((BlockReqError, u32) result \<times> BlockDisk \<times> 'g \<times> 'n) option \<Rightarrow> bool" where
  "tidy fds idle img I n y \<longleftrightarrow>
     (\<exists>r d' g' n'. y = Some (r, d', g', n') \<and> disk_wf fds idle d' n' \<and> length (img n') = length (img n) \<and> I g')"

lemma tidy_put:
  assumes "io_keeps V I" and "disk_wf fds idle d' n'" and "length (img n') = length (img n)" and "I g"
  shows "tidy fds idle img I n (case put_status V parts k x g of (r, g) \<Rightarrow> Some (r, d', g, n'))"
proof -
  obtain r g2 where p: "put_status V parts k x g = (r, g2)" by force
  with put_status_keeps [OF assms(1,4) p] assms show ?thesis by (simp add: tidy_def)
qed

lemma req_in_tidy:
  assumes law: "disk_law H fds img \<mu> idle" and wf: "disk_wf fds idle d n" and io: "io_keeps V I" and I: "I g"
    and room: "x_avail V x < 2 ^ 64" and cap: "unat cap * 512 < 2 ^ 64"
  shows "tidy fds idle img I n (req_in V H cap sector x d g n)"
proof (cases "x_avail V x = 0 \<or> req_range sector (x_avail V x - 1) = None")
  case True
  then have "\<exists>e. req_in V H cap sector x d g n = Some (Inl e, d, g, n)"
    by (auto simp: req_in_def Let_def)
  with wf I show ?thesis by (auto simp: tidy_def)
next
  case False
  then obtain off e where range: "req_range sector (x_avail V x - 1) = Some (off, e)" by auto
  have l: "x_avail V x - 1 < 2 ^ 64" using room by simp
  obtain r d1 n1 where f: "req_fill H cap off e (x_avail V x - 1) d n = Some (r, d1, n1)" "img n1 = img n"
    "disk_wf fds idle d1 n1"
    using req_fill_spec [OF law wf range l cap] by blast
  show ?thesis
  proof (cases "\<exists>s data. r = Inr s \<and> ab_as_slice (x_avail V x - 1) (scratch d1) = Inr data")
    case True
    then obtain s data where "r = Inr s" "ab_as_slice (x_avail V x - 1) (scratch d1) = Inr data" by blast
    with False range f tidy_put [OF io f(3) _ I] show ?thesis by (simp add: req_in_def Let_def)
  next
    case nodata: False
    then have "\<exists>e. req_in V H cap sector x d g n = Some (Inl e, d1, g, n1)"
      using False range f(1)
      by (cases r; cases "ab_as_slice (x_avail V x - 1) (scratch d1)") (auto simp: req_in_def Let_def)
    with f I show ?thesis by (auto simp: tidy_def)
  qed
qed

lemma req_take_tidy:
  assumes law: "disk_law H fds img \<mu> idle" and wf: "disk_wf fds idle d n" and io: "io_keeps V I" and I: "I g" and rl: "reader_law V"
    and run: "req_take V H rd d g n = (r, d1, g1, n1)"
  shows "img n1 = img n" and "disk_wf fds idle d1 n1" and "I g1"
    and "r = Inr k \<Longrightarrow> k = r_avail V rd"
proof -
  obtain q b m where e: "ab_ensure H (r_avail V rd) (scratch d) n = (q, b, m)" by (metis prod_cases3)
  have s: "img m = img n" "disk_wf fds idle (d\<lparr>scratch := b\<rparr>) m" "q = Inr () \<Longrightarrow> r_avail V rd \<le> ab_cap b"
    using ab_ensure_spec [OF law wf e] by simp_all
  obtain p rd' g2 where p: "r_read_exact V (r_avail V rd) rd g = (p, rd', g2)" by (metis prod_cases3)
  have len: "p = Inr bs \<Longrightarrow> length bs = r_avail V rd" for bs using rl p unfolding reader_law_def by blast
  show "img n1 = img n" and "disk_wf fds idle d1 n1" and "I g1"
    and "r = Inr k \<Longrightarrow> k = r_avail V rd"
    using run e s p len io_keepsD(1) [OF io p I] I
    by (auto simp: req_take_def Let_def ab_store_def disk_wf_def split: sum.splits)
qed

lemma req_out_tidy:
  assumes law: "disk_law H fds img \<mu> idle" and wf: "disk_wf fds idle d n" and io: "io_keeps V I" and I: "I g" and rl: "reader_law V"
    and room: "r_avail V rd < 2 ^ 64" and cap: "unat cap * 512 = length (img n)" "length (img n) < 2 ^ 64"
  shows "tidy fds idle img I n (req_out V H cap ro feats sector rd x d g n)"
proof -
  obtain r d1 g1 n1 where t: "req_take V H rd d g n = (r, d1, g1, n1)" by (metis prod_cases4)
  note s = req_take_tidy [OF law wf io I rl t]
  show ?thesis
  proof (cases "\<exists>k off e. r = Inr k \<and> req_range sector k = Some (off, e)")
    case False
    then have "\<exists>e. req_out V H cap ro feats sector rd x d g n = Some (Inl e, d1, g1, n1)"
      using t by (cases r) (auto simp: req_out_def split: option.splits)
    with s show ?thesis by (auto simp: tidy_def)
  next
    case True
    then obtain k off e where r: "r = Inr k" and range: "req_range sector k = Some (off, e)" by blast
    have l: "k < 2 ^ 64" using room s(4) [OF r] by simp
    have c: "unat cap * 512 < 2 ^ 64" using cap by simp
    note rs = req_range_spec [OF range l]
    show ?thesis
    proof (cases "\<not> (ro \<or> feats AND VIRTIO_BLK_F_RO \<noteq> 0) \<and> \<not> e > cap * SECTOR_SIZE")
      case False
      with t r range tidy_put [OF io s(2) _ s(3)] s(1) show ?thesis
        by (auto simp: req_out_def Let_def)
    next
      case True
      then have "unat off + k \<le> length (img n1)" using rs(1) rs(3) [OF c] cap s(1) by (simp add: in_range_def)
      then obtain q d2 n2 where w: "write_at H off k d1 n1 = Some (q, d2, n2)"
        "length (img n2) = length (img n1)" "disk_wf fds idle d2 n2"
        using write_at_spec [OF law s(2) rs(2)] by (auto dest: scribble_length)
      with True t r range tidy_put [OF io w(3) _ s(3)] s(1) show ?thesis
        by (simp add: req_out_def Let_def)
    qed
  qed
qed

lemma req_flush_tidy:
  assumes law: "disk_law H fds img \<mu> idle" and wf: "disk_wf fds idle d n" and io: "io_keeps V I" and I: "I g"
  shows "tidy fds idle img I n (req_flush V H ro feats x d g n)"
proof -
  obtain r d1 n1 where f: "flush_data H d n = Some (r, d1, n1)" "img n1 = img n" "disk_wf fds idle d1 n1"
    using flush_data_spec [OF law wf] by blast
  show ?thesis
  proof (cases "feats AND VIRTIO_BLK_F_FLUSH = 0 \<or> ro")
    case True
    with tidy_put [OF io wf _ I] show ?thesis by (auto simp: req_flush_def)
  next
    case False
    with f tidy_put [OF io f(3) _ I] show ?thesis by (simp add: req_flush_def)
  qed
qed

lemma req_unsupported_tidy:
  assumes law: "disk_law H fds img \<mu> idle" and wf: "disk_wf fds idle d n" and io: "io_keeps V I" and I: "I g"
  shows "tidy fds idle img I n (Some (req_unsupported V H x d g n))"
proof -
  obtain q d1 n1 where z: "zero_scratch H (x_avail V x - 1) d n = (q, d1, n1)" by (rule prod_cases3)
  note s = zero_scratch_spec(1,2) [OF law wf z]
  have keep: "x_write_all V bs y w = (r, y', w') \<Longrightarrow> I w \<Longrightarrow> I w'" for bs y w r y' w'
    by (rule io_keepsD(2) [OF io])
  show ?thesis
    using z s wf I
    by (auto simp: req_unsupported_def tidy_def Let_def split: prod.splits sum.splits dest!: keep)
qed

lemma handle_request_tidy:
  assumes law: "disk_law H fds img \<mu> idle" and wf: "disk_wf fds idle d n" and io: "io_keeps V I" and I: "I g"
    and rl: "reader_law V" and cl: "chain_law V" and cap: "unat cap * 512 = length (img n)" "length (img n) < 2 ^ 64"
  shows "tidy fds idle img I n (handle_request V H cap ro feats c d g n)"
proof (cases "is_err (reader_new V c g) \<or> is_err (writer_new V c g)")
  case True
  with wf I show ?thesis by (auto simp: handle_request_def tidy_def is_err_iff split: sum.splits)
next
  case False
  then obtain rd x where new: "reader_new V c g = Inr rd" "writer_new V c g = Inr x"
    by (auto simp: is_err_def split: sum.splits)
  obtain hb rd1 g1 where h: "r_read_exact V HDR_LEN rd g = (hb, rd1, g1)" by (rule prod_cases3)
  have g1: "I g1" using io_keepsD(1) [OF io h I] .
  have sz: "x_avail V x < 2 ^ 64" "r_avail V rd1 < 2 ^ 64" and c: "unat cap * 512 < 2 ^ 64"
    using cl new h cap unfolding chain_law_def by (blast, meson order.strict_trans1, simp)
  note kinds = req_in_tidy [OF law wf io g1 sz(1) c] req_out_tidy [OF law wf io g1 rl sz(2) cap]
    req_flush_tidy [OF law wf io g1] req_unsupported_tidy [OF law wf io g1] tidy_put [OF io wf _ g1]
  have id: "tidy fds idle img I n (case req_get_id V x g1 of (r, g) \<Rightarrow> Some (r, d, g, n))"
    using kinds(5) wf g1 by (simp add: req_get_id_def) (simp add: tidy_def)
  show ?thesis
  proof (cases hb)
    case (Inl e)
    with new h wf g1 show ?thesis by (simp add: handle_request_def tidy_def)
  next
    case (Inr bs)
    then show ?thesis
      using new h kinds(1-4) id by (auto simp: handle_request_def Let_def)
  qed
qed

text \<open>
  The queue ends: a chain taken lowers \<open>\<nu>\<close>, the number of chains the guest has made
  available, and nothing raises it while the queue is served.
\<close>

definition queue_ends :: "('q, 'c, 'r, 'x, 'w) virtq \<Rightarrow> ('w \<Rightarrow> nat) \<Rightarrow> bool" where
  "queue_ends V \<nu> \<longleftrightarrow>
     (\<forall>q w r q' w'. q_pop V q w = (r, q', w') \<longrightarrow> (if r = None then \<nu> w' \<le> \<nu> w else \<nu> w' < \<nu> w)) \<and>
     (\<forall>h n q w r q' w'. q_add_used V h n q w = (r, q', w') \<longrightarrow> \<nu> w' \<le> \<nu> w) \<and>
     (\<forall>n rd w r rd' w'. r_read_exact V n rd w = (r, rd', w') \<longrightarrow> \<nu> w' \<le> \<nu> w) \<and>
     (\<forall>bs x w r x' w'. x_write_all V bs x w = (r, x', w') \<longrightarrow> \<nu> w' \<le> \<nu> w)"

text \<open>What the virtual CPUs may do to the transport meanwhile: registers, but no chains.\<close>

definition env_law ::
  "('q BlockTransport \<Rightarrow> 'g \<Rightarrow> 'q BlockTransport \<times> 'g) \<Rightarrow> ('g \<Rightarrow> u16 list) \<Rightarrow> ('g \<Rightarrow> u16 list) \<Rightarrow> ('g \<Rightarrow> nat) \<Rightarrow> bool" where
  "env_law env tk rt \<nu> \<longleftrightarrow>
     (\<forall>t g t' g'. env t g = (t', g') \<longrightarrow>
        capacity_sectors t' = capacity_sectors t \<and> tk g' = tk g \<and> rt g' = rt g \<and> \<nu> g' \<le> \<nu> g)"

lemma keeps_count:
  assumes "queue_log V tk rt" and "queue_ends V \<nu>"
  shows "io_keeps V (\<lambda>w. tk w = a \<and> rt w = b \<and> \<nu> w \<le> k)"
  unfolding io_keeps_def
proof (intro conjI allI impI)
  fix n rd w r rd' w' assume s: "r_read_exact V n rd w = (r, rd', w')" "tk w = a \<and> rt w = b \<and> \<nu> w \<le> k"
  moreover have "\<nu> w' \<le> \<nu> w" using assms(2) s(1) unfolding queue_ends_def by blast
  ultimately show "tk w' = a" "rt w' = b" "\<nu> w' \<le> k" using read_exact_log [OF assms(1) s(1)] by auto
next
  fix bs x w r x' w' assume s: "x_write_all V bs x w = (r, x', w')" "tk w = a \<and> rt w = b \<and> \<nu> w \<le> k"
  moreover have "\<nu> w' \<le> \<nu> w" using assms(2) s(1) unfolding queue_ends_def by blast
  ultimately show "tk w' = a" "rt w' = b" "\<nu> w' \<le> k" using write_all_log [OF assms(1) s(1)] by auto
qed

lemma mmio_ends:
  assumes "queue_ends V \<nu>"
  shows "mmio_pop V i m w = (Some c, m', w') \<Longrightarrow> \<nu> w' < \<nu> w"
    and "mmio_add_used V wrap missing i h k m w = (u, m', w') \<Longrightarrow> \<nu> w' \<le> \<nu> w"
proof -
  have pop: "q_pop V q w = (Some c, q', w') \<Longrightarrow> \<nu> w' < \<nu> w"
    and add: "q_add_used V h k q w = (u, q', w') \<Longrightarrow> \<nu> w' \<le> \<nu> w" for q q' w' u
    using assms unfolding queue_ends_def by (metis option.distinct(1), blast)
  show "mmio_pop V i m w = (Some c, m', w') \<Longrightarrow> \<nu> w' < \<nu> w"
    and "mmio_add_used V wrap missing i h k m w = (u, m', w') \<Longrightarrow> \<nu> w' \<le> \<nu> w"
    by (auto simp: mmio_pop_def mmio_add_used_def split: option.splits prod.splits sum.splits dest!: pop add)
qed

definition drained :: "('q, 'c, 'r, 'x, 'w) virtq \<Rightarrow> 'q VirtioMmio \<Rightarrow> 'w \<Rightarrow> bool" where
  "drained V m w \<longleftrightarrow>
     \<not> queue_is_ready V m QUEUE_REQUEST \<or> (\<exists>m0 w0. mmio_pop V QUEUE_REQUEST m0 w0 = (None, m, w))"

definition serving ::
  "int set \<Rightarrow> (int \<Rightarrow> 'n \<Rightarrow> bool) \<Rightarrow> ('n \<Rightarrow> bytes) \<Rightarrow> ('g \<Rightarrow> u16 list) \<Rightarrow> ('g \<Rightarrow> u16 list) \<Rightarrow> 'g \<Rightarrow>
   bool \<times> 'q BlockTransport \<times> BlockDisk \<times> 'g \<times> 'n \<Rightarrow> bool" where
  "serving fds idle img tk rt g0 = (\<lambda>(used, t, d, g, n).
     disk_wf fds idle d n \<and> unat (capacity_sectors t) * 512 = length (img n) \<and> length (img n) < 2 ^ 64 \<and>
     (\<exists>hs. returns_all tk rt g0 g hs \<and> used = (hs \<noteq> [])))"

definition served ::
  "('q, 'c, 'r, 'x, 'g) virtq \<Rightarrow> int set \<Rightarrow> (int \<Rightarrow> 'n \<Rightarrow> bool) \<Rightarrow> ('g \<Rightarrow> u16 list) \<Rightarrow> ('g \<Rightarrow> u16 list) \<Rightarrow> 'g \<Rightarrow>
   (error, bool) result \<times> 'q BlockTransport \<times> BlockDisk \<times> 'g \<times> 'n \<Rightarrow> bool" where
  "served V fds idle tk rt g0 = (\<lambda>(r, t, d, g, n).
     disk_wf fds idle d n \<and>
     (\<exists>hs. tk g = tk g0 @ hs \<and>
        (\<forall>used. r = Inr used \<longrightarrow> rt g = rt g0 @ hs \<and> used = (hs \<noteq> []) \<and> drained V (bt_mmio t) g)))"

lemma queue_turn:
  assumes law: "disk_law H fds img \<mu> idle" and log: "queue_log V tk rt" and ends: "queue_ends V \<nu>"
    and rl: "reader_law V" and cl: "chain_law V" and el: "env_law env tk rt \<nu>"
    and inv: "serving fds idle img tk rt g0 (used, t, d, g, n)"
  shows "(\<exists>y. queue_loop V H env used t d g n = Some y \<and> served V fds idle tk rt g0 y) \<or>
    (\<exists>used' t' d' g' n'. queue_loop V H env used t d g n = queue_loop V H env used' t' d' g' n' \<and>
       serving fds idle img tk rt g0 (used', t', d', g', n') \<and> \<nu> g' < \<nu> g)"
proof -
  obtain hs where hs: "returns_all tk rt g0 g hs" "used = (hs \<noteq> [])" using inv by (auto simp: serving_def)
  have st: "disk_wf fds idle d n" "unat (capacity_sectors t) * 512 = length (img n)" "length (img n) < 2 ^ 64"
    using inv by (auto simp: serving_def)
  obtain c m g1 where p: "mmio_pop V QUEUE_REQUEST (bt_mmio t) g = (c, m, g1)" by (rule prod_cases3)
  note pl = mmio_pop_log [OF log p]
  show ?thesis
  proof (cases "queue_is_ready V (bt_mmio t) QUEUE_REQUEST \<and> c \<noteq> None")
    case False
    with p pl hs st show ?thesis
      by (subst (1 2) queue_loop.simps)
        (cases c; auto simp: served_def returns_all_def drained_def)
  next
    case True
    then obtain ch where c: "c = Some ch" and ready: "queue_is_ready V (bt_mmio t) QUEUE_REQUEST" by blast
    let ?I = "\<lambda>w. tk w = tk g1 \<and> rt w = rt g1 \<and> \<nu> w \<le> \<nu> g1"
    have "tidy fds idle img ?I n
        (handle_request V H (capacity_sectors t) (bt_readonly t) (driver_features m) ch d g1 n)"
      by (rule handle_request_tidy [OF law st(1) keeps_count [OF log ends] _ rl cl st(2,3)]) simp
    then obtain r d2 g2 n2 where h:
      "handle_request V H (capacity_sectors t) (bt_readonly t) (driver_features m) ch d g1 n = Some (r, d2, g2, n2)"
      "disk_wf fds idle d2 n2" "length (img n2) = length (img n)" "tk g2 = tk g1" "rt g2 = rt g1" "\<nu> g2 \<le> \<nu> g1"
      by (auto simp: tidy_def)
    obtain t3 g3 where e: "env (t\<lparr>bt_mmio := m\<rparr>) g2 = (t3, g3)" by force
    have e': "capacity_sectors t3 = capacity_sectors t" "tk g3 = tk g2" "rt g3 = rt g2" "\<nu> g3 \<le> \<nu> g2"
      using el e unfolding env_law_def by (metis BlockTransport.select_convs(2) BlockTransport.surjective BlockTransport.update_convs(1))+
    obtain a m4 g4 where a: "mmio_add_used V Block ''missing request queue'' QUEUE_REQUEST (c_head V ch)
        (case r of Inl _ \<Rightarrow> 1 | Inr k \<Rightarrow> k) (bt_mmio t3) g3 = (a, m4, g4)" by (rule prod_cases3)
    note al = mmio_add_used_log [OF log a]
    have loop: "queue_loop V H env used t d g n = (case a of
        Inl e \<Rightarrow> Some (Inl e, t3\<lparr>bt_mmio := m4\<rparr>, d2, g4, n2)
      | Inr _ \<Rightarrow> queue_loop V H env True (t3\<lparr>bt_mmio := m4\<rparr>) d2 g4 n2)"
      using ready p c h(1) e a by (subst queue_loop.simps) (simp split: sum.splits)
    have less: "\<nu> g4 < \<nu> g"
      using mmio_ends(1) [OF ends p [unfolded c]] mmio_ends(2) [OF ends a] h(6) e'(4) by linarith
    have tk4: "tk g4 = tk g0 @ hs @ [c_head V ch]"
      using pl(1) h(4) e'(2) al(2) hs(1) c by (simp add: returns_all_def)
    have rt4: "rt g4 = rt g0 @ hs @ (case a of Inl _ \<Rightarrow> [] | Inr _ \<Rightarrow> [c_head V ch])"
      using pl(2) h(5) e'(3) al(1) hs(1) by (simp add: returns_all_def)
    show ?thesis
    proof (cases a)
      case (Inl e)
      then have "served V fds idle tk rt g0 (Inl e, t3\<lparr>bt_mmio := m4\<rparr>, d2, g4, n2)"
        using tk4 h(2) by (simp add: served_def)
      with loop Inl show ?thesis by simp
    next
      case (Inr v)
      then have "serving fds idle img tk rt g0 (True, t3\<lparr>bt_mmio := m4\<rparr>, d2, g4, n2)"
        using tk4 rt4 h(2,3) st(2,3) e'(1) by (auto simp: serving_def returns_all_def)
      with loop Inr less show ?thesis by auto
    qed
  qed
qed

lemma queue_loop_spec:
  assumes law: "disk_law H fds img \<mu> idle" and log: "queue_log V tk rt" and ends: "queue_ends V \<nu>"
    and rl: "reader_law V" and cl: "chain_law V" and el: "env_law env tk rt \<nu>"
    and inv: "serving fds idle img tk rt g0 (used, t, d, g, n)"
  shows "\<exists>y. queue_loop V H env used (t :: 'a BlockTransport) d g n = Some y \<and> served V fds idle tk rt g0 y"
proof -
  let ?f = "\<lambda>(used, t, d, g, n). queue_loop V H env used t d g n"
  let ?I = "serving fds idle img tk rt g0 :: bool \<times> 'a BlockTransport \<times> _ \<Rightarrow> bool"
  let ?R = "measure (\<lambda>(used :: bool, t :: 'a BlockTransport, d :: BlockDisk, g, n). \<nu> g)"
  have "\<exists>y. ?f (used, t, d, g, n) = Some y \<and> served V fds idle tk rt g0 y"
  proof (rule loop_returns [of ?R ?I])
    fix s assume s: "?I s"
    obtain used t d g n where [simp]: "s = (used, t, d, g, n)" by (cases s)
    from queue_turn [OF law log ends rl cl el, of g0 used t d g n] s
    show "(\<exists>y. ?f s = Some y \<and> served V fds idle tk rt g0 y) \<or> (\<exists>s'. ?f s = ?f s' \<and> ?I s' \<and> (s', s) \<in> ?R)"
      by auto
  qed (use inv in simp_all)
  then show ?thesis by simp
qed


lemma sim_queue_ends: "queue_ends sim_virtq (\<lambda>w. length (sim_avail w))"
  by (auto simp: queue_ends_def sim_virtq_def split: list.splits if_splits)

definition sim_transport :: "sim_queue BlockTransport" where
  "sim_transport =
     \<lparr>bt_mmio = \<lparr>mmio_base = VIRTIO_MMIO_BASE, device_id = VIRTIO_ID_BLOCK, device_features = 0, mmio_status = 0,
        device_features_sel = 0, driver_features_sel = 0, driver_features = 0, queue_sel = 0,
        interrupt_status = 0, irq_fd = 7, notify_fd = 8,
        queues = [\<lparr>sq_max = 8, sq_size = 8, sq_ready = True, sq_desc = (Some 0, None)\<rparr>]\<rparr>,
      capacity_sectors = 1, bt_readonly = False\<rparr>"

declare queue_loop.simps [code]

text \<open>A request for the identity, then one whose header is cut short.\<close>

definition sim_two_requests :: sim_world where
  "sim_two_requests = sim_guest
     [\<lparr>sc_head = 3, sc_in = blk_header 8 0, sc_room = 21\<rparr>, \<lparr>sc_head = 4, sc_in = [1, 2, 3], sc_room = 1\<rparr>]"

lemma sim_two_requests_run:
  "case process_queue sim_virtq sim_evfd sim_hostio Pair sim_transport sim_disk sim_two_requests sim_sector of
     Some (r, t, d, g, n) \<Rightarrow> r = Inr () \<and> sim_used g = [(3, 21), (4, 1)] | _ \<Rightarrow> False"
  by code_simp


definition sim_far_read :: sim_chain where
  "sim_far_read = \<lparr>sc_head = 3, sc_in = blk_header VIRTIO_BLK_T_IN 0x8000000000000000, sc_room = 513\<rparr>"

lemma sim_far_read_fails:
  "handle_request sim_virtq sim_hostio cap ro feats sim_far_read d g n = Some (Inl ReqIo, d, g, n)"
proof -
  have "length (blk_header VIRTIO_BLK_T_IN 0x8000000000000000) = HDR_LEN" by (simp add: blk_header_def HDR_LEN_def)
  then have "r_read_exact sim_virtq HDR_LEN (sc_in sim_far_read) g = (Inr (blk_header VIRTIO_BLK_T_IN 0x8000000000000000), [], g)"
    by (simp add: sim_virtq_def sim_far_read_def)
  moreover have "reader_new sim_virtq sim_far_read g = Inr (sc_in sim_far_read)" "writer_new sim_virtq sim_far_read g = Inr (3, 513)"
    "x_avail sim_virtq (3, 513) = 513"
    by (simp_all add: sim_virtq_def sim_far_read_def blk_header_def)
  moreover have "req_range 0x8000000000000000 512 = None"
    by (simp add: req_range_def checked_mul_def SECTOR_SIZE_def)
  ultimately show ?thesis
    by (simp add: handle_request_def hdr_of_blk_header req_in_def)
qed


end
