(* ===== verification/VirtioNet.thy ===== *)
theory VirtioNet
  imports VirtioDev "HOL-Library.Monad_Syntax"
begin

text \<open>
  \<^verbatim>\<open>src/devices/virtio_net.rs\<close>: the virtio-net device over a host TAP interface. As for the
  vsock device, the guest's side of the world is \<open>'g\<close> and the host's side \<open>'n\<close>. An
  operation that may loop or panic returns an option, \<open>None\<close> when it does either.
\<close>

definition VIRTIO_ID_NET :: u32 where [const_defs]: "VIRTIO_ID_NET = 1"
definition VIRTIO_NET_F_CSUM :: u64 where [const_defs]: "VIRTIO_NET_F_CSUM = push_bit 0 1"
definition VIRTIO_NET_F_GUEST_CSUM :: u64 where [const_defs]: "VIRTIO_NET_F_GUEST_CSUM = push_bit 1 1"
definition VIRTIO_NET_F_MAC :: u64 where [const_defs]: "VIRTIO_NET_F_MAC = push_bit 5 1"
definition VIRTIO_NET_F_GUEST_TSO4 :: u64 where [const_defs]: "VIRTIO_NET_F_GUEST_TSO4 = push_bit 7 1"
definition VIRTIO_NET_F_GUEST_TSO6 :: u64 where [const_defs]: "VIRTIO_NET_F_GUEST_TSO6 = push_bit 8 1"
definition VIRTIO_NET_F_GUEST_ECN :: u64 where [const_defs]: "VIRTIO_NET_F_GUEST_ECN = push_bit 9 1"
definition VIRTIO_NET_F_HOST_TSO4 :: u64 where [const_defs]: "VIRTIO_NET_F_HOST_TSO4 = push_bit 11 1"
definition VIRTIO_NET_F_HOST_TSO6 :: u64 where [const_defs]: "VIRTIO_NET_F_HOST_TSO6 = push_bit 12 1"
definition VIRTIO_NET_F_HOST_ECN :: u64 where [const_defs]: "VIRTIO_NET_F_HOST_ECN = push_bit 13 1"
definition VIRTIO_NET_F_STATUS :: u64 where [const_defs]: "VIRTIO_NET_F_STATUS = push_bit 16 1"
definition BASE_FEATURES :: u64 where [const_defs]:
  "BASE_FEATURES = VIRTIO_F_VERSION_1 OR VIRTIO_NET_F_MAC OR VIRTIO_NET_F_STATUS"
definition OFFLOAD_FEATURES :: u64 where [const_defs]:
  "OFFLOAD_FEATURES = VIRTIO_NET_F_CSUM OR VIRTIO_NET_F_GUEST_CSUM OR VIRTIO_NET_F_HOST_TSO4 OR
     VIRTIO_NET_F_HOST_TSO6 OR VIRTIO_NET_F_HOST_ECN OR VIRTIO_NET_F_GUEST_TSO4 OR
     VIRTIO_NET_F_GUEST_TSO6 OR VIRTIO_NET_F_GUEST_ECN"
definition VIRTIO_NET_S_LINK_UP :: u16 where [const_defs]: "VIRTIO_NET_S_LINK_UP = 1"
definition NET_QUEUE_RX :: u32 where [const_defs]: "NET_QUEUE_RX = 0"
definition NET_QUEUE_TX :: u32 where [const_defs]: "NET_QUEUE_TX = 1"
definition NET_QUEUE_MAX_SIZE :: u16 where [const_defs]: "NET_QUEUE_MAX_SIZE = 256"
definition NET_HDR_LEN :: nat where [const_defs]: "NET_HDR_LEN = 12"
definition MAX_FRAME :: nat where [const_defs]: "MAX_FRAME = 65536 + 18 + NET_HDR_LEN"
definition IFF_TAP :: u16 where [const_defs]: "IFF_TAP = 0x0002"
definition IFF_NO_PI :: u16 where [const_defs]: "IFF_NO_PI = 0x1000"
definition IFF_VNET_HDR :: u16 where [const_defs]: "IFF_VNET_HDR = 0x4000"
definition TUN_F_CSUM :: u32 where [const_defs]: "TUN_F_CSUM = 0x01"
definition TUN_F_TSO4 :: u32 where [const_defs]: "TUN_F_TSO4 = 0x02"
definition TUN_F_TSO6 :: u32 where [const_defs]: "TUN_F_TSO6 = 0x04"
definition TUN_F_TSO_ECN :: u32 where [const_defs]: "TUN_F_TSO_ECN = 0x08"
definition TUN_OFFLOADS :: u32 where [const_defs]:
  "TUN_OFFLOADS = TUN_F_CSUM OR TUN_F_TSO4 OR TUN_F_TSO6 OR TUN_F_TSO_ECN"
definition CONFIG_SIZE :: nat where [const_defs]: "CONFIG_SIZE = 8"

section \<open>The state\<close>

record PendingTx =
  ptx_head :: u16
  ptx_len :: nat

record 'q NetState =
  nt_mmio :: "'q VirtioMmio"
  nt_tap :: int
  nt_mac :: bytes
  rx_scratch :: bytes
  tx_scratch :: bytes
  pending_tx :: "PendingTx option"
  pending_rx_len :: "nat option"

definition net_config_space :: "bytes \<Rightarrow> bytes" where
  "net_config_space mac = take 6 mac @ le_bytes 2 VIRTIO_NET_S_LINK_UP"

definition net_copy_config :: "'q NetState \<Rightarrow> bytes \<Rightarrow> bytes \<times> nat" where
  "net_copy_config st dest =
     (let cfg = net_config_space (nt_mac st); n = min (length cfg) (length dest)
      in (take n cfg @ drop n dest, length cfg))"

definition net_state_ops :: "('q NetState, 'q) VirtioState" where
  "net_state_ops =
     \<lparr>vs_mmio = nt_mmio, vs_set_mmio = (\<lambda>m st. st\<lparr>nt_mmio := m\<rparr>), vs_copy_config = net_copy_config\<rparr>"

lemma length_net_config: "length (net_config_space mac) \<le> CONFIG_SIZE"
  by (simp add: net_config_space_def CONFIG_SIZE_def)

interpretation net: virtio_state net_state_ops "\<lambda>st. net_config_space (nt_mac st)"
proof unfold_locales
  fix s :: "'q NetState" and d :: bytes
  have len: "length (net_config_space (nt_mac s)) \<le> 8"
    using length_net_config [of "nt_mac s"] by (simp add: CONFIG_SIZE_def)
  then show "length (net_config_space (nt_mac s)) \<le> CONFIG_CAP" by (simp add: CONFIG_CAP_def)
  assume "length d = CONFIG_CAP"
  with len show "vs_copy_config net_state_ops s d =
      (net_config_space (nt_mac s) @ drop (length (net_config_space (nt_mac s))) d, length (net_config_space (nt_mac s)))"
    by (simp add: net_state_ops_def net_copy_config_def CONFIG_CAP_def Let_def)
qed (simp_all add: net_state_ops_def)

section \<open>The TAP interface\<close>

text \<open>
  The system calls on the TAP: opening \<^verbatim>\<open>/dev/net/tun\<close>, the three configuration calls,
  closing, and one read or write of a frame. Errors are error numbers.
\<close>

record 'n tun =
  tn_open :: "'n \<Rightarrow> (int, int, 'n) effect"
  tn_setiff :: "int \<Rightarrow> bytes \<Rightarrow> u16 \<Rightarrow> 'n \<Rightarrow> (int, unit, 'n) effect"
  tn_setvnethdrsz :: "int \<Rightarrow> nat \<Rightarrow> 'n \<Rightarrow> (int, unit, 'n) effect"
  tn_setoffload :: "int \<Rightarrow> u32 \<Rightarrow> 'n \<Rightarrow> (int, unit, 'n) effect"
  tn_close :: "int \<Rightarrow> 'n \<Rightarrow> 'n"
  tn_write :: "int \<Rightarrow> bytes \<Rightarrow> 'n \<Rightarrow> (int, nat, 'n) effect"
  tn_read :: "int \<Rightarrow> nat \<Rightarrow> 'n \<Rightarrow> (int, bytes, 'n) effect"

definition open_tap :: "'n tun \<Rightarrow> bytes \<Rightarrow> 'n \<Rightarrow> (error, int \<times> bool, 'n) effect" where
  "open_tap T ifname n =
     (if ifname = [] \<or> length ifname \<ge> 16
      then (Inl (Net (Msg ''TAP interface name must be 1..15 bytes'')), n)
      else case tn_open T n of
        (Inl e, n) \<Rightarrow> (Inl (Net (MsgIo ''open /dev/net/tun: '' (Os e))), n)
      | (Inr fd, n) \<Rightarrow>
          (case tn_setiff T fd (ifname @ replicate (16 - length ifname) 0) (IFF_TAP OR IFF_NO_PI OR IFF_VNET_HDR) n of
            (Inl e, n) \<Rightarrow> (Inl (Net (MsgPath ''TUNSETIFF '' ifname '': '' (Some (Os e)))), tn_close T fd n)
          | (Inr _, n) \<Rightarrow>
              (case tn_setvnethdrsz T fd NET_HDR_LEN n of
                (Inl e, n) \<Rightarrow> (Inl (Net (MsgIo ''TUNSETVNETHDRSZ: '' (Os e))), tn_close T fd n)
              | (Inr _, n) \<Rightarrow>
                  (case tn_setoffload T fd TUN_OFFLOADS n of
                    (r, n) \<Rightarrow> (Inr (fd, \<not> is_err r), n)))))"

definition net_advertised_features :: "bool \<Rightarrow> u64" where
  "net_advertised_features offloads =
     (if offloads then BASE_FEATURES OR OFFLOAD_FEATURES else BASE_FEATURES)"

definition fnv1a :: "bytes \<Rightarrow> u32" where
  "fnv1a name = fold (\<lambda>b h. (h XOR ucast b) * 0x01000193) name 0x811c9dc5"

definition mac_from_name :: "bytes \<Rightarrow> bytes" where
  "mac_from_name ifname =
     (let h = fnv1a ifname
      in [0x52, 0x54, 0x00, ucast (drop_bit 16 h AND 0xff), ucast (drop_bit 8 h AND 0xff), ucast (h AND 0xff)])"

definition VirtioNet_new ::
  "('q, 'c, 'r, 'x, 'g) virtq \<Rightarrow> 'g evfd \<Rightarrow> 'g kvm_wiring \<Rightarrow> 'n tun \<Rightarrow> bytes \<Rightarrow> 'g \<Rightarrow> 'n \<Rightarrow>
   (error, ('q NetState, 'h) VirtioDev) result \<times> 'g \<times> 'n" where
  "VirtioNet_new V E K T ifname g n =
     (case open_tap T ifname n of
       (Inl e, n) \<Rightarrow> (Inl e, g, n)
     | (Inr (tap, offloads), n) \<Rightarrow>
         (case
            try_then (VirtioMmio_new V E VIRTIO_NET_MMIO_BASE VIRTIO_ID_NET
                        (net_advertised_features offloads) 2 NET_QUEUE_MAX_SIZE g) (\<lambda>m g.
            try_then (map_err KvmIoctl (register_irq K m VIRTIO_NET_IRQ g)) (\<lambda>_ g.
            try_then (map_err KvmIoctl (register_ioeventfds K m g)) (\<lambda>_ g.
            VirtioDev_new net_state_ops E VIRTIO_NET_MMIO_BASE
              \<lparr>nt_mmio = m, nt_tap = tap, nt_mac = mac_from_name ifname, rx_scratch = replicate MAX_FRAME 0,
               tx_scratch = [], pending_tx = None, pending_rx_len = None\<rparr> g)))
          of
            (Inl e, g) \<Rightarrow> (Inl e, g, tn_close T tap n)
          | (Inr d, g) \<Rightarrow> (Inr d, g, n)))"

definition net_start_worker ::
  "'g evfd \<Rightarrow> (EventFd \<Rightarrow> 'g \<Rightarrow> (io_error, 'h, 'g) effect) \<Rightarrow> ('q NetState, 'h) VirtioDev \<Rightarrow> 'g \<Rightarrow>
   (error, unit) result \<times> ('q NetState, 'h) VirtioDev \<times> 'g" where
  "net_start_worker = start_thread Net"

definition net_stop_worker ::
  "'g evfd \<Rightarrow> ('h \<Rightarrow> 'g \<Rightarrow> (error, unit) result option \<times> 'g) \<Rightarrow> ('q NetState, 'h) VirtioDev \<Rightarrow> 'g \<Rightarrow>
   ((error, unit) result \<times> ('q NetState, 'h) VirtioDev \<times> 'g) option" where
  "net_stop_worker = stop_thread (Net (Msg ''virtio-net worker panicked''))"

section \<open>Sending\<close>

datatype TapSend = Sent | SendWouldBlock

partial_function (option) tap_try_send ::
  "'n tun \<Rightarrow> int \<Rightarrow> bytes \<Rightarrow> 'n \<Rightarrow> (error, TapSend, 'n) effect option" where
  "tap_try_send T tap packet n =
     (case tn_write T tap packet n of
       (Inr k, n) \<Rightarrow>
         if k = length packet then Some (Inr Sent, n)
         else Some (Inl (Net (Msg (''tap short write: '' @ decimal k @ ''/'' @ decimal (length packet)))), n)
     | (Inl e, n) \<Rightarrow>
         if io_kind_of (Os e) = WouldBlock then Some (Inr SendWouldBlock, n)
         else if e = EINTR then tap_try_send T tap packet n
         else Some (Inl (Net (MsgIo ''tap write: '' (Os e))), n))"

definition complete_tx ::
  "('q, 'c, 'r, 'x, 'g) virtq \<Rightarrow> u16 \<Rightarrow> 'q NetState \<Rightarrow> 'g \<Rightarrow> (error, unit) result \<times> 'q NetState \<times> 'g" where
  "complete_tx V head st g =
     (case mmio_add_used V Net ''missing tx queue'' NET_QUEUE_TX head 0 (nt_mmio st) g of
       (r, m, g) \<Rightarrow> (r, st\<lparr>nt_mmio := m\<rparr>, g))"

type_synonym StepResult = "(bool \<times> error) + bool"

text \<open>
  The ways a step ends after a chain was completed: an error of \<^verbatim>\<open>complete_tx\<close> with the flag
  so far (\<^verbatim>\<open>map_err(..)?\<close>), or an error already at hand, reported with \<open>True\<close> whatever
  \<^verbatim>\<open>complete_tx\<close> says.
\<close>

definition complete_failed ::
  "('q, 'c, 'r, 'x, 'g) virtq \<Rightarrow> u16 \<Rightarrow> error \<Rightarrow> 'q NetState \<Rightarrow> 'g \<Rightarrow> 'n \<Rightarrow> StepResult \<times> 'q NetState \<times> 'g \<times> 'n" where
  "complete_failed V head e st g n =
     (case complete_tx V head st g of (_, st, g) \<Rightarrow> (Inl (True, e), st, g, n))"

text \<open>
  A chain taken from the queue, up to what follows it: \<open>Inl\<close> is the value the function
  returns, \<open>Inr\<close> the state with which the loop goes on and \<^verbatim>\<open>used_any\<close> is set. \<open>tx_frame\<close> is
  the part after the frame is in the scratch buffer. A read replaces the front of the buffer,
  which is not looked at again after a failed one.
\<close>

definition complete_next ::
  "('q, 'c, 'r, 'x, 'g) virtq \<Rightarrow> bool \<Rightarrow> u16 \<Rightarrow> 'q NetState \<Rightarrow> 'g \<Rightarrow> 'n \<Rightarrow>
   (StepResult \<times> 'q NetState \<times> 'g \<times> 'n) + ('q NetState \<times> 'g \<times> 'n)" where
  "complete_next V used head st g n =
     (case complete_tx V head st g of
       (Inl e, st, g) \<Rightarrow> Inl (Inl (used, e), st, g, n)
     | (Inr _, st, g) \<Rightarrow> Inr (st, g, n))"

definition tx_frame ::
  "('q, 'c, 'r, 'x, 'g) virtq \<Rightarrow> 'n tun \<Rightarrow> bool \<Rightarrow> u16 \<Rightarrow> nat \<Rightarrow> 'q NetState \<Rightarrow> 'g \<Rightarrow> 'n \<Rightarrow>
   ((StepResult \<times> 'q NetState \<times> 'g \<times> 'n) + ('q NetState \<times> 'g \<times> 'n)) option" where
  "tx_frame V T used head flen st g n =
     (if flen > length (tx_scratch st) then None
      else do {
        (r, n) \<leftarrow> tap_try_send T (nt_tap st) (take flen (tx_scratch st)) n;
        (case r of
          Inr Sent \<Rightarrow> Some (complete_next V used head st g n)
        | Inr SendWouldBlock \<Rightarrow>
            Some (Inl (Inr used, st\<lparr>pending_tx := Some \<lparr>ptx_head = head, ptx_len = flen\<rparr>\<rparr>, g, n))
        | Inl e \<Rightarrow> Some (Inl (complete_failed V head e st g n)))
      })"

definition tx_chain ::
  "('q, 'c, 'r, 'x, 'g) virtq \<Rightarrow> 'n tun \<Rightarrow> bool \<Rightarrow> 'c \<Rightarrow> 'q NetState \<Rightarrow> 'g \<Rightarrow> 'n \<Rightarrow>
   ((StepResult \<times> 'q NetState \<times> 'g \<times> 'n) + ('q NetState \<times> 'g \<times> 'n)) option" where
  "tx_chain V T used c st g n =
     (let head = c_head V c
      in case reader_new V c g of
           Inl t \<Rightarrow> Some (Inl (complete_failed V head (Net (MsgExt t)) st g n))
         | Inr rd \<Rightarrow>
             (let total = r_avail V rd
              in if total < NET_HDR_LEN then Some (complete_next V used head st g n)
                 else
                   (let scratch = tx_scratch st @ replicate (total - length (tx_scratch st)) 0
                    in case r_read_exact V total rd g of
                         (Inl e, rd, g) \<Rightarrow>
                           Some (Inl (complete_failed V head (Net (MsgIo '''' e)) (st\<lparr>tx_scratch := scratch\<rparr>) g n))
                       | (Inr bs, rd, g) \<Rightarrow>
                           tx_frame V T used head total (st\<lparr>tx_scratch := bs @ drop total scratch\<rparr>) g n)))"

partial_function (option) tx_loop ::
  "('q, 'c, 'r, 'x, 'g) virtq \<Rightarrow> 'n tun \<Rightarrow> bool \<Rightarrow> 'q NetState \<Rightarrow> 'g \<Rightarrow> 'n \<Rightarrow>
   (StepResult \<times> 'q NetState \<times> 'g \<times> 'n) option" where
  "tx_loop V T used st g n =
     (case mmio_pop V NET_QUEUE_TX (nt_mmio st) g of
       (None, m, g) \<Rightarrow> Some (Inr used, st\<lparr>nt_mmio := m\<rparr>, g, n)
     | (Some c, m, g) \<Rightarrow> do {
         r \<leftarrow> tx_chain V T used c (st\<lparr>nt_mmio := m\<rparr>) g n;
         (case r of Inl y \<Rightarrow> Some y | Inr (st, g, n) \<Rightarrow> tx_loop V T True st g n)
       })"

text \<open>
  \<^verbatim>\<open>process_tx\<close>. The frame held from a previous round is sent first; a send that would block
  puts it back as it was.
\<close>

definition process_tx ::
  "('q, 'c, 'r, 'x, 'g) virtq \<Rightarrow> 'n tun \<Rightarrow> 'q NetState \<Rightarrow> 'g \<Rightarrow> 'n \<Rightarrow>
   (StepResult \<times> 'q NetState \<times> 'g \<times> 'n) option" where
  "process_tx V T st g n =
     (if \<not> queue_is_ready V (nt_mmio st) NET_QUEUE_TX then Some (Inr False, st\<lparr>pending_tx := None\<rparr>, g, n)
      else case pending_tx st of
        None \<Rightarrow> tx_loop V T False st g n
      | Some pending \<Rightarrow> do {
          r \<leftarrow> tx_frame V T False (ptx_head pending) (ptx_len pending) (st\<lparr>pending_tx := None\<rparr>) g n;
          (case r of Inl y \<Rightarrow> Some y | Inr (st, g, n) \<Rightarrow> tx_loop V T True st g n)
        })"

section \<open>Receiving\<close>

definition rx_add_used ::
  "('q, 'c, 'r, 'x, 'g) virtq \<Rightarrow> u16 \<Rightarrow> u32 \<Rightarrow> 'q NetState \<Rightarrow> 'g \<Rightarrow> (error, unit) result \<times> 'q NetState \<times> 'g" where
  "rx_add_used V head len st g =
     (case mmio_add_used V Net ''missing rx queue'' NET_QUEUE_RX head len (nt_mmio st) g of
       (r, m, g) \<Rightarrow> (r, st\<lparr>nt_mmio := m\<rparr>, g))"

text \<open>The loop of \<^verbatim>\<open>flush_pending_rx\<close>: \<open>saw\<close> is \<^verbatim>\<open>saw_chain\<close>, and the result ends with \<^verbatim>\<open>saw_fit\<close>.\<close>

partial_function (option) flush_loop ::
  "('q, 'c, 'r, 'x, 'g) virtq \<Rightarrow> nat \<Rightarrow> bool \<Rightarrow> bool \<Rightarrow> 'q NetState \<Rightarrow> 'g \<Rightarrow>
   ((error, bool \<times> bool \<times> bool) result \<times> 'q NetState \<times> 'g) option" where
  "flush_loop V frame_len used saw st g =
     (case mmio_pop V NET_QUEUE_RX (nt_mmio st) g of
       (None, m, g) \<Rightarrow> Some (Inr (used, saw, False), st\<lparr>nt_mmio := m\<rparr>, g)
     | (Some c, m, g) \<Rightarrow>
         (let st = st\<lparr>nt_mmio := m\<rparr>
          in case writer_new V c g of
               Inl t \<Rightarrow> Some (Inl (Net (MsgExt t)), st, g)
             | Inr x \<Rightarrow>
                 if x_avail V x < frame_len then
                   (case rx_add_used V (c_head V c) 0 st g of
                     (Inl e, st, g) \<Rightarrow> Some (Inl e, st, g)
                   | (Inr _, st, g) \<Rightarrow> flush_loop V frame_len True True st g)
                 else if frame_len > length (rx_scratch st) then None
                 else
                   (case x_write_all V (take frame_len (rx_scratch st)) x g of
                     (Inl e, x, g) \<Rightarrow> Some (Inl (Net (MsgIo '''' e)), st, g)
                   | (Inr _, x, g) \<Rightarrow>
                       (case rx_add_used V (c_head V c) (of_nat frame_len) st g of
                         (Inl e, st, g) \<Rightarrow> Some (Inl e, st, g)
                       | (Inr _, st, g) \<Rightarrow>
                           Some (Inr (True, True, True), st\<lparr>pending_rx_len := None\<rparr>, g)))))"

definition flush_pending_rx ::
  "('q, 'c, 'r, 'x, 'g) virtq \<Rightarrow> 'q NetState \<Rightarrow> 'g \<Rightarrow> ((error, bool) result \<times> 'q NetState \<times> 'g) option" where
  "flush_pending_rx V st g =
     (case pending_rx_len st of
       None \<Rightarrow> Some (Inr False, st, g)
     | Some frame_len \<Rightarrow> do {
         (r, st, g) \<leftarrow> flush_loop V frame_len False False st g;
         (case r of
           Inl e \<Rightarrow> Some (Inl e, st, g)
         | Inr (used, saw_chain, saw_fit) \<Rightarrow>
             Some (Inr used,
                   if pending_rx_len st \<noteq> None \<and> saw_chain \<and> \<not> saw_fit then st\<lparr>pending_rx_len := None\<rparr> else st,
                   g))
       })"

partial_function (option) rx_loop ::
  "('q, 'c, 'r, 'x, 'g) virtq \<Rightarrow> 'n tun \<Rightarrow> bool \<Rightarrow> 'q NetState \<Rightarrow> 'g \<Rightarrow> 'n \<Rightarrow>
   (StepResult \<times> 'q NetState \<times> 'g \<times> 'n) option" where
  "rx_loop V T used st g n =
     (case tn_read T (nt_tap st) (length (rx_scratch st)) n of
       (Inl e, n) \<Rightarrow>
         if io_kind_of (Os e) = WouldBlock then Some (Inr used, st, g, n)
         else if e = EINTR then rx_loop V T used st g n
         else Some (Inl (used, Net (MsgIo ''tap read: '' (Os e))), st, g, n)
     | (Inr bs, n) \<Rightarrow>
         if bs = [] then Some (Inr used, st, g, n)
         else
           (let st = st\<lparr>rx_scratch := bs @ drop (length bs) (rx_scratch st)\<rparr>
            in if length bs < NET_HDR_LEN then rx_loop V T used st g n
               else do {
                 (r, st, g) \<leftarrow> flush_pending_rx V (st\<lparr>pending_rx_len := Some (length bs)\<rparr>) g;
                 (case r of
                   Inl e \<Rightarrow> Some (Inl (used, e), st, g, n)
                 | Inr u \<Rightarrow>
                     if pending_rx_len st \<noteq> None then Some (Inr (used \<or> u), st, g, n)
                     else rx_loop V T (used \<or> u) st g n)
               }))"

definition process_rx ::
  "('q, 'c, 'r, 'x, 'g) virtq \<Rightarrow> 'n tun \<Rightarrow> 'q NetState \<Rightarrow> 'g \<Rightarrow> 'n \<Rightarrow>
   (StepResult \<times> 'q NetState \<times> 'g \<times> 'n) option" where
  "process_rx V T st g n =
     (if \<not> queue_is_ready V (nt_mmio st) NET_QUEUE_RX then Some (Inr False, st\<lparr>pending_rx_len := None\<rparr>, g, n)
      else if pending_rx_len st \<noteq> None then do {
        (r, st, g) \<leftarrow> flush_pending_rx V st g;
        (case r of
          Inl e \<Rightarrow> Some (Inl (False, e), st, g, n)
        | Inr u \<Rightarrow>
            if pending_rx_len st \<noteq> None then Some (Inr u, st, g, n) else rx_loop V T u st g n)
      }
      else rx_loop V T False st g n)"

section \<open>The worker\<close>

definition step_used :: "StepResult \<Rightarrow> bool" where
  "step_used r = (case r of Inr used \<Rightarrow> used | Inl (used, _) \<Rightarrow> used)"

definition step_err :: "StepResult \<Rightarrow> error option" where
  "step_err r = (case r of Inr _ \<Rightarrow> None | Inl (_, e) \<Rightarrow> Some e)"

text \<open>Both directions run whatever the first one says; then the interrupt, then the first error.\<close>

definition process_net_once ::
  "('q, 'c, 'r, 'x, 'g) virtq \<Rightarrow> 'g evfd \<Rightarrow> 'n tun \<Rightarrow> 'q NetState \<Rightarrow> 'g \<Rightarrow> 'n \<Rightarrow>
   ((error, unit) result \<times> 'q NetState \<times> 'g \<times> 'n) option" where
  "process_net_once V E T st g n = do {
     (r1, st, g, n) \<leftarrow> process_tx V T st g n;
     (r2, st, g, n) \<leftarrow> process_rx V T st g n;
     let finish = (case step_err r1 of Some e \<Rightarrow> Inl e
                   | None \<Rightarrow> (case step_err r2 of Some e \<Rightarrow> Inl e | None \<Rightarrow> Inr ()));
     if step_used r1 \<or> step_used r2 then
       (case signal_used_queue E (nt_mmio st) g of
         (Inl e, m, g) \<Rightarrow> Some (Inl e, st\<lparr>nt_mmio := m\<rparr>, g, n)
       | (Inr _, m, g) \<Rightarrow> Some (finish, st\<lparr>nt_mmio := m\<rparr>, g, n))
     else Some (finish, st, g, n)
   }"

text \<open>
  A turn of \<^verbatim>\<open>worker_loop\<close>. \<open>poll\<close> gives the events of the TAP, which is polled only when
  the device wants it, and of the kick.
\<close>

definition net_interest :: "('q, 'c, 'r, 'x, 'g) virtq \<Rightarrow> 'q NetState \<Rightarrow> u16" where
  "net_interest V st =
     (if pending_rx_len st = None then POLLIN else 0) OR
     (if pending_tx st \<noteq> None \<and> queue_is_ready V (nt_mmio st) NET_QUEUE_TX then POLLOUT else 0)"

definition net_worker_turn ::
  "('q, 'c, 'r, 'x, 'g) virtq \<Rightarrow> 'g evfd \<Rightarrow> 'n tun \<Rightarrow>
   ((int \<times> u16) list \<Rightarrow> 'n \<Rightarrow> (int, u16 \<times> u16, 'n) effect) \<Rightarrow> EventFd \<Rightarrow> 'q NetState \<Rightarrow> 'g \<Rightarrow> 'n \<Rightarrow>
   (error option \<times> 'q NetState \<times> 'g \<times> 'n) option" where
  "net_worker_turn V E T poll kick st g n =
     (let tap_events = net_interest V st; fd = (if tap_events \<noteq> 0 then nt_tap st else - 1)
      in case poll [(fd, tap_events), (kick, POLLIN)] n of
           (Inl e, n) \<Rightarrow>
             Some (if e = EINTR then None else Some (Net (MsgIo ''poll: '' (Os e))), st, g, n)
         | (Inr (tap_revents, kick_revents), n) \<Rightarrow>
             (let kick_ready = (kick_revents \<noteq> 0);
                  g = (if kick_ready then snd (ev_read E kick g) else g);
                  tap_ready = (fd \<ge> 0 \<and> tap_revents \<noteq> 0)
              in if \<not> kick_ready \<and> \<not> tap_ready then Some (None, st, g, n)
                 else do {
                   (r, st, g, n) \<leftarrow> process_net_once V E T st g n;
                   Some (None, st, g, n)
                 }))"

end
