(* ===== verification/VirtioNetProps.thy ===== *)
theory VirtioNetProps
  imports VirtioNet
begin

text \<open>
  Properties of the virtio-net device: descriptor chains come back in the order they were
  taken, with at most one held while the TAP is full, and are announced; a received frame is
  delivered whole, dropped or kept; and a round always returns.
\<close>

section \<open>Chains\<close>

text \<open>The chain held back until the TAP takes its frame.\<close>

definition held :: "'q NetState \<Rightarrow> u16 list" where
  "held st = (case pending_tx st of None \<Rightarrow> [] | Some p \<Rightarrow> [ptx_head p])"

lemma step_simps [simp]:
  "step_used (Inr b) = b" "step_used (Inl (b, e)) = b" "step_err (Inr b) = None" "step_err (Inl (b, e)) = Some e"
  by (simp_all add: step_used_def step_err_def)

lemma complete_tx_log:
  assumes "queue_log V tk rt" and "complete_tx V h st g = (r, st', g')"
  shows "rt g' = rt g @ (case r of Inl _ \<Rightarrow> [] | Inr _ \<Rightarrow> [h])" and "tk g' = tk g"
    and "same_irq (nt_mmio st) (nt_mmio st')" and "pending_tx st' = pending_tx st"
  using assms(2) by (auto simp: complete_tx_def mmio_add_used_log [OF assms(1)] split: prod.splits)

text \<open>
  \<open>tx_end\<close>: how a sending step stands when it ends, relative to where it began: \<open>hs\<close> are the
  chains taken, \<open>ret\<close> those given back. \<open>tx_next\<close>: it goes on, with the chain \<open>h\<close> given back.
\<close>

definition tx_end ::
  "('g \<Rightarrow> u16 list) \<Rightarrow> ('g \<Rightarrow> u16 list) \<Rightarrow> bool \<Rightarrow> u16 list \<Rightarrow> 'q NetState \<Rightarrow> 'g \<Rightarrow>
   StepResult \<times> 'q NetState \<times> 'g \<times> 'n \<Rightarrow> bool" where
  "tx_end tk rt used h0 st g y \<longleftrightarrow>
     (case y of (r, st', g', n') \<Rightarrow>
       same_irq (nt_mmio st) (nt_mmio st') \<and>
       (\<exists>hs ret. tk g' = tk g @ hs \<and> rt g' = rt g @ ret \<and> (used \<or> ret \<noteq> [] \<longrightarrow> step_used r) \<and>
         (\<forall>b. r = Inr b \<longrightarrow> ret @ held st' = h0 @ hs \<and> (b \<longleftrightarrow> used \<or> ret \<noteq> []))))"

definition tx_next ::
  "('g \<Rightarrow> u16 list) \<Rightarrow> ('g \<Rightarrow> u16 list) \<Rightarrow> u16 \<Rightarrow> 'q NetState \<Rightarrow> 'g \<Rightarrow> 'q NetState \<times> 'g \<times> 'n \<Rightarrow> bool" where
  "tx_next tk rt h st g z \<longleftrightarrow>
     (case z of (st', g', n') \<Rightarrow>
       rt g' = rt g @ [h] \<and> tk g' = tk g \<and> same_irq (nt_mmio st) (nt_mmio st') \<and> pending_tx st' = None)"

lemma complete_failed_end:
  assumes "queue_log V tk rt"
  shows "tx_end tk rt used h0 st g (complete_failed V h e st g n)"
  by (auto simp: tx_end_def complete_failed_def complete_tx_log [OF assms] split: prod.splits)

lemma complete_next_spec:
  assumes "queue_log V tk rt" and "pending_tx st = None"
  shows "case_sum (tx_end tk rt used h0 st g) (tx_next tk rt h st g) (complete_next V used h st g n)"
  using assms(2)
  by (auto simp: complete_next_def tx_end_def tx_next_def complete_tx_log [OF assms(1)] split: prod.splits sum.splits)

lemma tx_frame_spec:
  assumes "queue_log V tk rt" and "tx_frame V T used h flen st g n = Some y" and "pending_tx st = None"
  shows "case_sum (tx_end tk rt used [h] st g) (tx_next tk rt h st g) y"
proof -
  from assms(2) obtain r n1 where s: "tap_try_send T (nt_tap st) (take flen (tx_scratch st)) n = Some (r, n1)"
    by (auto simp: tx_frame_def bind_eq_Some_conv split: if_splits)
  show ?thesis
  proof (cases r)
    case (Inl e)
    with s assms(2) complete_failed_end [OF assms(1)] show ?thesis by (auto simp: tx_frame_def split: if_splits)
  next
    case (Inr a)
    show ?thesis
    proof (cases a)
      case Sent
      with s Inr assms(2) complete_next_spec [OF assms(1,3), of used "[h]" g h n1] show ?thesis
        by (auto simp: tx_frame_def split: if_splits)
    next
      case SendWouldBlock
      with s Inr assms(2) show ?thesis by (auto simp: tx_frame_def tx_end_def held_def split: if_splits)
    qed
  qed
qed

text \<open>What a step shows only depends on the transport and the world it starts from.\<close>

lemma tx_spec_cong:
  assumes "nt_mmio st1 = nt_mmio st" and "tk g1 = tk g" and "rt g1 = rt g"
  shows "tx_end tk rt used h0 st1 g1 = tx_end tk rt used h0 st g" and "tx_next tk rt h st1 g1 = tx_next tk rt h st g"
  using assms by (auto simp: tx_end_def tx_next_def fun_eq_iff)

lemma tx_chain_spec:
  assumes "queue_log V tk rt" and "tx_chain V T used c st g n = Some y" and "pending_tx st = None"
  shows "case_sum (tx_end tk rt used [c_head V c] st g) (tx_next tk rt (c_head V c) st g) y"
proof (cases "reader_new V c g")
  case (Inl t)
  with assms(2) complete_failed_end [OF assms(1)] show ?thesis by (auto simp: tx_chain_def)
next
  case rd: (Inr rd)
  show ?thesis
  proof (cases "r_avail V rd < NET_HDR_LEN")
    case True
    with rd assms(2) complete_next_spec [OF assms(1,3), of used "[c_head V c]" g "c_head V c" n] show ?thesis
      by (auto simp: tx_chain_def)
  next
    case False
    obtain q rd1 g1 where q: "r_read_exact V (r_avail V rd) rd g = (q, rd1, g1)" by (metis prod_cases3)
    note same = read_exact_log [OF assms(1) q]
    let ?scratch = "tx_scratch st @ replicate (r_avail V rd - length (tx_scratch st)) 0"
    show ?thesis
    proof (cases q)
      case (Inl e)
      with rd False q assms(2) have "y = Inl (complete_failed V (c_head V c) (Net (MsgIo '''' e)) (st\<lparr>tx_scratch := ?scratch\<rparr>) g1 n)"
        by (simp add: tx_chain_def Let_def)
      with complete_failed_end [OF assms(1), of used "[c_head V c]" "st\<lparr>tx_scratch := ?scratch\<rparr>" g1]
      show ?thesis by (simp add: tx_spec_cong(1) [OF _ same, of "st\<lparr>tx_scratch := ?scratch\<rparr>" st])
    next
      case (Inr bs)
      define st1 where "st1 = st\<lparr>tx_scratch := bs @ drop (r_avail V rd) ?scratch\<rparr>"
      from Inr rd False q assms(2) have "tx_frame V T used (c_head V c) (r_avail V rd) st1 g1 n = Some y"
        by (simp add: tx_chain_def Let_def st1_def)
      from tx_frame_spec [OF assms(1) this] assms(3)
      have "case_sum (tx_end tk rt used [c_head V c] st1 g1) (tx_next tk rt (c_head V c) st1 g1) y"
        by (simp add: st1_def)
      moreover have "nt_mmio st1 = nt_mmio st" by (simp add: st1_def)
      ultimately show ?thesis by (cases y) (simp_all add: tx_spec_cong [OF _ same])
    qed
  qed
qed

lemma tx_loop_end:
  assumes "tx_loop V T used st g n = Some y" and "queue_log V tk rt" and "pending_tx st = None"
  shows "tx_end tk rt used [] st g y"
  using assms
proof (induction rule: tx_loop.raw_induct [rotated, consumes 1, case_names step])
  case (step rec V T used st g n y)
  obtain c m g1 where p: "mmio_pop V NET_QUEUE_TX (nt_mmio st) g = (c, m, g1)" by (metis prod_cases3)
  note lp = mmio_pop_log [OF step.prems(1) p]
  show ?case
  proof (cases c)
    case None
    with p lp step.hyps step.prems show ?thesis by (auto simp: tx_end_def held_def)
  next
    case (Some ch)
    with p step.hyps obtain z where z: "tx_chain V T used ch (st\<lparr>nt_mmio := m\<rparr>) g1 n = Some z"
      and y: "(case z of Inl y \<Rightarrow> Some y | Inr (st, g, n) \<Rightarrow> rec V T True st g n) = Some y"
      by (auto simp: bind_eq_Some_conv)
    from tx_chain_spec [OF step.prems(1) z] step.prems(2)
    have spec: "case_sum (tx_end tk rt used [c_head V ch] (st\<lparr>nt_mmio := m\<rparr>) g1)
        (tx_next tk rt (c_head V ch) (st\<lparr>nt_mmio := m\<rparr>) g1) z" by simp
    show ?thesis
    proof (cases z)
      case (Inl y1)
      with y spec lp Some show ?thesis by (auto simp: tx_end_def)
    next
      case (Inr z1)
      obtain st2 g2 n2 where z1: "z1 = (st2, g2, n2)" by (metis prod_cases3)
      with y Inr have r: "rec V T True st2 g2 n2 = Some y" by simp
      from spec Inr z1 have "tx_next tk rt (c_head V ch) (st\<lparr>nt_mmio := m\<rparr>) g1 (st2, g2, n2)" by simp
      with step.IH [OF r step.prems(1)] lp Some show ?thesis
        by (auto simp: tx_end_def tx_next_def)
    qed
  qed
qed

lemma process_tx_end:
  assumes "process_tx V T st g n = Some y" and "queue_log V tk rt" and "queue_is_ready V (nt_mmio st) NET_QUEUE_TX"
  shows "tx_end tk rt False (held st) st g y"
proof (cases "pending_tx st")
  case None
  with assms tx_loop_end [OF _ assms(2), of T False st g n y] show ?thesis
    by (simp add: process_tx_def held_def)
next
  case (Some p)
  let ?st = "st\<lparr>pending_tx := None\<rparr>"
  from Some assms(1,3) obtain z where z: "tx_frame V T False (ptx_head p) (ptx_len p) ?st g n = Some z"
    and y: "(case z of Inl y \<Rightarrow> Some y | Inr (st, g, n) \<Rightarrow> tx_loop V T True st g n) = Some y"
    by (auto simp: process_tx_def bind_eq_Some_conv)
  from tx_frame_spec [OF assms(2) z] have spec: "case_sum (tx_end tk rt False (held st) st g) (tx_next tk rt (ptx_head p) st g) z"
    using Some by (cases z) (simp_all add: held_def tx_spec_cong [of ?st st tk g g rt])
  show ?thesis
  proof (cases z)
    case (Inl y1)
    with y spec show ?thesis by simp
  next
    case (Inr z1)
    obtain st2 g2 n2 where z1: "z1 = (st2, g2, n2)" by (metis prod_cases3)
    with spec Inr have nx: "tx_next tk rt (ptx_head p) st g (st2, g2, n2)" by simp
    from y Inr z1 nx tx_loop_end [OF _ assms(2), of T True st2 g2 n2 y] have "tx_end tk rt True [] st2 g2 y"
      by (simp add: tx_next_def)
    with nx Some show ?thesis by (auto simp: tx_end_def tx_next_def held_def)
  qed
qed

lemma rx_add_used_log:
  assumes "queue_log V tk rt" and "rx_add_used V h len st g = (r, st', g')"
  shows "rt g' = rt g @ (case r of Inl _ \<Rightarrow> [] | Inr _ \<Rightarrow> [h])" and "tk g' = tk g"
    and "same_irq (nt_mmio st) (nt_mmio st')" and "pending_tx st' = pending_tx st"
    and "pending_rx_len st' = pending_rx_len st"
  using assms(2) by (auto simp: rx_add_used_def mmio_add_used_log [OF assms(1)] split: prod.splits)

text \<open>Induction over the turns of \<open>flush_loop\<close>: how it stops, and the chain too small that it gives back.\<close>

lemma flush_loop_turns [consumes 1, case_names no_chain failed fits small]:
  assumes "flush_loop V len used saw st g = Some y"
    and no_chain: "\<And>used saw st g m g1. mmio_pop V NET_QUEUE_RX (nt_mmio st) g = (None, m, g1) \<Longrightarrow>
      P used saw st g (Inr (used, saw, False), st\<lparr>nt_mmio := m\<rparr>, g1)"
    and failed: "\<And>used saw st g e st' g'. pending_tx st' = pending_tx st \<Longrightarrow> P used saw st g (Inl e, st', g')"
    and fits: "\<And>used saw st g c m g1 x g2 x2 st3 g3.
      mmio_pop V NET_QUEUE_RX (nt_mmio st) g = (Some c, m, g1) \<Longrightarrow> writer_new V c g1 = Inr x \<Longrightarrow>
      len \<le> x_avail V x \<Longrightarrow> len \<le> length (rx_scratch st) \<Longrightarrow>
      x_write_all V (take len (rx_scratch st)) x g1 = (Inr (), x2, g2) \<Longrightarrow>
      rx_add_used V (c_head V c) (of_nat len) (st\<lparr>nt_mmio := m\<rparr>) g2 = (Inr (), st3, g3) \<Longrightarrow>
      P used saw st g (Inr (True, True, True), st3\<lparr>pending_rx_len := None\<rparr>, g3)"
    and small: "\<And>used saw st g c m g1 x st3 g3 y.
      mmio_pop V NET_QUEUE_RX (nt_mmio st) g = (Some c, m, g1) \<Longrightarrow> writer_new V c g1 = Inr x \<Longrightarrow>
      x_avail V x < len \<Longrightarrow>
      rx_add_used V (c_head V c) 0 (st\<lparr>nt_mmio := m\<rparr>) g1 = (Inr (), st3, g3) \<Longrightarrow>
      P True True st3 g3 y \<Longrightarrow> P used saw st g y"
  shows "P used saw st g y"
  using assms
proof (induction rule: flush_loop.raw_induct [rotated, consumes 1, case_names step])
  case (step rec V len used saw st g y)
  obtain c m g1 where p: "mmio_pop V NET_QUEUE_RX (nt_mmio st) g = (c, m, g1)" by (metis prod_cases3)
  have keep: "rx_add_used V h k s w = (r, s', w') \<Longrightarrow> pending_tx s' = pending_tx s" for h k s w r s' w'
    by (auto simp: rx_add_used_def split: prod.splits)
  show ?case
  proof (cases c)
    case None
    with p step.hyps step.prems(1) show ?thesis by auto
  next
    case (Some ch)
    show ?thesis
    proof (cases "writer_new V ch g1")
      case (Inl t)
      with Some p step.hyps step.prems(2) show ?thesis by auto
    next
      case x: (Inr x)
      obtain r st3 g3 where a: "rx_add_used V (c_head V ch) 0 (st\<lparr>nt_mmio := m\<rparr>) g1 = (r, st3, g3)"
        by (metis prod_cases3)
      obtain q x2 g2 where wr: "x_write_all V (take len (rx_scratch st)) x g1 = (q, x2, g2)" by (metis prod_cases3)
      obtain r' st4 g4 where b: "rx_add_used V (c_head V ch) (of_nat len) (st\<lparr>nt_mmio := m\<rparr>) g2 = (r', st4, g4)"
        by (metis prod_cases3)
      show ?thesis
      proof (cases "x_avail V x < len")
        case True
        with Some p x a step.hyps have "(case r of Inl e \<Rightarrow> Some (Inl e, st3, g3) | Inr _ \<Rightarrow> rec V len True True st3 g3) = Some y"
          by (cases r) auto
        with True Some p x a step.IH [of V len True True st3 g3 y] step.prems keep [OF a] show ?thesis
          by (cases r) auto
      next
        case False
        with Some p x wr b step.hyps step.prems(2,3) keep [OF b] show ?thesis
          by (cases q; cases r') (auto simp: Let_def split: if_splits)
      qed
    qed
  qed
qed

lemma flush_loop_returns:
  assumes "flush_loop V len used saw st g = Some y" and log: "queue_log V tk rt"
  shows "\<forall>u s f. fst y = Inr (u, s, f) \<longrightarrow>
    (\<exists>hs. returns_all tk rt g (snd (snd y)) hs \<and> (u \<longleftrightarrow> used \<or> hs \<noteq> []) \<and>
      same_irq (nt_mmio st) (nt_mmio (fst (snd y))))"
  using assms(1)
proof (induction rule: flush_loop_turns)
  case (no_chain used saw st g m g1)
  with mmio_pop_log [OF log no_chain] show ?case by (auto simp: returns_all_def)
next
  case (fits used saw st g c m g1 x g2 x2 st3 g3)
  from mmio_pop_log [OF log fits(1)] write_all_log [OF log fits(5)] rx_add_used_log [OF log fits(6)]
  show ?case by (auto simp: returns_all_def)
next
  case (small used saw st g c m g1 x st3 g3 y)
  from mmio_pop_log [OF log small(1)] rx_add_used_log [OF log small(4)]
  have "returns_all tk rt g g3 [c_head V c]" "same_irq (nt_mmio st) (nt_mmio st3)"
    by (auto simp: returns_all_def)
  with small(5) show ?case by (auto intro: returns_all_trans)
qed auto

lemma rx_keeps_tx:
  "flush_loop V len used saw st g = Some y \<Longrightarrow> pending_tx (fst (snd y)) = pending_tx st"
proof (induction rule: flush_loop_turns)
  case (fits used saw st g c m g1 x g2 x2 st3 g3)
  then show ?case by (auto simp: rx_add_used_def split: prod.splits)
next
  case (small used saw st g c m g1 x st3 g3 y)
  then show ?case by (auto simp: rx_add_used_def split: prod.splits)
qed auto

lemma flush_pending_returns:
  assumes "flush_pending_rx V st g = Some (r, st', g')" and log: "queue_log V tk rt"
  shows "pending_tx st' = pending_tx st"
    and "r = Inr u \<Longrightarrow> \<exists>hs. returns_all tk rt g g' hs \<and> (u \<longleftrightarrow> hs \<noteq> []) \<and> same_irq (nt_mmio st) (nt_mmio st')"
proof -
  show "pending_tx st' = pending_tx st"
    using assms(1)
    by (auto simp: flush_pending_rx_def dest!: rx_keeps_tx
        split: option.split_asm Option.bind_split_asm sum.split_asm prod.split_asm if_split_asm)
  show "\<exists>hs. returns_all tk rt g g' hs \<and> (u \<longleftrightarrow> hs \<noteq> []) \<and> same_irq (nt_mmio st) (nt_mmio st')" if "r = Inr u"
  proof (cases "pending_rx_len st")
    case (Some len)
    with assms(1) that obtain s f st1 where
      l: "flush_loop V len False False st g = Some (Inr (u, s, f), st1, g')" and "nt_mmio st' = nt_mmio st1"
      by (auto simp: flush_pending_rx_def
          split: Option.bind_split_asm sum.split_asm prod.split_asm if_split_asm)
    with flush_loop_returns [OF l log] show ?thesis by auto
  qed (use assms(1) that in \<open>auto simp: flush_pending_rx_def\<close>)
qed

definition rx_end ::
  "('g \<Rightarrow> u16 list) \<Rightarrow> ('g \<Rightarrow> u16 list) \<Rightarrow> bool \<Rightarrow> 'q NetState \<Rightarrow> 'g \<Rightarrow> StepResult \<times> 'q NetState \<times> 'g \<times> 'n \<Rightarrow> bool" where
  "rx_end tk rt used st g y \<longleftrightarrow>
     (case y of (r, st', g', n') \<Rightarrow> pending_tx st' = pending_tx st \<and>
       (\<forall>b. r = Inr b \<longrightarrow> (\<exists>hs. returns_all tk rt g g' hs \<and> (b \<longleftrightarrow> used \<or> hs \<noteq> []) \<and>
         same_irq (nt_mmio st) (nt_mmio st'))))"

lemma rx_end_refl [simp]: "rx_end tk rt b st g (Inr b, st, g, n)" "rx_end tk rt b st g (Inl x, st, g, n)"
  by (simp_all add: rx_end_def)

lemma rx_end_trans:
  assumes "returns_all tk rt g g1 hs" and "same_irq (nt_mmio st) (nt_mmio st1)" and "pending_tx st1 = pending_tx st"
    and "rx_end tk rt (used \<or> hs \<noteq> []) st1 g1 y"
  shows "rx_end tk rt used st g y"
  using assms by (auto simp: rx_end_def intro: returns_all_trans)

text \<open>What follows a flush, in \<open>rx_loop\<close> and in \<open>process_rx\<close>.\<close>

lemma after_flush_end:
  assumes log: "queue_log V tk rt"
    and run: "do { (r, st, g) \<leftarrow> flush_pending_rx V st1 g;
      (case r of Inl e \<Rightarrow> Some (Inl (used, e), st, g, n)
       | Inr u \<Rightarrow> if pending_rx_len st \<noteq> None then Some (Inr (used \<or> u), st, g, n) else f (used \<or> u) st g n) } = Some y"
    and rec: "\<And>u st g n y. f u st g n = Some y \<Longrightarrow> rx_end tk rt u st g y"
    and st1: "nt_mmio st1 = nt_mmio st" "pending_tx st1 = pending_tx st"
  shows "rx_end tk rt used st g y"
proof -
  from run obtain r st2 g2 where fl: "flush_pending_rx V st1 g = Some (r, st2, g2)"
    by (auto simp: bind_eq_Some_conv)
  note keep = flush_pending_returns(1) [OF fl log]
  show ?thesis
  proof (cases r)
    case (Inl e)
    with run fl keep st1 show ?thesis by (auto simp: rx_end_def)
  next
    case (Inr u)
    from flush_pending_returns(2) [OF fl log this] obtain hs where
      hs: "returns_all tk rt g g2 hs" "u \<longleftrightarrow> hs \<noteq> []" "same_irq (nt_mmio st) (nt_mmio st2)" using st1 by auto
    have "rx_end tk rt (used \<or> hs \<noteq> []) st2 g2 y"
      using run fl Inr hs(2) rec by (auto split: if_splits)
    with rx_end_trans [OF hs(1,3)] keep st1 show ?thesis by simp
  qed
qed

lemma rx_loop_end:
  assumes "rx_loop V T used st g n = Some y" and "queue_log V tk rt"
  shows "rx_end tk rt used st g y"
  using assms
proof (induction rule: rx_loop.raw_induct [rotated, consumes 1, case_names step])
  case (step rec V T used st g n y)
  obtain q n1 where rd: "tn_read T (nt_tap st) (length (rx_scratch st)) n = (q, n1)" by fastforce
  show ?case
  proof (cases q)
    case (Inl e)
    with rd step.hyps step.IH step.prems show ?thesis
      by (auto split: if_splits)
  next
    case (Inr bs)
    let ?st = "st\<lparr>rx_scratch := bs @ drop (length bs) (rx_scratch st)\<rparr>"
    show ?thesis
    proof (cases "bs = [] \<or> length bs < NET_HDR_LEN")
      case True
      have shift: "rx_end tk rt used ?st g y \<Longrightarrow> rx_end tk rt used st g y" by (auto simp: rx_end_def)
      from True Inr rd step.hyps step.IH [of V T used ?st g n1 y] step.prems shift show ?thesis
        by (auto simp: Let_def split: if_splits)
    next
      case False
      show ?thesis
        by (rule after_flush_end [OF step.prems, of "?st\<lparr>pending_rx_len := Some (length bs)\<rparr>" g used n1 "rec V T"])
          (use False Inr rd step.hyps step.IH step.prems in \<open>auto simp: Let_def\<close>)
    qed
  qed
qed

lemma process_rx_end:
  assumes "process_rx V T st g n = Some y" and "queue_log V tk rt"
  shows "rx_end tk rt False st g y"
proof (cases "queue_is_ready V (nt_mmio st) NET_QUEUE_RX \<and> pending_rx_len st \<noteq> None")
  case True
  show ?thesis
    by (rule after_flush_end [OF assms(2), of st g False n "rx_loop V T"])
      (use True assms rx_loop_end in \<open>auto simp: process_rx_def cong: sum.case_cong if_cong\<close>)
next
  case False
  then consider "\<not> queue_is_ready V (nt_mmio st) NET_QUEUE_RX"
    | "queue_is_ready V (nt_mmio st) NET_QUEUE_RX" "pending_rx_len st = None" by blast
  then show ?thesis
  proof cases
    case 1
    with assms show ?thesis by (auto simp: process_rx_def rx_end_def)
  next
    case 2
    with assms(1) have "rx_loop V T False st g n = Some y" by (simp add: process_rx_def)
    from rx_loop_end [OF this assms(2)] show ?thesis .
  qed
qed

text \<open>
  C8. A round of the network worker that ends without an error keeps the descriptor chains in
  order: on the transmit side, the chain held from an earlier round and those taken now are
  given back in the order taken, and at most the last one is held, until the TAP can take its
  frame; on the receive side every chain taken is given back. When the transmit queue is not
  ready, nothing is taken and the held chain is forgotten, as a reset demands. If any chain
  was given back, the interrupt is raised after the last one; otherwise it is left alone.
\<close>

theorem net_round_returns_chains:
  assumes log: "queue_log V tk rt" and ev: "event_log E tk rt"
    and run: "process_net_once V E T st g n = Some (Inr (), st', g', n')"
  shows "\<exists>ht ret hr. tk g' = tk g @ ht @ hr \<and> rt g' = rt g @ ret @ hr \<and>
    (if queue_is_ready V (nt_mmio st) NET_QUEUE_TX then ret @ held st' = held st @ ht
     else ht = [] \<and> ret = [] \<and> held st' = []) \<and>
    (if ret @ hr = [] then interrupt_status (nt_mmio st') = interrupt_status (nt_mmio st)
     else bit (interrupt_status (nt_mmio st')) 0 \<and>
       (\<exists>g2. rt g2 = rt g' \<and> ev_write E (irq_fd (nt_mmio st)) 1 g2 = (Inr (), g')))"
proof -
  from run obtain r1 st1 g1 n1 where tx: "process_tx V T st g n = Some (r1, st1, g1, n1)"
    by (auto simp: process_net_once_def bind_eq_Some_conv)
  with run have "process_rx V T st1 g1 n1 \<noteq> None"
    by (cases "process_rx V T st1 g1 n1") (auto simp: process_net_once_def)
  then obtain r2 st2 g2 n2 where rx: "process_rx V T st1 g1 n1 = Some (r2, st2, g2, n2)" by auto
  from run tx rx obtain u1 u2 where u: "r1 = Inr u1" "r2 = Inr u2"
    by (cases r1; cases r2) (auto simp: process_net_once_def Let_def split: if_splits prod.splits sum.splits)
  with run tx rx have irq: "if u1 \<or> u2 then signal_used_queue E (nt_mmio st2) g2 = (Inr (), nt_mmio st', g')
      else nt_mmio st' = nt_mmio st2 \<and> g' = g2" and held2: "held st' = held st2"
    by (auto simp: process_net_once_def held_def Let_def split: if_splits prod.splits sum.splits)
  from process_rx_end [OF rx log] u(2) obtain hr where
    hr: "returns_all tk rt g1 g2 hr" "u2 \<longleftrightarrow> hr \<noteq> []" "same_irq (nt_mmio st1) (nt_mmio st2)" "held st2 = held st1"
    by (auto simp: rx_end_def held_def)
  obtain ht ret where ht: "tk g1 = tk g @ ht" "rt g1 = rt g @ ret" "u1 \<longleftrightarrow> ret \<noteq> []"
    "same_irq (nt_mmio st) (nt_mmio st1)"
    "if queue_is_ready V (nt_mmio st) NET_QUEUE_TX then ret @ held st1 = held st @ ht
     else ht = [] \<and> ret = [] \<and> held st1 = []"
  proof (cases "queue_is_ready V (nt_mmio st) NET_QUEUE_TX")
    case True
    from process_tx_end [OF tx log True] u(1) True that show ?thesis by (auto simp: tx_end_def)
  next
    case False
    with tx u(1) have "st1 = st\<lparr>pending_tx := None\<rparr>" "g1 = g" "\<not> u1" by (auto simp: process_tx_def)
    with False that [of "[]" "[]"] show ?thesis by (simp add: held_def)
  qed
  have logs: "tk g2 = tk g @ ht @ hr" "rt g2 = rt g @ ret @ hr" using ht(1,2) hr(1) by (auto simp: returns_all_def)
  show ?thesis
  proof (cases "ret @ hr = []")
    case True
    with irq ht hr logs held2 show ?thesis by (intro exI [of _ ht] exI [of _ "[]"]) auto
  next
    case False
    with irq ht(3) hr(2) have "signal_used_queue E (nt_mmio st2) g2 = (Inr (), nt_mmio st', g')" by auto
    from signal_used_spec [OF this] ev False ht hr logs held2 show ?thesis
      by (intro exI [of _ ht] exI [of _ ret] exI [of _ hr]) (auto simp: event_log_def)
  qed
qed

section \<open>A concrete TAP\<close>

text \<open>The frames sent, how many more it takes before it is full, and the frames to be received.\<close>

record sim_tap =
  tap_out :: "bytes list"
  tap_room :: nat
  tap_in :: "bytes list"

definition sim_tun :: "sim_tap tun" where
  "sim_tun = \<lparr>
     tn_open = (\<lambda>n. (Inr 9, n)),
     tn_setiff = (\<lambda>fd name flags n. (Inr (), n)),
     tn_setvnethdrsz = (\<lambda>fd k n. (Inr (), n)),
     tn_setoffload = (\<lambda>fd k n. (Inr (), n)),
     tn_close = (\<lambda>fd n. n),
     tn_write = (\<lambda>fd frame n. case tap_room n of
         0 \<Rightarrow> (Inl EAGAIN, n)
       | Suc k \<Rightarrow> (Inr (length frame), n\<lparr>tap_out := tap_out n @ [frame], tap_room := k\<rparr>)),
     tn_read = (\<lambda>fd len n. case tap_in n of
         [] \<Rightarrow> (Inl EAGAIN, n)
       | f # fs \<Rightarrow> (Inr (take len f), n\<lparr>tap_in := fs\<rparr>))\<rparr>"

definition sim_net :: "sim_queue NetState" where
  "sim_net = \<lparr>nt_mmio = sim_mmio\<lparr>queues := replicate 2 \<lparr>sq_max = 8, sq_size = 8, sq_ready = True, sq_desc = (Some 4096, None)\<rparr>\<rparr>,
     nt_tap = 9, nt_mac = mac_from_name [116], rx_scratch = replicate 32 0, tx_scratch = [],
     pending_tx = None, pending_rx_len = None\<rparr>"

declare tap_try_send.simps [code] tx_loop.simps [code] flush_loop.simps [code] rx_loop.simps [code]

text \<open>Two frames to send and room for one: the first chain comes back, the second is held.\<close>

definition sim_two_frames :: sim_world where
  "sim_two_frames = sim_start\<lparr>sim_avail :=
     [\<lparr>sc_head = 3, sc_in = replicate 14 1, sc_room = 0\<rparr>, \<lparr>sc_head = 4, sc_in = replicate 15 2, sc_room = 0\<rparr>]\<rparr>"

lemma sim_two_frames_run:
  "case process_net_once sim_virtq sim_evfd sim_tun sim_net sim_two_frames \<lparr>tap_out = [], tap_room = 1, tap_in = []\<rparr> of
     Some (r, st', g', n') \<Rightarrow> r = Inr () \<and> map fst (sim_used g') = [3] \<and> held st' = [4] \<and> tap_out n' = [replicate 14 1]
   | _ \<Rightarrow> False"
  by code_simp

theorem net_round_returns_chains_witness:
  "\<exists>st' g' n'. process_net_once sim_virtq sim_evfd sim_tun sim_net sim_two_frames
       \<lparr>tap_out = [], tap_room = 1, tap_in = []\<rparr> = Some (Inr (), st', g', n') \<and>
     set (sim_taken g') = {3, 4} \<and> held st' = [4]"
proof -
  from sim_two_frames_run obtain st' g' n' where
    run: "process_net_once sim_virtq sim_evfd sim_tun sim_net sim_two_frames
       \<lparr>tap_out = [], tap_room = 1, tap_in = []\<rparr> = Some (Inr (), st', g', n')"
    and obs: "map fst (sim_used g') = [3]" "held st' = [4]"
    by (auto split: option.splits)
  have start: "queue_is_ready sim_virtq (nt_mmio sim_net) NET_QUEUE_TX" "held sim_net = []"
    "sim_taken sim_two_frames = []" "map fst (sim_used sim_two_frames) = []"
    by (simp_all add: queue_is_ready_def mmio_queue_def sim_net_def NET_QUEUE_TX_def sim_virtq_def held_def
        sim_two_frames_def sim_start_def numeral_2_eq_2)
  from net_round_returns_chains [OF sim_queue_log sim_event_log run] obs start
  obtain ret hr where "sim_taken g' = ret @ 4 # hr" and "ret @ hr = [3]" by auto
  then have "set (sim_taken g') = {3, 4}" by (auto simp: append_eq_Cons_conv)
  with run obs show ?thesis by blast
qed

section \<open>Errors and interrupts\<close>


definition sim_bad_reader :: "(sim_queue, sim_chain, bytes, u16 \<times> nat, sim_world) virtq" where
  "sim_bad_reader = sim_virtq\<lparr>reader_new := \<lambda>c w. if sc_head c = 4 then Inl ''bad chain'' else Inr (sc_in c),
     writer_new := \<lambda>c w. if sc_head c = 4 then Inl ''bad chain'' else Inr (sc_head c, sc_room c)\<rparr>"

lemma sim_bad_log: "queue_log sim_bad_reader sim_taken (\<lambda>w. map fst (sim_used w))"
  by (auto simp: sim_bad_reader_def queue_log_def sim_virtq_def split: list.splits if_splits)

lemma sim_bad_run:
  "case process_tx sim_bad_reader sim_tun sim_net sim_two_frames \<lparr>tap_out = [], tap_room = 1, tap_in = []\<rparr> of
     Some (r, st', g', n') \<Rightarrow> is_err r \<and> map fst (sim_used g') = [3, 4] | _ \<Rightarrow> False"
  by code_simp



section \<open>Received frames\<close>

lemma rx_add_used_state:
  assumes "rx_add_used V h len st g = (r, st', g')"
  shows "rx_scratch st' = rx_scratch st" and "pending_rx_len st' = pending_rx_len st"
  using assms by (auto simp: rx_add_used_def split: prod.splits)

lemma rx_add_used_written:
  assumes "writer_law V wr" and "rx_add_used V h len st g = (r, st', g')"
  shows "wr g' = wr g"
  using assms(2) mmio_written(2) [OF assms(1), of Net "''missing rx queue''" NET_QUEUE_RX h len "nt_mmio st" g]
  by (auto simp: rx_add_used_def split: prod.splits)

lemma flush_loop_outcome:
  assumes "flush_loop V len used saw st g = Some y" and law: "writer_law V wr" and log: "queue_log V tk rt"
  shows "\<forall>u s f. fst y = Inr (u, s, f) \<longrightarrow> (\<exists>hs. tk (snd (snd y)) = tk g @ hs \<and>
    (if f then wr (snd (snd y)) = wr g @ take len (rx_scratch st) \<and> len \<le> length (rx_scratch st) \<and>
        pending_rx_len (fst (snd y)) = None \<and> hs \<noteq> []
     else wr (snd (snd y)) = wr g \<and> pending_rx_len (fst (snd y)) = pending_rx_len st \<and> (s \<longleftrightarrow> saw \<or> hs \<noteq> [])))"
  using assms(1)
proof (induction rule: flush_loop_turns)
  case (no_chain used saw st g m g1)
  with mmio_pop_log [OF log no_chain] mmio_written(1) [OF law no_chain] show ?case by auto
next
  case (fits used saw st g c m g1 x g2 x2 st3 g3)
  then have "length (take len (rx_scratch st)) \<le> x_avail V x" by simp
  then obtain x' w' where "x_write_all V (take len (rx_scratch st)) x g1 = (Inr (), x', w')"
    "wr w' = wr g1 @ take len (rx_scratch st)" by (elim write_allE [OF law])
  with fits(5) have "wr g2 = wr g1 @ take len (rx_scratch st)" by simp
  with mmio_written(1) [OF law fits(1)] rx_add_used_written [OF law fits(6)] fits(4)
    mmio_pop_log [OF log fits(1)] write_all_log [OF log fits(5)] rx_add_used_log [OF log fits(6)]
  show ?case by simp
next
  case (small used saw st g c m g1 x st3 g3 y)
  note same = mmio_written(1) [OF law small(1)] rx_add_used_written [OF law small(4)] rx_add_used_state [OF small(4)]
  have "tk g3 = tk g @ [c_head V c]"
    using mmio_pop_log [OF log small(1)] rx_add_used_log [OF log small(4)] by simp
  with small(5) same show ?case by fastforce
qed auto


definition sim_waiting :: "sim_queue NetState" where
  "sim_waiting = sim_net\<lparr>rx_scratch := replicate 14 7 @ replicate 18 0, pending_rx_len := Some 14\<rparr>"

definition sim_small_then_big :: sim_world where
  "sim_small_then_big = sim_start\<lparr>sim_avail :=
     [\<lparr>sc_head = 1, sc_in = [], sc_room = 5\<rparr>, \<lparr>sc_head = 2, sc_in = [], sc_room = 20\<rparr>]\<rparr>"

lemma sim_waiting_run:
  "case flush_pending_rx sim_virtq sim_waiting sim_small_then_big of
     Some (r, st', g') \<Rightarrow> r = Inr True \<and> sim_used g' = [(1, 0), (2, 14)] \<and> sim_written g' \<noteq> [] | None \<Rightarrow> False"
  by code_simp


end
