(* ===== verification/VsockMux.thy ===== *)
theory VsockMux
  imports Config "HOL-Library.AList" "HOL-Library.Monad_Syntax"
begin

text \<open>
  \<^verbatim>\<open>src/devices/vsock_mux.rs\<close>: the host side of virtio-vsock. The multiplexer maps each
  flow (guest port, host port) to a connection on a Unix stream socket, keeps the credit
  accounts of both directions and queues the packets for the guest. The operating system is
  the parameter \<open>'w sock\<close> over a world \<open>'w\<close>. An operation that calls a loop around a system
  call returns an option: \<open>None\<close> stands for a call that never returns (endless interrupts)
  or panics. The hash map of connections is an association list, which fixes one of the
  orders in which the map may be walked.
\<close>

section \<open>Constants and packets\<close>

definition HOST_CID :: u64 where [const_defs]: "HOST_CID = 2"
definition TYPE_STREAM :: u16 where [const_defs]: "TYPE_STREAM = 1"
definition OP_REQUEST :: u16 where [const_defs]: "OP_REQUEST = 1"
definition OP_RESPONSE :: u16 where [const_defs]: "OP_RESPONSE = 2"
definition OP_RST :: u16 where [const_defs]: "OP_RST = 3"
definition OP_SHUTDOWN :: u16 where [const_defs]: "OP_SHUTDOWN = 4"
definition OP_RW :: u16 where [const_defs]: "OP_RW = 5"
definition OP_CREDIT_UPDATE :: u16 where [const_defs]: "OP_CREDIT_UPDATE = 6"
definition OP_CREDIT_REQUEST :: u16 where [const_defs]: "OP_CREDIT_REQUEST = 7"
definition SHUTDOWN_RCV :: u32 where [const_defs]: "SHUTDOWN_RCV = 1"
definition SHUTDOWN_SEND :: u32 where [const_defs]: "SHUTDOWN_SEND = 2"
definition HDR_LEN :: nat where [const_defs]: "HDR_LEN = 44"
definition BUF_ALLOC :: u32 where [const_defs]: "BUF_ALLOC = 256 * 1024"
definition MAX_CHUNK :: nat where [const_defs]: "MAX_CHUNK = 16 * 1024"
definition MAX_PAYLOAD :: nat where [const_defs]: "MAX_PAYLOAD = 64 * 1024"
definition MAX_CONNS :: nat where [const_defs]: "MAX_CONNS = 128"
definition MAX_PREFETCH :: nat where [const_defs]: "MAX_PREFETCH = 64 * 1024"
definition MAX_UDS_PATH :: nat where [const_defs]: "MAX_UDS_PATH = 107 - 11"

text \<open>Instants and durations are nanoseconds.\<close>

definition REQUEST_TIMEOUT :: nat where [const_defs]: "REQUEST_TIMEOUT = 2 * 10 ^ 9"
definition SHUTDOWN_TIMEOUT :: nat where [const_defs]: "SHUTDOWN_TIMEOUT = 2 * 10 ^ 9"

definition validate_guest_cid :: "u64 \<Rightarrow> (error, unit) result" where
  "validate_guest_cid cid =
     (if 3 \<le> cid \<and> cid < 0xffffffff then Inr ()
      else Inl (Vsock (Msg (''guest CID '' @ decimal (unat cid) @
                            '' is reserved or does not fit in 32 bits''))))"

record Header =
  hdr_src_cid :: u64
  hdr_dst_cid :: u64
  hdr_src_port :: u32
  hdr_dst_port :: u32
  hdr_len :: u32
  hdr_type :: u16
  hdr_op :: u16
  hdr_flags :: u32
  hdr_buf_alloc :: u32
  hdr_fwd_cnt :: u32

definition slice :: "nat \<Rightarrow> nat \<Rightarrow> 'a list \<Rightarrow> 'a list" where
  "slice from len xs = take len (drop from xs)"

definition Header_parse :: "bytes \<Rightarrow> Header" where
  "Header_parse raw =
     \<lparr>hdr_src_cid = le_word (slice 0 8 raw), hdr_dst_cid = le_word (slice 8 8 raw),
      hdr_src_port = le_word (slice 16 4 raw), hdr_dst_port = le_word (slice 20 4 raw),
      hdr_len = le_word (slice 24 4 raw), hdr_type = le_word (slice 28 2 raw),
      hdr_op = le_word (slice 30 2 raw), hdr_flags = le_word (slice 32 4 raw),
      hdr_buf_alloc = le_word (slice 36 4 raw), hdr_fwd_cnt = le_word (slice 40 4 raw)\<rparr>"

record Flow =
  guest_port :: u32
  host_port :: u32

record OutPkt =
  pkt_flow :: Flow
  pkt_op :: u16
  pkt_flags :: u32
  pkt_data :: bytes

definition OutPkt_ctrl :: "Flow \<Rightarrow> u16 \<Rightarrow> u32 \<Rightarrow> OutPkt" where
  "OutPkt_ctrl flow op flags = \<lparr>pkt_flow = flow, pkt_op = op, pkt_flags = flags, pkt_data = []\<rparr>"

definition OutPkt_header :: "OutPkt \<Rightarrow> u64 \<Rightarrow> u32 \<Rightarrow> u32 \<Rightarrow> bytes" where
  "OutPkt_header pkt cid buf_alloc fwd_cnt =
     le_bytes 8 HOST_CID @ le_bytes 8 cid @
     le_bytes 4 (host_port (pkt_flow pkt)) @ le_bytes 4 (guest_port (pkt_flow pkt)) @
     le_bytes 4 (of_nat (length (pkt_data pkt)) :: u32) @ le_bytes 2 TYPE_STREAM @
     le_bytes 2 (pkt_op pkt) @ le_bytes 4 (pkt_flags pkt) @ le_bytes 4 buf_alloc @
     le_bytes 4 fwd_cnt"

section \<open>Connections\<close>

datatype Phase = WaitGuest | Established

record Conn =
  cn_fd :: int
  phase :: Phase
  connecting :: bool
  peer_buf_alloc :: u32
  peer_fwd_cnt :: u32
  sent_to_guest :: u32
  received :: u32
  fwd_cnt :: u32
  last_fwd_sent :: u32
  buf_alloc :: u32
  to_host :: bytes
  ok_pending :: bytes
  prefetched :: bytes
  local_shut_send :: bool
  local_shut_recv :: bool
  peer_shut_send :: bool
  peer_shut_recv :: bool
  host_write_shut :: bool
  expiry :: "nat option"

definition Conn_new :: "int \<Rightarrow> Phase \<Rightarrow> Conn" where
  "Conn_new fd ph =
     \<lparr>cn_fd = fd, phase = ph, connecting = False, peer_buf_alloc = 0, peer_fwd_cnt = 0,
      sent_to_guest = 0, received = 0, fwd_cnt = 0, last_fwd_sent = 0, buf_alloc = BUF_ALLOC,
      to_host = [], ok_pending = [], prefetched = [], local_shut_send = False,
      local_shut_recv = False, peer_shut_send = False, peer_shut_recv = False,
      host_write_shut = False, expiry = None\<rparr>"

definition peer_avail :: "Conn \<Rightarrow> u32" where
  "peer_avail c = saturating_sub (peer_buf_alloc c) (sent_to_guest c - peer_fwd_cnt c)"

definition local_free :: "Conn \<Rightarrow> u32" where
  "local_free c = saturating_sub (buf_alloc c) (received c - fwd_cnt c)"

record Incoming =
  inc_fd :: int
  inc_buf :: bytes

datatype ConnectResult = Done | Pending | Fail

record Mux =
  mux_guest_cid :: u64
  mux_path :: bytes
  listener :: int
  incoming :: "Incoming list"
  conns :: "(Flow \<times> Conn) list"
  next_host_port :: u32
  out_ctrl :: "OutPkt list"
  out_data :: "OutPkt list"

section \<open>The operating system\<close>

text \<open>
  The system calls of the module. Errors are error numbers; \<open>sk_read\<close> returns the bytes it
  put at the front of the buffer; \<open>sk_close\<close> is what dropping an owned file does.
\<close>

record 'w sock =
  sk_socket :: "'w \<Rightarrow> (int, int, 'w) effect"
  sk_bind :: "int \<Rightarrow> bytes \<Rightarrow> 'w \<Rightarrow> (int, unit, 'w) effect"
  sk_listen :: "int \<Rightarrow> nat \<Rightarrow> 'w \<Rightarrow> (int, unit, 'w) effect"
  sk_accept :: "int \<Rightarrow> 'w \<Rightarrow> (int, int, 'w) effect"
  sk_connect :: "int \<Rightarrow> bytes \<Rightarrow> 'w \<Rightarrow> (int, unit, 'w) effect"
  sk_send :: "int \<Rightarrow> bytes \<Rightarrow> 'w \<Rightarrow> (int, nat, 'w) effect"
  sk_read :: "int \<Rightarrow> nat \<Rightarrow> 'w \<Rightarrow> (int, bytes, 'w) effect"
  sk_shutdown :: "int \<Rightarrow> int \<Rightarrow> 'w \<Rightarrow> 'w"
  sk_so_error :: "int \<Rightarrow> 'w \<Rightarrow> (int, int, 'w) effect"
  sk_close :: "int \<Rightarrow> 'w \<Rightarrow> 'w"
  sk_now :: "'w \<Rightarrow> nat \<times> 'w"
  fs_lstat_is_socket :: "bytes \<Rightarrow> 'w \<Rightarrow> bool option \<times> 'w"
  fs_remove :: "bytes \<Rightarrow> 'w \<Rightarrow> (io_error, unit, 'w) effect"

definition SHUT_RD :: int where [const_defs]: "SHUT_RD = 0"
definition SHUT_WR :: int where [const_defs]: "SHUT_WR = 1"

definition transient :: "io_error \<Rightarrow> bool" where
  "transient err \<longleftrightarrow> io_kind_of err = WouldBlock \<or> raw_os_error err = Some EINTR"

partial_function (option) send_nosig ::
  "'w sock \<Rightarrow> int \<Rightarrow> bytes \<Rightarrow> 'w \<Rightarrow> (io_error, nat, 'w) effect option" where
  "send_nosig S fd buf w =
     (case sk_send S fd buf w of
       (Inr n, w') \<Rightarrow> Some (Inr n, w')
     | (Inl e, w') \<Rightarrow> if e = EINTR then send_nosig S fd buf w' else Some (Inl (Os e), w'))"

partial_function (option) read_fd ::
  "'w sock \<Rightarrow> int \<Rightarrow> nat \<Rightarrow> 'w \<Rightarrow> (io_error, bytes, 'w) effect option" where
  "read_fd S fd n w =
     (case sk_read S fd n w of
       (Inr bs, w') \<Rightarrow> Some (Inr bs, w')
     | (Inl e, w') \<Rightarrow> if e = EINTR then read_fd S fd n w' else Some (Inl (Os e), w'))"

definition socket_error :: "'w sock \<Rightarrow> int \<Rightarrow> 'w \<Rightarrow> (io_error, int, 'w) effect" where
  "socket_error S fd w = map_err Os (sk_so_error S fd w)"

definition unix_stream :: "'w sock \<Rightarrow> 'w \<Rightarrow> (io_error, int, 'w) effect" where
  "unix_stream S w = map_err Os (sk_socket S w)"

definition bind_unix :: "'w sock \<Rightarrow> int \<Rightarrow> bytes \<Rightarrow> 'w \<Rightarrow> (io_error, unit, 'w) effect" where
  "bind_unix S fd path w = map_err Os (sk_bind S fd path w)"

definition connect_unix :: "'w sock \<Rightarrow> int \<Rightarrow> bytes \<Rightarrow> 'w \<Rightarrow> ConnectResult \<times> 'w" where
  "connect_unix S fd path w =
     (if length path > 107 then (Fail, w)
      else case sk_connect S fd path w of
        (Inr _, w') \<Rightarrow> (Done, w')
      | (Inl e, w') \<Rightarrow> (if e = EINPROGRESS then Pending else Fail, w'))"

text \<open>\<^verbatim>\<open>Vec::drain(..n)\<close> panics beyond the end.\<close>

definition drain :: "nat \<Rightarrow> bytes \<Rightarrow> bytes option" where
  "drain n xs = (if n \<le> length xs then Some (drop n xs) else None)"

partial_function (option) flush_ok ::
  "'w sock \<Rightarrow> Conn \<Rightarrow> 'w \<Rightarrow> ((io_error, unit) result \<times> Conn \<times> 'w) option" where
  "flush_ok S c w =
     (if ok_pending c = [] then Some (Inr (), c, w)
      else do {
        (r, w) \<leftarrow> send_nosig S (cn_fd c) (ok_pending c) w;
        case r of
          Inl e \<Rightarrow> Some (Inl e, c, w)
        | Inr n \<Rightarrow>
            if n = 0 then Some (Inl (Custom WriteZero ''vsock handshake write returned 0''), c, w)
            else do { rest \<leftarrow> drain n (ok_pending c); flush_ok S (c\<lparr>ok_pending := rest\<rparr>) w }
      })"

partial_function (option) flush_to_host ::
  "'w sock \<Rightarrow> Conn \<Rightarrow> 'w \<Rightarrow> ((io_error, unit) result \<times> Conn \<times> 'w) option" where
  "flush_to_host S c w =
     (if to_host c = [] then Some (Inr (), c, w)
      else do {
        (r, w) \<leftarrow> send_nosig S (cn_fd c) (to_host c) w;
        case r of
          Inl e \<Rightarrow> Some (Inl e, c, w)
        | Inr n \<Rightarrow>
            if n = 0 then Some (Inl (Custom WriteZero ''vsock write returned 0''), c, w)
            else do {
              rest \<leftarrow> drain n (to_host c);
              flush_to_host S (c\<lparr>to_host := rest, fwd_cnt := fwd_cnt c + of_nat n\<rparr>) w
            }
      })"

definition parse_connect :: "bytes \<Rightarrow> u32 option" where
  "parse_connect line =
     (if take 8 line \<noteq> ascii ''CONNECT '' then None
      else (let rest = drop 8 line
            in if rest = [] \<or> \<not> list_all is_ascii_digit rest then None
               else (case parse_digits rest of
                      None \<Rightarrow> None
                    | Some port \<Rightarrow> if port = 0 then None else Some port)))"

section \<open>The multiplexer\<close>

subsection \<open>Queues, ports and credit\<close>

definition has_out :: "Mux \<Rightarrow> bool" where
  "has_out m \<longleftrightarrow> out_ctrl m \<noteq> [] \<or> out_data m \<noteq> []"

definition pop_out :: "Mux \<Rightarrow> OutPkt option \<times> Mux" where
  "pop_out m =
     (case out_ctrl m of
       p # ps \<Rightarrow> (Some p, m\<lparr>out_ctrl := ps\<rparr>)
     | [] \<Rightarrow> (case out_data m of
         p # ps \<Rightarrow> (Some p, m\<lparr>out_data := ps\<rparr>)
       | [] \<Rightarrow> (None, m)))"

definition push_front_out :: "OutPkt \<Rightarrow> Mux \<Rightarrow> Mux" where
  "push_front_out p m =
     (if pkt_op p = OP_RW then m\<lparr>out_data := p # out_data m\<rparr>
      else m\<lparr>out_ctrl := p # out_ctrl m\<rparr>)"

definition enqueue :: "OutPkt \<Rightarrow> Mux \<Rightarrow> Mux" where
  "enqueue p m =
     (if pkt_op p = OP_RW then m\<lparr>out_data := out_data m @ [p]\<rparr>
      else m\<lparr>out_ctrl := out_ctrl m @ [p]\<rparr>)"

definition enqueue_rst :: "Flow \<Rightarrow> Mux \<Rightarrow> Mux" where
  "enqueue_rst flow m =
     enqueue (OutPkt_ctrl flow OP_RST 0)
       (m\<lparr>out_ctrl := filter (\<lambda>p. \<not> (pkt_flow p = flow \<and> pkt_op p = OP_RST)) (out_ctrl m)\<rparr>)"

text \<open>\<^verbatim>\<open>conns.get\<close>, and \<^verbatim>\<open>conns.get_mut\<close> with the update done through the reference.\<close>

definition get_conn :: "Mux \<Rightarrow> Flow \<Rightarrow> Conn option" where
  "get_conn m flow = map_of (conns m) flow"

definition put_conn :: "Flow \<Rightarrow> Conn \<Rightarrow> Mux \<Rightarrow> Mux" where
  "put_conn flow c m = m\<lparr>conns := AList.update flow c (conns m)\<rparr>"

definition with_conn :: "Flow \<Rightarrow> (Conn \<Rightarrow> Conn) \<Rightarrow> Mux \<Rightarrow> Mux" where
  "with_conn flow f m =
     (case get_conn m flow of None \<Rightarrow> m | Some c \<Rightarrow> put_conn flow (f c) m)"

definition credit_of :: "Mux \<Rightarrow> Flow \<Rightarrow> u32 \<times> u32" where
  "credit_of m flow =
     (case get_conn m flow of Some c \<Rightarrow> (buf_alloc c, fwd_cnt c) | None \<Rightarrow> (0, 0))"

fun alloc_port_loop :: "nat \<Rightarrow> Mux \<Rightarrow> u32 option \<times> Mux" where
  "alloc_port_loop 0 m = (None, m)"
| "alloc_port_loop (Suc k) m =
     (let port = next_host_port m;
          m' = m\<lparr>next_host_port := (if port = 0xffffffff then 1024 else port + 1)\<rparr>
      in if port < 1024 then alloc_port_loop k m'
         else if list_ex (\<lambda>(flow, _). host_port flow = port) (conns m') then alloc_port_loop k m'
         else (Some port, m'))"

definition alloc_host_port :: "Mux \<Rightarrow> u32 option \<times> Mux" where
  "alloc_host_port m = alloc_port_loop 60000 m"

definition peer_socket_path :: "Mux \<Rightarrow> u32 \<Rightarrow> bytes option" where
  "peer_socket_path m port =
     (let name = mux_path m @ ascii (''_'' @ decimal (unat port))
      in if length name > 107 then None else Some name)"

definition queued_ctrl :: "Flow \<Rightarrow> u16 \<Rightarrow> Mux \<Rightarrow> bool" where
  "queued_ctrl flow op m \<longleftrightarrow> list_ex (\<lambda>p. pkt_flow p = flow \<and> pkt_op p = op) (out_ctrl m)"

definition request_credit :: "Flow \<Rightarrow> Mux \<Rightarrow> Mux" where
  "request_credit flow m =
     (if queued_ctrl flow OP_CREDIT_REQUEST m then m
      else enqueue (OutPkt_ctrl flow OP_CREDIT_REQUEST 0) m)"

definition enqueue_credit :: "Flow \<Rightarrow> Mux \<Rightarrow> Mux" where
  "enqueue_credit flow m =
     (if queued_ctrl flow OP_CREDIT_UPDATE m then m
      else enqueue (OutPkt_ctrl flow OP_CREDIT_UPDATE 0)
        (with_conn flow (\<lambda>c. c\<lparr>last_fwd_sent := fwd_cnt c\<rparr>) m))"

definition maybe_credit :: "Flow \<Rightarrow> Mux \<Rightarrow> Mux" where
  "maybe_credit flow m =
     (case get_conn m flow of
       None \<Rightarrow> m
     | Some c \<Rightarrow>
         (let delta = fwd_cnt c - last_fwd_sent c; thresh = max (buf_alloc c div 4) 4096
          in if delta < thresh then m
             else if queued_ctrl flow OP_CREDIT_UPDATE m then m
             else enqueue (OutPkt_ctrl flow OP_CREDIT_UPDATE 0)
               (with_conn flow (\<lambda>c. c\<lparr>last_fwd_sent := fwd_cnt c\<rparr>) m)))"

subsection \<open>From the host socket to the guest\<close>

definition stash_prefetch :: "Flow \<Rightarrow> bytes \<Rightarrow> Mux \<Rightarrow> Mux" where
  "stash_prefetch flow data m =
     with_conn flow
       (\<lambda>c. let room = MAX_PREFETCH - length (prefetched c); n = min (length data) room
            in c\<lparr>prefetched := prefetched c @ take n data\<rparr>) m"

function ingest :: "Flow \<Rightarrow> bytes \<Rightarrow> Mux \<Rightarrow> Mux" where
  "ingest flow rest m =
     (if rest = [] then m
      else case get_conn m flow of
        None \<Rightarrow> m
      | Some c \<Rightarrow>
          if phase c \<noteq> Established \<or> local_shut_send c \<or> peer_shut_recv c then
            (if length (prefetched c) < MAX_PREFETCH then
               (let room = MAX_PREFETCH - length (prefetched c); n = min (length rest) room
                in with_conn flow (\<lambda>c. c\<lparr>prefetched := prefetched c @ take n rest\<rparr>) m)
             else m)
          else
            (let credit = unat (peer_avail c)
             in if credit = 0 then request_credit flow (stash_prefetch flow rest m)
                else
                  (let n = min (min (length rest) credit) MAX_CHUNK;
                       chunk = take n rest;
                       m' = with_conn flow
                              (\<lambda>c. c\<lparr>sent_to_guest := sent_to_guest c + of_nat n\<rparr>) m
                   in ingest flow (drop n rest)
                        (m'\<lparr>out_data := out_data m' @
                           [\<lparr>pkt_flow = flow, pkt_op = OP_RW, pkt_flags = 0, pkt_data = chunk\<rparr>]\<rparr>))))"
  by pat_completeness auto

termination
  by (relation "measure (\<lambda>(flow, rest, m). length rest)") (auto simp: const_defs)

declare ingest.simps [simp del]

subsection \<open>Ending connections\<close>

definition drop_conn :: "'w sock \<Rightarrow> Flow \<Rightarrow> bool \<Rightarrow> Mux \<Rightarrow> 'w \<Rightarrow> Mux \<times> 'w" where
  "drop_conn S flow rst m w =
     (let w' = (case get_conn m flow of None \<Rightarrow> w | Some c \<Rightarrow> sk_close S (cn_fd c) w);
          m' = m\<lparr>conns := AList.delete flow (conns m),
                 out_ctrl := filter (\<lambda>p. pkt_flow p \<noteq> flow) (out_ctrl m),
                 out_data := filter (\<lambda>p. pkt_flow p \<noteq> flow) (out_data m)\<rparr>
      in (if rst then enqueue_rst flow m' else m', w'))"

definition reset_flow :: "'w sock \<Rightarrow> u32 \<Rightarrow> u32 \<Rightarrow> Mux \<Rightarrow> 'w \<Rightarrow> Mux \<times> 'w" where
  "reset_flow S gport hport m w =
     drop_conn S \<lparr>guest_port = gport, host_port = hport\<rparr> True m w"

definition waiting :: "Mux \<Rightarrow> Flow \<Rightarrow> bool" where
  "waiting m flow \<longleftrightarrow>
     (case get_conn m flow of Some c \<Rightarrow> phase c = WaitGuest | None \<Rightarrow> False)"

definition mark_local_shut ::
  "'w sock \<Rightarrow> Flow \<Rightarrow> bool \<Rightarrow> bool \<Rightarrow> Mux \<Rightarrow> 'w \<Rightarrow> Mux \<times> 'w" where
  "mark_local_shut S flow recv send m w =
     (if waiting m flow then drop_conn S flow True m w
      else case get_conn m flow of
        None \<Rightarrow> (m, w)
      | Some c \<Rightarrow>
          (let shut_send = (send \<and> \<not> local_shut_send c);
               shut_recv = (recv \<and> \<not> local_shut_recv c);
               flags = (if shut_send then SHUTDOWN_SEND else 0) OR
                       (if shut_recv then SHUTDOWN_RCV else 0);
               c1 = (if shut_send then c\<lparr>local_shut_send := True\<rparr> else c);
               c2 = (if shut_recv then c1\<lparr>local_shut_recv := True\<rparr> else c1)
           in if flags \<noteq> 0 then
                (let (t, w') = sk_now S w
                 in (enqueue (OutPkt_ctrl flow OP_SHUTDOWN flags)
                      (put_conn flow (c2\<lparr>expiry := Some (t + SHUTDOWN_TIMEOUT)\<rparr>) m), w'))
              else (put_conn flow c2 m, w)))"

definition on_host_eof :: "'w sock \<Rightarrow> Flow \<Rightarrow> Mux \<Rightarrow> 'w \<Rightarrow> Mux \<times> 'w" where
  "on_host_eof S flow m w =
     (if waiting m flow then drop_conn S flow True m w
      else mark_local_shut S flow False True m w)"

subsection \<open>From the guest to the host socket\<close>

text \<open>
  \<^verbatim>\<open>flush_conn\<close>: both write loops (\<^verbatim>\<open>flush_ok(conn).and_then(..)\<close>), then what follows their
  result.
\<close>

definition flush_both ::
  "'w sock \<Rightarrow> Conn \<Rightarrow> 'w \<Rightarrow> ((io_error, unit) result \<times> Conn \<times> 'w) option" where
  "flush_both S c w = do {
     (r, c, w) \<leftarrow> flush_ok S c w;
     case r of Inl e \<Rightarrow> Some (Inl e, c, w) | Inr _ \<Rightarrow> flush_to_host S c w
   }"

definition flush_rest ::
  "'w sock \<Rightarrow> Flow \<Rightarrow> Mux \<Rightarrow> (io_error, unit) result \<times> Conn \<times> 'w \<Rightarrow> Mux \<times> 'w" where
  "flush_rest S flow m x =
     (case x of (r, c, w) \<Rightarrow>
       let m = put_conn flow c m
       in case r of
           Inl _ \<Rightarrow> mark_local_shut S flow True True m w
         | Inr _ \<Rightarrow>
             let (c, w) =
               (if peer_shut_send c \<and> to_host c = [] \<and> \<not> host_write_shut c
                then (c\<lparr>host_write_shut := True\<rparr>, sk_shutdown S (cn_fd c) SHUT_WR w)
                else (c, w))
             in if ok_pending c \<noteq> [] then (put_conn flow c m, w)
                else let taken = prefetched c;
                         m = put_conn flow (c\<lparr>prefetched := []\<rparr>) m;
                         m = (if taken \<noteq> [] then ingest flow taken m else m)
                     in (maybe_credit flow m, w))"

definition flush_conn :: "'w sock \<Rightarrow> Flow \<Rightarrow> Mux \<Rightarrow> 'w \<Rightarrow> (Mux \<times> 'w) option" where
  "flush_conn S flow m w =
     (case get_conn m flow of
       None \<Rightarrow> Some (m, w)
     | Some c \<Rightarrow> map_option (flush_rest S flow m) (flush_both S c w))"

definition finish_connect :: "'w sock \<Rightarrow> Flow \<Rightarrow> Mux \<Rightarrow> 'w \<Rightarrow> Mux \<times> 'w" where
  "finish_connect S flow m w =
     (case get_conn m flow of
       None \<Rightarrow> (m, w)
     | Some c \<Rightarrow>
         (case socket_error S (cn_fd c) w of
           (r, w') \<Rightarrow>
             if r = Inr 0 then
               (enqueue (OutPkt_ctrl flow OP_RESPONSE 0)
                 (with_conn flow (\<lambda>c. c\<lparr>connecting := False, expiry := None\<rparr>) m), w')
             else drop_conn S flow True m w'))"

definition on_response :: "'w sock \<Rightarrow> Flow \<Rightarrow> Mux \<Rightarrow> 'w \<Rightarrow> (Mux \<times> 'w) option" where
  "on_response S flow m w =
     (case get_conn m flow of
       None \<Rightarrow> Some (m, w)
     | Some c \<Rightarrow>
         if phase c \<noteq> WaitGuest then Some (m, w)
         else flush_conn S flow
           (put_conn flow (c\<lparr>phase := Established, expiry := None,
              ok_pending := ascii (''OK '' @ decimal (unat (host_port flow)) @ [CHR 0x0A])\<rparr>) m) w)"

definition on_shutdown :: "'w sock \<Rightarrow> Flow \<Rightarrow> u32 \<Rightarrow> Mux \<Rightarrow> 'w \<Rightarrow> (Mux \<times> 'w) option" where
  "on_shutdown S flow flags m w =
     (let peer_recv = (flags AND SHUTDOWN_RCV \<noteq> 0); peer_send = (flags AND SHUTDOWN_SEND \<noteq> 0);
          (m, w) =
            (case get_conn m flow of
              None \<Rightarrow> (m, w)
            | Some c \<Rightarrow>
                (let (c, w) =
                   (if peer_recv
                    then (c\<lparr>peer_shut_recv := True, local_shut_send := True\<rparr>,
                          sk_shutdown S (cn_fd c) SHUT_RD w)
                    else (c, w));
                   c = (if peer_send then c\<lparr>peer_shut_send := True\<rparr> else c)
                 in (put_conn flow c m, w)))
      in flush_conn S flow m w)"

definition on_rw :: "'w sock \<Rightarrow> Flow \<Rightarrow> bytes \<Rightarrow> Mux \<Rightarrow> 'w \<Rightarrow> (Mux \<times> 'w) option" where
  "on_rw S flow data m w =
     (if data = [] then Some (m, w)
      else let accept = (case get_conn m flow of
                 None \<Rightarrow> False
               | Some c \<Rightarrow> phase c = Established \<and> \<not> local_shut_recv c \<and> \<not> peer_shut_send c)
           in if \<not> accept then Some (m, w)
              else let free = (case get_conn m flow of None \<Rightarrow> 0 | Some c \<Rightarrow> local_free c)
                   in if of_nat (length data) > free then Some (drop_conn S flow True m w)
                      else flush_conn S flow
                        (with_conn flow (\<lambda>c. c\<lparr>received := received c + of_nat (length data),
                                              to_host := to_host c @ data\<rparr>) m) w)"

definition on_guest_request ::
  "'w sock \<Rightarrow> Flow \<Rightarrow> Header \<Rightarrow> Mux \<Rightarrow> 'w \<Rightarrow> Mux \<times> 'w" where
  "on_guest_request S flow hdr m w =
     (if get_conn m flow \<noteq> None then drop_conn S flow True m w
      else if hdr_len hdr \<noteq> 0 then (enqueue_rst flow m, w)
      else case peer_socket_path m (host_port flow) of
        None \<Rightarrow> (enqueue_rst flow m, w)
      | Some path \<Rightarrow>
          (case unix_stream S w of
            (Inl _, w) \<Rightarrow> (enqueue_rst flow m, w)
          | (Inr fd, w) \<Rightarrow>
              (case connect_unix S fd path w of
                (Done, w) \<Rightarrow>
                  (enqueue (OutPkt_ctrl flow OP_RESPONSE 0)
                    (put_conn flow ((Conn_new fd Established)
                       \<lparr>peer_buf_alloc := hdr_buf_alloc hdr, peer_fwd_cnt := hdr_fwd_cnt hdr\<rparr>) m), w)
              | (Pending, w) \<Rightarrow>
                  (let (t, w) = sk_now S w
                   in (put_conn flow ((Conn_new fd Established)
                        \<lparr>connecting := True, peer_buf_alloc := hdr_buf_alloc hdr,
                         peer_fwd_cnt := hdr_fwd_cnt hdr, expiry := Some (t + REQUEST_TIMEOUT)\<rparr>) m, w))
              | (Fail, w) \<Rightarrow> (enqueue_rst flow m, sk_close S fd w))))"

definition handle_guest_pkt ::
  "'w sock \<Rightarrow> Header \<Rightarrow> bytes \<Rightarrow> Mux \<Rightarrow> 'w \<Rightarrow> (Mux \<times> 'w) option" where
  "handle_guest_pkt S hdr data m w =
     (if hdr_src_cid hdr \<noteq> mux_guest_cid m \<or> hdr_dst_cid hdr \<noteq> HOST_CID then Some (m, w)
      else let flow = \<lparr>guest_port = hdr_src_port hdr, host_port = hdr_dst_port hdr\<rparr>; op = hdr_op hdr
      in if hdr_type hdr \<noteq> TYPE_STREAM then
           Some (if op \<noteq> OP_RST then enqueue_rst flow m else m, w)
         else if op = OP_REQUEST then Some (on_guest_request S flow hdr m w)
         else if get_conn m flow = None then
           Some (if op \<noteq> OP_RST then enqueue_rst flow m else m, w)
         else
           let m = with_conn flow (\<lambda>c. c\<lparr>peer_buf_alloc := hdr_buf_alloc hdr,
                                        peer_fwd_cnt := hdr_fwd_cnt hdr\<rparr>) m
           in if op = OP_RESPONSE then on_response S flow m w
              else if op = OP_RST then Some (drop_conn S flow False m w)
              else if op = OP_SHUTDOWN then on_shutdown S flow (hdr_flags hdr) m w
              else if op = OP_RW then
                (if length data > MAX_PAYLOAD then Some (drop_conn S flow True m w)
                 else on_rw S flow data m w)
              else if op = OP_CREDIT_REQUEST then Some (enqueue_credit flow m, w)
              else Some (m, w))"

subsection \<open>Host-initiated connections\<close>

partial_function (option) accept_loop :: "'w sock \<Rightarrow> Mux \<Rightarrow> 'w \<Rightarrow> (Mux \<times> 'w) option" where
  "accept_loop S m w =
     (case sk_accept S (listener m) w of
       (Inl e, w') \<Rightarrow> if e = EINTR then accept_loop S m w' else Some (m, w')
     | (Inr fd, w') \<Rightarrow>
         if length (incoming m) + length (conns m) \<ge> MAX_CONNS
         then accept_loop S m (sk_close S fd w')
         else accept_loop S (m\<lparr>incoming := incoming m @ [\<lparr>inc_fd = fd, inc_buf = []\<rparr>]\<rparr>) w')"

definition remove_at :: "nat \<Rightarrow> 'a list \<Rightarrow> 'a list" where
  "remove_at i xs = take i xs @ drop (Suc i) xs"

definition finish_incoming :: "'w sock \<Rightarrow> nat \<Rightarrow> Mux \<Rightarrow> 'w \<Rightarrow> Mux \<times> 'w" where
  "finish_incoming S idx m w =
     (let inc = incoming m ! idx;
          m = m\<lparr>incoming := remove_at idx (incoming m)\<rparr>;
          line = takeWhile (\<lambda>b. b \<noteq> 10) (inc_buf inc)
      in if length line = length (inc_buf inc) then (m, sk_close S (inc_fd inc) w)
         else
          (let rest = drop (Suc (length line)) (inc_buf inc);
               line = (if line \<noteq> [] \<and> last line = 13 then butlast line else line)
           in case parse_connect line of
                None \<Rightarrow> (m, sk_close S (inc_fd inc) w)
              | Some gport \<Rightarrow>
                  (case alloc_host_port m of
                    (None, m) \<Rightarrow> (m, sk_close S (inc_fd inc) w)
                  | (Some hport, m) \<Rightarrow>
                      (let flow = \<lparr>guest_port = gport, host_port = hport\<rparr>
                       in if get_conn m flow \<noteq> None
                          then (enqueue_rst flow m, sk_close S (inc_fd inc) w)
                          else (let (t, w) = sk_now S w
                                in (enqueue (OutPkt_ctrl flow OP_REQUEST 0)
                                     (put_conn flow ((Conn_new (inc_fd inc) WaitGuest)
                                        \<lparr>prefetched := rest,
                                         expiry := Some (t + REQUEST_TIMEOUT)\<rparr>) m), w))))))"

definition drop_incoming :: "'w sock \<Rightarrow> nat \<Rightarrow> Mux \<Rightarrow> 'w \<Rightarrow> Mux \<times> 'w" where
  "drop_incoming S idx m w =
     (m\<lparr>incoming := remove_at idx (incoming m)\<rparr>, sk_close S (inc_fd (incoming m ! idx)) w)"

definition read_incoming :: "'w sock \<Rightarrow> nat \<Rightarrow> Mux \<Rightarrow> 'w \<Rightarrow> (Mux \<times> 'w) option" where
  "read_incoming S idx m w = do {
     (r, w) \<leftarrow> read_fd S (inc_fd (incoming m ! idx)) 64 w;
     Some (case r of
       Inr bs \<Rightarrow>
         if bs = [] then drop_incoming S idx m w
         else
           (let buf = inc_buf (incoming m ! idx) @ bs;
                m = m\<lparr>incoming := (incoming m)[idx := (incoming m ! idx)\<lparr>inc_buf := buf\<rparr>]\<rparr>;
                ready = (10 \<in> set buf); too_long = (length buf > 64 \<and> \<not> ready)
            in if too_long then drop_incoming S idx m w
               else if ready then finish_incoming S idx m w
               else (m, w))
     | Inl err \<Rightarrow> if transient err then (m, w) else drop_incoming S idx m w)
   }"

definition read_conn :: "'w sock \<Rightarrow> Flow \<Rightarrow> Mux \<Rightarrow> 'w \<Rightarrow> (Mux \<times> 'w) option" where
  "read_conn S flow m w =
     (case get_conn m flow of
       None \<Rightarrow> Some (m, w)
     | Some c \<Rightarrow> do {
         (r, w) \<leftarrow> read_fd S (cn_fd c) MAX_CHUNK w;
         Some (case r of
           Inr bs \<Rightarrow> if bs = [] then on_host_eof S flow m w else (ingest flow bs m, w)
         | Inl err \<Rightarrow> if transient err then (m, w) else mark_local_shut S flow True True m w)
       })"

subsection \<open>Polling\<close>

definition conn_events :: "Conn \<Rightarrow> u16" where
  "conn_events c =
     (let out = (if connecting c \<or> ok_pending c \<noteq> [] \<or> to_host c \<noteq> [] then POLLOUT else 0);
          want_read = (\<not> connecting c \<and> ok_pending c = [] \<and> \<not> local_shut_send c \<and>
                       length (prefetched c) < MAX_PREFETCH)
      in out OR (if want_read then POLLIN else 0))"

definition interests :: "Mux \<Rightarrow> (int \<times> u16) list" where
  "interests m =
     (listener m, POLLIN) # map (\<lambda>inc. (inc_fd inc, POLLIN)) (incoming m) @
     map (\<lambda>(_, c). (cn_fd c, conn_events c)) (filter (\<lambda>(_, c). conn_events c \<noteq> 0) (conns m))"

fun position :: "('a \<Rightarrow> bool) \<Rightarrow> 'a list \<Rightarrow> nat option" where
  "position P [] = None"
| "position P (x # xs) = (if P x then Some 0 else map_option Suc (position P xs))"

definition on_fd :: "'w sock \<Rightarrow> int \<Rightarrow> u16 \<Rightarrow> Mux \<Rightarrow> 'w \<Rightarrow> (Mux \<times> 'w) option" where
  "on_fd S fd revents m w =
     (if fd = listener m then accept_loop S m w
      else case position (\<lambda>inc. inc_fd inc = fd) (incoming m) of
        Some idx \<Rightarrow> read_incoming S idx m w
      | None \<Rightarrow>
          (case find (\<lambda>(_, c). cn_fd c = fd) (conns m) of
            None \<Rightarrow> Some (m, w)
          | Some (flow, _) \<Rightarrow> do {
              (m, w) \<leftarrow>
                (if revents AND (POLLIN OR POLLHUP OR POLLERR OR POLLNVAL) \<noteq> 0
                 then read_conn S flow m w else Some (m, w));
              case get_conn m flow of
                None \<Rightarrow> Some (m, w)
              | Some c \<Rightarrow>
                  if revents AND (POLLOUT OR POLLERR OR POLLNVAL) \<noteq> 0 then
                    (if connecting c then Some (finish_connect S flow m w)
                     else flush_conn S flow m w)
                  else Some (m, w)
            }))"

fun drop_conns :: "'w sock \<Rightarrow> Flow list \<Rightarrow> Mux \<Rightarrow> 'w \<Rightarrow> Mux \<times> 'w" where
  "drop_conns S [] m w = (m, w)"
| "drop_conns S (flow # flows) m w =
     (let (m, w) = drop_conn S flow True m w in drop_conns S flows m w)"

definition expired :: "nat \<Rightarrow> Conn \<Rightarrow> bool" where
  "expired now c \<longleftrightarrow> (case expiry c of Some deadline \<Rightarrow> deadline \<le> now | None \<Rightarrow> False)"

definition check_timeouts :: "'w sock \<Rightarrow> nat \<Rightarrow> Mux \<Rightarrow> 'w \<Rightarrow> Mux \<times> 'w" where
  "check_timeouts S now m w =
     drop_conns S (map fst (filter (\<lambda>(_, c). expired now c) (conns m))) m w"

definition close_all :: "'w sock \<Rightarrow> int list \<Rightarrow> 'w \<Rightarrow> 'w" where
  "close_all S fds w = fold (sk_close S) fds w"

definition kill_connections :: "'w sock \<Rightarrow> Mux \<Rightarrow> 'w \<Rightarrow> Mux \<times> 'w" where
  "kill_connections S m w =
     (m\<lparr>incoming := [], conns := [], out_ctrl := [], out_data := []\<rparr>,
      close_all S (map (\<lambda>(_, c). cn_fd c) (conns m)) (close_all S (map inc_fd (incoming m)) w))"

subsection \<open>Creation and destruction\<close>

definition Mux_bind :: "'w sock \<Rightarrow> u64 \<Rightarrow> bytes \<Rightarrow> 'w \<Rightarrow> (error, Mux, 'w) effect" where
  "Mux_bind S cid path w =
     (case validate_guest_cid cid of Inl e \<Rightarrow> (Inl e, w) | Inr _ \<Rightarrow>
      if path = [] \<or> length path > MAX_UDS_PATH then
        (Inl (Vsock (Msg ''vsock socket path is empty or too long'')), w)
      else if 0 \<in> set path then
        (Inl (Vsock (Msg ''vsock socket path contains an interior NUL'')), w)
      else
        try_then
          (case fs_lstat_is_socket S path w of
            (None, w) \<Rightarrow> (Inr (), w)
          | (Some True, w) \<Rightarrow>
              map_err (\<lambda>e. Vsock (MsgPath ''remove '' path '': '' (Some e))) (fs_remove S path w)
          | (Some False, w) \<Rightarrow>
              (Inl (Vsock (MsgPath '''' path '' exists and is not a socket'' None)), w)) (\<lambda>_ w.
        try_then (map_err (\<lambda>e. Vsock (MsgIo ''vsock socket: '' e)) (unix_stream S w)) (\<lambda>fd w.
        (case bind_unix S fd path w of
          (Inl e, w) \<Rightarrow> (Inl (Vsock (MsgPath ''bind '' path '': '' (Some e))), sk_close S fd w)
        | (Inr _, w) \<Rightarrow>
            (case sk_listen S fd 128 w of
              (Inl e, w) \<Rightarrow>
                (Inl (Vsock (MsgPath ''listen '' path '': '' (Some (Os e)))), sk_close S fd w)
            | (Inr _, w) \<Rightarrow>
                (Inr \<lparr>mux_guest_cid = cid, mux_path = path, listener = fd, incoming = [],
                      conns = [], next_host_port = 1024, out_ctrl = [], out_data = []\<rparr>, w))))))"

definition Mux_drop :: "'w sock \<Rightarrow> Mux \<Rightarrow> 'w \<Rightarrow> 'w" where
  "Mux_drop S m w =
     (let w = snd (fs_remove S (mux_path m) w)
      in close_all S (listener m # map inc_fd (incoming m) @ map (\<lambda>(_, c). cn_fd c) (conns m)) w)"

end
