(* ===== verification/VsockMuxInv.thy ===== *)
theory VsockMuxInv
  imports VsockMux
begin

text \<open>
  The invariant of the vsock multiplexer and its preservation by every operation, hence in
  every reachable state: the account of bytes held for the host is exact and within the
  advertised buffer, prefetched bytes are bounded, control and data packets sit in the
  right queues, data packets belong to live connections, and flows are unique.
\<close>

section \<open>Looking up and updating connections\<close>

lemma get_conn_put [simp]:
  "get_conn (put_conn f c m) g = (if f = g then Some c else get_conn m g)"
  by (simp add: get_conn_def put_conn_def update_conv')

lemma put_conn_fields [simp]:
  "out_ctrl (put_conn f c m) = out_ctrl m" "out_data (put_conn f c m) = out_data m"
  "incoming (put_conn f c m) = incoming m" "next_host_port (put_conn f c m) = next_host_port m"
  "listener (put_conn f c m) = listener m" "mux_guest_cid (put_conn f c m) = mux_guest_cid m"
  "mux_path (put_conn f c m) = mux_path m"
  by (simp_all add: put_conn_def)

lemma get_conn_with [simp]:
  "get_conn (with_conn f h m) g = (if f = g then map_option h (get_conn m g) else get_conn m g)"
  by (simp add: with_conn_def split: option.splits)

lemma with_conn_fields [simp]:
  "out_ctrl (with_conn f h m) = out_ctrl m" "out_data (with_conn f h m) = out_data m"
  "incoming (with_conn f h m) = incoming m" "next_host_port (with_conn f h m) = next_host_port m"
  "listener (with_conn f h m) = listener m" "mux_guest_cid (with_conn f h m) = mux_guest_cid m"
  "mux_path (with_conn f h m) = mux_path m"
  by (simp_all add: with_conn_def split: option.splits)

lemma enqueue_ctrl [simp]:
  "op \<noteq> OP_RW \<Longrightarrow> enqueue (OutPkt_ctrl f op fl) m = m\<lparr>out_ctrl := out_ctrl m @ [OutPkt_ctrl f op fl]\<rparr>"
  by (simp add: enqueue_def OutPkt_ctrl_def)

lemma ops_not_rw [simp]:
  "OP_REQUEST \<noteq> OP_RW" "OP_RESPONSE \<noteq> OP_RW" "OP_RST \<noteq> OP_RW" "OP_SHUTDOWN \<noteq> OP_RW"
  "OP_CREDIT_UPDATE \<noteq> OP_RW" "OP_CREDIT_REQUEST \<noteq> OP_RW"
  by (simp_all add: const_defs)

lemma get_conn_more [simp]:
  "get_conn (m\<lparr>out_ctrl := x\<rparr>) f = get_conn m f" "get_conn (m\<lparr>out_data := x\<rparr>) f = get_conn m f"
  "get_conn (m\<lparr>incoming := y\<rparr>) f = get_conn m f" "get_conn (m\<lparr>next_host_port := z\<rparr>) f = get_conn m f"
  by (simp_all add: get_conn_def)

section \<open>The invariant\<close>

definition conn_inv :: "Conn \<Rightarrow> bool" where
  "conn_inv c \<longleftrightarrow>
     buf_alloc c = BUF_ALLOC \<and>
     unat (received c - fwd_cnt c) = length (to_host c) \<and>
     length (to_host c) \<le> unat BUF_ALLOC \<and>
     length (prefetched c) \<le> MAX_PREFETCH \<and>
     (phase c = WaitGuest \<longrightarrow> to_host c = [] \<and> ok_pending c = [])"

definition ctrl_ok :: "OutPkt \<Rightarrow> bool" where
  "ctrl_ok p \<longleftrightarrow> pkt_op p \<noteq> OP_RW \<and> pkt_data p = []"

definition data_ok :: "Mux \<Rightarrow> OutPkt \<Rightarrow> bool" where
  "data_ok m p \<longleftrightarrow> pkt_op p = OP_RW \<and> pkt_data p \<noteq> [] \<and> length (pkt_data p) \<le> MAX_CHUNK \<and>
     get_conn m (pkt_flow p) \<noteq> None"

definition incoming_ok :: "Incoming \<Rightarrow> bool" where
  "incoming_ok i \<longleftrightarrow> length (inc_buf i) \<le> 64 \<and> 10 \<notin> set (inc_buf i)"

definition mux_inv :: "Mux \<Rightarrow> bool" where
  "mux_inv m \<longleftrightarrow>
     distinct (map fst (conns m)) \<and>
     (\<forall>f c. get_conn m f = Some c \<longrightarrow> conn_inv c) \<and>
     (\<forall>i \<in> set (incoming m). incoming_ok i) \<and>
     1024 \<le> next_host_port m \<and>
     (\<forall>p \<in> set (out_ctrl m). ctrl_ok p) \<and>
     (\<forall>p \<in> set (out_data m). data_ok m p)"

lemma mux_invD:
  assumes "mux_inv m"
  shows "get_conn m f = Some c \<Longrightarrow> conn_inv c" and "i \<in> set (incoming m) \<Longrightarrow> incoming_ok i"
    and "1024 \<le> next_host_port m"
  using assms by (auto simp: mux_inv_def)

lemma mux_inv_put [intro]: "mux_inv m \<Longrightarrow> conn_inv c \<Longrightarrow> mux_inv (put_conn f c m)"
  unfolding mux_inv_def
  by (auto simp: data_ok_def) (simp_all add: put_conn_def distinct_update)

lemma mux_inv_with [intro]:
  "mux_inv m \<Longrightarrow> (\<And>c. get_conn m f = Some c \<Longrightarrow> conn_inv c \<Longrightarrow> conn_inv (h c)) \<Longrightarrow>
   mux_inv (with_conn f h m)"
  unfolding with_conn_def by (auto split: option.splits dest: mux_invD)

lemma mux_inv_ctrl [intro]:
  "mux_inv m \<Longrightarrow> op \<noteq> OP_RW \<Longrightarrow> mux_inv (enqueue (OutPkt_ctrl f op fl) m)"
  by (auto simp: mux_inv_def data_ok_def ctrl_ok_def OutPkt_ctrl_def enqueue_def)

lemma mux_inv_filter [intro]:
  "mux_inv m \<Longrightarrow> mux_inv (m\<lparr>out_ctrl := filter P (out_ctrl m)\<rparr>)"
  by (auto simp: mux_inv_def data_ok_def)

lemma mux_inv_rst [intro]: "mux_inv m \<Longrightarrow> mux_inv (enqueue_rst f m)"
  unfolding enqueue_rst_def by (intro mux_inv_ctrl mux_inv_filter) simp_all

lemma conn_inv_neutral:
  "conn_inv (c\<lparr>last_fwd_sent := a\<rparr>) = conn_inv c"
  "conn_inv (c\<lparr>sent_to_guest := a\<rparr>) = conn_inv c"
  "conn_inv (c\<lparr>expiry := e\<rparr>) = conn_inv c"
  "conn_inv (c\<lparr>connecting := b\<rparr>) = conn_inv c"
  "conn_inv (c\<lparr>local_shut_send := b\<rparr>) = conn_inv c"
  "conn_inv (c\<lparr>local_shut_recv := b\<rparr>) = conn_inv c"
  "conn_inv (c\<lparr>peer_shut_send := b\<rparr>) = conn_inv c"
  "conn_inv (c\<lparr>peer_shut_recv := b\<rparr>) = conn_inv c"
  "conn_inv (c\<lparr>host_write_shut := b\<rparr>) = conn_inv c"
  "conn_inv (c\<lparr>peer_buf_alloc := a\<rparr>) = conn_inv c"
  "conn_inv (c\<lparr>peer_fwd_cnt := a\<rparr>) = conn_inv c"
  by (simp_all add: conn_inv_def)

lemma conn_inv_new: "conn_inv (Conn_new fd ph)"
  by (simp add: conn_inv_def Conn_new_def)

lemmas conn_inv_simps [simp] = conn_inv_neutral conn_inv_new

lemma mux_inv_request_credit [intro]: "mux_inv m \<Longrightarrow> mux_inv (request_credit f m)"
  by (auto simp: request_credit_def simp del: enqueue_ctrl)

lemma mux_inv_enqueue_credit [intro]: "mux_inv m \<Longrightarrow> mux_inv (enqueue_credit f m)"
  by (auto simp: enqueue_credit_def simp del: enqueue_ctrl intro!: mux_inv_ctrl mux_inv_with)

lemma mux_inv_maybe_credit [intro]: "mux_inv m \<Longrightarrow> mux_inv (maybe_credit f m)"
  by (auto simp: maybe_credit_def Let_def simp del: enqueue_ctrl split: option.splits
      intro!: mux_inv_ctrl mux_inv_with)

lemma conn_inv_prefetch:
  "conn_inv c \<Longrightarrow> n \<le> MAX_PREFETCH - length (prefetched c) \<Longrightarrow>
   conn_inv (c\<lparr>prefetched := prefetched c @ take n data\<rparr>)"
  by (auto simp: conn_inv_def)

lemma mux_inv_stash [intro]: "mux_inv m \<Longrightarrow> mux_inv (stash_prefetch f data m)"
  unfolding stash_prefetch_def Let_def by (rule mux_inv_with) (auto intro: conn_inv_prefetch)

lemma mux_inv_push_data:
  "mux_inv m \<Longrightarrow> get_conn m f \<noteq> None \<Longrightarrow> d \<noteq> [] \<Longrightarrow> length d \<le> MAX_CHUNK \<Longrightarrow>
   mux_inv (m\<lparr>out_data := out_data m @ [\<lparr>pkt_flow = f, pkt_op = OP_RW, pkt_flags = fl, pkt_data = d\<rparr>]\<rparr>)"
  by (auto simp: mux_inv_def data_ok_def)

lemma mux_inv_ingest [intro]: "mux_inv m \<Longrightarrow> mux_inv (ingest f rest m)"
proof (induction f rest m rule: ingest.induct)
  case (1 f rest m)
  show ?case
  proof (cases "rest = [] \<or> get_conn m f = None")
    case True
    then show ?thesis using "1.prems" by (subst ingest.simps) (auto split: option.splits)
  next
    case False
    then obtain c where c: "get_conn m f = Some c" and ne: "rest \<noteq> []" by auto
    let ?n = "min (min (length rest) (unat (peer_avail c))) MAX_CHUNK"
    let ?m = "with_conn f (\<lambda>c. c\<lparr>sent_to_guest := sent_to_guest c + of_nat ?n\<rparr>) m"
    show ?thesis
    proof (cases "phase c = Established \<and> \<not> local_shut_send c \<and> \<not> peer_shut_recv c \<and> peer_avail c \<noteq> 0")
      case True
      have "mux_inv ?m" using "1.prems" by (auto intro!: mux_inv_with)
      then have "mux_inv (?m\<lparr>out_data := out_data ?m @
          [\<lparr>pkt_flow = f, pkt_op = OP_RW, pkt_flags = 0, pkt_data = take ?n rest\<rparr>]\<rparr>)"
        using True ne c by (intro mux_inv_push_data) (auto simp: unat_gt_0 const_defs)
      then show ?thesis
        using "1.IH" [OF ne c _ refl _ refl refl refl] True ne c
        by (subst ingest.simps) (simp add: Let_def unat_eq_0)
    next
      case False
      then show ?thesis
        using "1.prems" ne c
        by (subst ingest.simps)
          (auto simp: Let_def unat_eq_0 intro!: mux_inv_with conn_inv_prefetch)
    qed
  qed
qed

section \<open>The write loops\<close>

text \<open>
  What a stream socket does with \<^verbatim>\<open>send\<close>: it takes a prefix of the buffer, which is then
  the end of what was sent on that descriptor, or fails and takes nothing. \<open>tx\<close> is the
  stream sent so far on each descriptor.
\<close>

definition sends_on :: "int \<Rightarrow> bytes \<Rightarrow> (int \<Rightarrow> bytes) \<Rightarrow> int \<Rightarrow> bytes" where
  "sends_on fd bs t = t(fd := t fd @ bs)"

definition stream_law :: "'w sock \<Rightarrow> ('w \<Rightarrow> int \<Rightarrow> bytes) \<Rightarrow> bool" where
  "stream_law S tx \<longleftrightarrow>
     (\<forall>fd buf w n w'. sk_send S fd buf w = (Inr n, w') \<longrightarrow>
        n \<le> length buf \<and> tx w' = sends_on fd (take n buf) (tx w)) \<and>
     (\<forall>fd buf w e w'. sk_send S fd buf w = (Inl e, w') \<longrightarrow> tx w' = tx w)"

lemma sends_on_simps [simp]:
  "sends_on fd [] t = t" "sends_on fd b (sends_on fd a t) = sends_on fd (a @ b) t"
  by (simp_all add: sends_on_def)

lemma take_then_take: "take n xs @ take k (drop n xs) = take (k + n) xs"
  by (simp add: add.commute [of k] take_add)

lemma send_nosig_spec:
  assumes "send_nosig S fd buf w = Some y"
  shows "stream_law S tx \<Longrightarrow>
     (case y of (Inr n, w') \<Rightarrow> n \<le> length buf \<and> tx w' = sends_on fd (take n buf) (tx w)
      | (Inl e, w') \<Rightarrow> tx w' = tx w)"
  using assms
proof (induction rule: send_nosig.raw_induct [rotated, consumes 1, case_names step])
  case (step rec S fd buf w y)
  obtain r w1 where s: "sk_send S fd buf w = (r, w1)" by (cases "sk_send S fd buf w")
  show ?case
  proof (cases "r = Inl EINTR")
    case True
    with step.hyps s have y: "rec S fd buf w1 = Some y" by simp
    have "tx w1 = tx w" using step.prems s True by (auto simp: stream_law_def)
    then show ?thesis using step.IH [OF y step.prems] by (simp split: prod.splits sum.splits)
  next
    case False
    with step.hyps s have "y = (case r of Inr n \<Rightarrow> Inr n | Inl e \<Rightarrow> Inl (Os e), w1)"
      by (auto split: sum.splits if_splits)
    with step.prems s show ?thesis by (auto simp: stream_law_def split: sum.splits)
  qed
qed

lemma update_empty [simp]:
  "ok_pending c = [] \<Longrightarrow> c\<lparr>ok_pending := []\<rparr> = c"
  "to_host c = [] \<Longrightarrow> c\<lparr>to_host := []\<rparr> = c"
  "c\<lparr>ok_pending := ok_pending c\<rparr> = c"
  "c\<lparr>to_host := to_host c\<rparr> = c"
  "c\<lparr>fwd_cnt := fwd_cnt c\<rparr> = c"
  "c\<lparr>to_host := to_host c, fwd_cnt := fwd_cnt c\<rparr> = c"
  by (cases c; simp)+

lemma flush_ok_spec:
  assumes "flush_ok S c w = Some y"
  shows "\<exists>r k w'. y = (r, c\<lparr>ok_pending := drop k (ok_pending c)\<rparr>, w') \<and>
     (r = Inr () \<longrightarrow> length (ok_pending c) \<le> k) \<and>
     (stream_law S tx \<longrightarrow> tx w' = sends_on (cn_fd c) (take k (ok_pending c)) (tx w))"
  using assms
proof (induction rule: flush_ok.raw_induct [rotated, consumes 1, case_names step])
  case (step rec S c w y)
  show ?case
  proof (cases "ok_pending c = []")
    case True
    with step.hyps show ?thesis by (auto intro!: exI [of _ 0])
  next
    case False
    with step.hyps obtain r1 w1 where s: "send_nosig S (cn_fd c) (ok_pending c) w = Some (r1, w1)"
      by (auto split: Option.bind_splits)
    show ?thesis
    proof (cases "r1 = Inr 0 \<or> (\<exists>e. r1 = Inl e)")
      case True
      with False step.hyps s send_nosig_spec [OF s, of tx] show ?thesis
        by (auto split: sum.splits intro!: exI [of _ 0])
    next
      case n0: False
      then obtain n where n: "r1 = Inr n" "n \<noteq> 0" by (cases r1) auto
      with False step.hyps s have le: "n \<le> length (ok_pending c)"
        and y: "rec S (c\<lparr>ok_pending := drop n (ok_pending c)\<rparr>) w1 = Some y"
        by (auto simp: drain_def split: if_splits)
      from step.IH [OF y] obtain r k w' where
        "y = (r, c\<lparr>ok_pending := drop k (drop n (ok_pending c))\<rparr>, w')"
        "r = Inr () \<longrightarrow> length (ok_pending c) - n \<le> k"
        "stream_law S tx \<longrightarrow>
           tx w' = sends_on (cn_fd c) (take k (drop n (ok_pending c))) (tx w1)"
        by force
      with n send_nosig_spec [OF s, of tx] show ?thesis
        by (intro exI [of _ r] exI [of _ "k + n"] exI [of _ w'])
          (auto simp: take_then_take ac_simps)
    qed
  qed
qed

lemma flush_to_host_spec:
  assumes "flush_to_host S c w = Some y"
  shows "\<exists>r k w'. y = (r, c\<lparr>to_host := drop k (to_host c), fwd_cnt := fwd_cnt c + of_nat k\<rparr>, w') \<and>
     k \<le> length (to_host c) \<and> (r = Inr () \<longrightarrow> k = length (to_host c)) \<and>
     (stream_law S tx \<longrightarrow> tx w' = sends_on (cn_fd c) (take k (to_host c)) (tx w))"
  using assms
proof (induction rule: flush_to_host.raw_induct [rotated, consumes 1, case_names step])
  case (step rec S c w y)
  show ?case
  proof (cases "to_host c = []")
    case True
    with step.hyps show ?thesis by (auto intro!: exI [of _ 0])
  next
    case False
    with step.hyps obtain r1 w1 where s: "send_nosig S (cn_fd c) (to_host c) w = Some (r1, w1)"
      by (auto split: Option.bind_splits)
    show ?thesis
    proof (cases "r1 = Inr 0 \<or> (\<exists>e. r1 = Inl e)")
      case True
      with False step.hyps s send_nosig_spec [OF s, of tx] show ?thesis
        by (auto split: sum.splits intro!: exI [of _ 0])
    next
      case n0: False
      then obtain n where n: "r1 = Inr n" "n \<noteq> 0" by (cases r1) auto
      with False step.hyps s have le: "n \<le> length (to_host c)"
        and y: "rec S (c\<lparr>to_host := drop n (to_host c), fwd_cnt := fwd_cnt c + of_nat n\<rparr>) w1 = Some y"
        by (auto simp: drain_def split: if_splits)
      from step.IH [OF y] obtain r k w' where
        "y = (r, c\<lparr>to_host := drop k (drop n (to_host c)),
                  fwd_cnt := fwd_cnt c + of_nat n + of_nat k\<rparr>, w')"
        "k \<le> length (to_host c) - n" "r = Inr () \<longrightarrow> k = length (to_host c) - n"
        "stream_law S tx \<longrightarrow>
           tx w' = sends_on (cn_fd c) (take k (drop n (to_host c))) (tx w1)"
        by auto
      with n le send_nosig_spec [OF s, of tx] show ?thesis
        by (intro exI [of _ r] exI [of _ "k + n"] exI [of _ w'])
          (auto simp: take_then_take ac_simps)
    qed
  qed
qed

section \<open>Preservation\<close>

lemma unat_sub_of_nat:
  "unat (a :: u32) = n \<Longrightarrow> k \<le> n \<Longrightarrow> unat (a - of_nat k) = n - k"
  using unat_less_exp [of a]
  by (subst unat_sub) (auto simp: word_le_nat_alt unat_of_nat)

lemma conn_inv_flush_ok: "conn_inv c \<Longrightarrow> conn_inv (c\<lparr>ok_pending := drop k (ok_pending c)\<rparr>)"
  by (auto simp: conn_inv_def)

lemma conn_inv_flush_to_host:
  assumes "conn_inv c" and "k \<le> length (to_host c)"
  shows "conn_inv (c\<lparr>to_host := drop k (to_host c), fwd_cnt := fwd_cnt c + of_nat k\<rparr>)"
proof -
  have "unat (received c - fwd_cnt c - of_nat k) = length (to_host c) - k"
    using assms by (intro unat_sub_of_nat) (auto simp: conn_inv_def)
  then show ?thesis
    using assms by (auto simp: conn_inv_def diff_diff_eq)
qed

lemma mux_inv_drop [intro]: "mux_inv m \<Longrightarrow> mux_inv (fst (drop_conn S f rst m w))"
proof -
  assume inv: "mux_inv m"
  have get: "map_of (AList.delete f (conns m)) = (map_of (conns m))(f := None)"
    by (simp add: delete_conv')
  have "mux_inv (m\<lparr>conns := AList.delete f (conns m),
      out_ctrl := filter (\<lambda>p. pkt_flow p \<noteq> f) (out_ctrl m),
      out_data := filter (\<lambda>p. pkt_flow p \<noteq> f) (out_data m)\<rparr>)"
    using inv by (auto simp: mux_inv_def data_ok_def get_conn_def get distinct_delete split: if_splits)
  then show ?thesis by (auto simp: drop_conn_def Let_def)
qed

lemma mux_inv_drop_eq: "drop_conn S f b m w = (m', w') \<Longrightarrow> mux_inv m \<Longrightarrow> mux_inv m'"
  using mux_inv_drop [of m S f b w] by simp

lemma mux_inv_mark [intro]: "mux_inv m \<Longrightarrow> mux_inv (fst (mark_local_shut S f rc sn m w))"
  by (auto simp: mark_local_shut_def Let_def simp del: enqueue_ctrl split: option.splits prod.splits
      intro!: mux_inv_ctrl mux_inv_put dest: mux_invD)

lemma mux_inv_eof [intro]: "mux_inv m \<Longrightarrow> mux_inv (fst (on_host_eof S f m w))"
  by (auto simp: on_host_eof_def)

text \<open>Both write loops together.\<close>

lemma flush_both_spec:
  assumes "flush_both S c w = Some y"
  obtains r j k w' where
    "y = (r, c\<lparr>ok_pending := drop j (ok_pending c), to_host := drop k (to_host c),
              fwd_cnt := fwd_cnt c + of_nat k\<rparr>, w')"
    and "k \<le> length (to_host c)"
    and "r = Inr () \<Longrightarrow> k = length (to_host c) \<and> length (ok_pending c) \<le> j"
    and "k \<noteq> 0 \<Longrightarrow> length (ok_pending c) \<le> j"
    and "stream_law S tx \<Longrightarrow>
       tx w' = sends_on (cn_fd c) (take j (ok_pending c) @ take k (to_host c)) (tx w)"
proof -
  from assms obtain y1 where y1: "flush_ok S c w = Some y1"
    by (auto simp: flush_both_def split: Option.bind_splits)
  from flush_ok_spec [OF y1, of tx] obtain r1 j w1 where
    j: "y1 = (r1, c\<lparr>ok_pending := drop j (ok_pending c)\<rparr>, w1)"
      "r1 = Inr () \<longrightarrow> length (ok_pending c) \<le> j"
      "stream_law S tx \<longrightarrow> tx w1 = sends_on (cn_fd c) (take j (ok_pending c)) (tx w)"
    by blast
  show ?thesis
  proof (cases r1)
    case (Inl e)
    with assms y1 j have "y = (r1, c\<lparr>ok_pending := drop j (ok_pending c)\<rparr>, w1)"
      by (simp add: flush_both_def)
    with Inl j show ?thesis by (intro that [where r = r1 and j = j and k = 0 and w' = w1]) auto
  next
    case (Inr u)
    with assms y1 j have "flush_to_host S (c\<lparr>ok_pending := drop j (ok_pending c)\<rparr>) w1 = Some y"
      by (simp add: flush_both_def)
    from flush_to_host_spec [OF this, of tx] obtain r k w' where
      "y = (r, c\<lparr>ok_pending := drop j (ok_pending c), to_host := drop k (to_host c),
                fwd_cnt := fwd_cnt c + of_nat k\<rparr>, w')"
      "k \<le> length (to_host c)" "r = Inr () \<longrightarrow> k = length (to_host c)"
      "stream_law S tx \<longrightarrow> tx w' = sends_on (cn_fd c) (take k (to_host c)) (tx w1)"
      by force
    with Inr j show ?thesis by (intro that [where r = r and j = j and k = k and w' = w']) auto
  qed
qed

lemma conn_inv_flush_both:
  assumes "conn_inv c" and "flush_both S c w = Some (r, c', w')"
  shows "conn_inv c'"
  using assms(2)
proof (rule flush_both_spec)
  fix ra j k w1
  assume "(r, c', w') = (ra, c\<lparr>ok_pending := drop j (ok_pending c), to_host := drop k (to_host c),
      fwd_cnt := fwd_cnt c + of_nat k\<rparr>, w1)" and "k \<le> length (to_host c)"
  then show ?thesis
    using conn_inv_flush_to_host [OF conn_inv_flush_ok [OF assms(1), of j], of k] by simp
qed

lemma mux_inv_flush_rest:
  assumes "mux_inv m" and "conn_inv c"
  shows "mux_inv (fst (flush_rest S f m (r, c, w)))"
proof (cases r)
  case (Inl e)
  then show ?thesis
    using mux_inv_mark [OF mux_inv_put [OF assms, of f]] by (simp add: flush_rest_def)
next
  case (Inr u)
  have take: "conn_inv (c'\<lparr>prefetched := []\<rparr>)" if "conn_inv c'" for c'
    using that by (simp add: conn_inv_def)
  show ?thesis
    using Inr assms
    by (auto simp: flush_rest_def Let_def split: prod.splits
        intro!: mux_inv_put mux_inv_maybe_credit mux_inv_ingest take)
qed

lemma mux_inv_flush:
  assumes "mux_inv m" and "flush_conn S f m w = Some (m', w')"
  shows "mux_inv m'"
proof (cases "get_conn m f")
  case None
  with assms show ?thesis by (simp add: flush_conn_def)
next
  case (Some c)
  with assms(2) obtain r c1 w1 where b: "flush_both S c w = Some (r, c1, w1)"
    and "(m', w') = flush_rest S f m (r, c1, w1)"
    by (auto simp: flush_conn_def)
  then show ?thesis
    using mux_inv_flush_rest [OF assms(1) conn_inv_flush_both [OF _ b]] mux_invD(1) [OF assms(1) Some]
    by (metis fst_conv)
qed

lemma mux_inv_finish_connect [intro]: "mux_inv m \<Longrightarrow> mux_inv (fst (finish_connect S f m w))"
  by (auto simp: finish_connect_def simp del: enqueue_ctrl split: option.splits prod.splits
      intro!: mux_inv_ctrl mux_inv_with)

lemma mux_inv_on_response:
  assumes "mux_inv m" and "on_response S f m w = Some (m', w')"
  shows "mux_inv m'"
proof -
  have "conn_inv (c\<lparr>phase := Established, expiry := None, ok_pending := ok\<rparr>)" if "conn_inv c" for c ok
    using that by (auto simp: conn_inv_def)
  then show ?thesis
    using assms
    by (auto simp: on_response_def split: option.splits if_splits
        dest!: mux_inv_flush [rotated] dest: mux_invD intro: mux_inv_put)
qed

lemma mux_inv_on_shutdown:
  assumes "mux_inv m" and "on_shutdown S f fl m w = Some (m', w')"
  shows "mux_inv m'"
  using assms
  by (auto simp: on_shutdown_def Let_def split: option.splits if_splits
      dest!: mux_inv_flush [rotated] dest: mux_invD intro!: mux_inv_put)

lemma conn_inv_receive:
  assumes "conn_inv c" and "length data \<le> MAX_PAYLOAD"
    and "\<not> of_nat (length data) > local_free c" and "phase c = Established"
  shows "conn_inv (c\<lparr>received := received c + of_nat (length data), to_host := to_host c @ data\<rparr>)"
proof -
  have "unat (of_nat (length data) :: u32) = length data"
    using assms(2) by (simp add: unat_of_nat const_defs)
  with assms have fits: "length data + length (to_host c) \<le> unat BUF_ALLOC"
    by (auto simp: conn_inv_def local_free_def word_le_nat_alt not_less)
  have "received c + of_nat (length data) - fwd_cnt c = (received c - fwd_cnt c) + of_nat (length data)"
    by simp
  also have "unat \<dots> = length (to_host c) + length data"
    using assms fits by (subst unat_word_ariths) (simp add: conn_inv_def unat_of_nat const_defs)
  finally show ?thesis
    using assms fits by (simp add: conn_inv_def)
qed

lemma mux_inv_on_rw:
  assumes inv: "mux_inv m" and len: "length data \<le> MAX_PAYLOAD"
    and step: "on_rw S f data m w = Some (m', w')"
  shows "mux_inv m'"
proof -
  let ?h = "\<lambda>c. c\<lparr>received := received c + of_nat (length data), to_host := to_host c @ data\<rparr>"
  show ?thesis
  proof (cases "get_conn m f")
    case None
    with step inv show ?thesis by (simp add: on_rw_def split: if_splits)
  next
    case (Some c)
    have "mux_inv (with_conn f ?h m)"
      if "phase c = Established" "\<not> of_nat (length data) > local_free c"
      using that inv len Some by (intro mux_inv_with) (auto intro: conn_inv_receive)
    with Some step inv show ?thesis
      by (simp add: on_rw_def Let_def split: if_splits)
        (auto dest: mux_inv_flush [rotated] mux_inv_drop_eq)
  qed
qed

lemma mux_inv_on_guest_request [intro]: "mux_inv m \<Longrightarrow> mux_inv (fst (on_guest_request S f hdr m w))"
  by (auto simp: on_guest_request_def Let_def simp del: enqueue_ctrl
      split: option.splits prod.splits sum.splits ConnectResult.splits intro!: mux_inv_ctrl mux_inv_put)

lemma mux_inv_handle_guest_pkt:
  assumes "mux_inv m" and "handle_guest_pkt S hdr data m w = Some (m', w')"
  shows "mux_inv m'"
proof -
  let ?f = "\<lparr>guest_port = hdr_src_port hdr, host_port = hdr_dst_port hdr\<rparr>"
  let ?m = "with_conn ?f (\<lambda>c. c\<lparr>peer_buf_alloc := hdr_buf_alloc hdr, peer_fwd_cnt := hdr_fwd_cnt hdr\<rparr>) m"
  have "mux_inv ?m" using assms(1) by (auto intro!: mux_inv_with)
  moreover have "mux_inv (fst (on_guest_request S ?f hdr m w))"
    using assms(1) by blast
  ultimately show ?thesis
    using assms
    by (auto simp: handle_guest_pkt_def Let_def split: if_splits
        dest: mux_inv_drop_eq mux_inv_on_response [rotated] mux_inv_on_shutdown [rotated] mux_inv_on_rw [rotated 2])
qed

lemma mux_inv_push_incoming:
  "mux_inv m \<Longrightarrow> incoming_ok i \<Longrightarrow> mux_inv (m\<lparr>incoming := incoming m @ [i]\<rparr>)"
  by (auto simp: mux_inv_def data_ok_def)

lemma mux_inv_accept:
  assumes "accept_loop S m w = Some y" and "mux_inv m"
  shows "mux_inv (fst y)"
  using assms
proof (induction rule: accept_loop.raw_induct [rotated, consumes 1, case_names step])
  case (step rec S m w y)
  have "mux_inv (m\<lparr>incoming := incoming m @ [\<lparr>inc_fd = fd, inc_buf = []\<rparr>]\<rparr>)" for fd
    using step.prems by (rule mux_inv_push_incoming) (simp add: incoming_ok_def)
  then show ?case
    using step.hyps step.prems step.IH by (auto split: prod.splits sum.splits if_splits)
qed

definition next_port :: "u32 \<Rightarrow> u32" where
  "next_port p = (if p = 0xffffffff then 1024 else p + 1)"

lemma next_port_ge: "1024 \<le> p \<Longrightarrow> 1024 \<le> next_port p"
proof (cases "p = 0xffffffff")
  case False
  assume "1024 \<le> p"
  moreover have "unat p \<noteq> 0xffffffff"
    using False by (simp add: word_unat_eq_iff)
  ultimately show ?thesis
    using unat_less_exp [of p] False
    by (auto simp: next_port_def word_le_nat_alt unat_word_ariths)
qed (simp add: next_port_def)

lemma alloc_port_loop_port:
  "1024 \<le> next_host_port m \<Longrightarrow>
   \<exists>p. 1024 \<le> p \<and> snd (alloc_port_loop k m) = m\<lparr>next_host_port := p\<rparr>"
proof (induction k arbitrary: m)
  case 0
  then show ?case by (auto intro!: exI [of _ "next_host_port m"])
next
  case (Suc k)
  let ?m = "m\<lparr>next_host_port := next_port (next_host_port m)\<rparr>"
  from Suc.IH [of ?m] next_port_ge [OF Suc.prems] obtain p where
    "1024 \<le> p" "snd (alloc_port_loop k ?m) = m\<lparr>next_host_port := p\<rparr>" by auto
  then show ?case
    using next_port_ge [OF Suc.prems] by (auto simp: Let_def next_port_def [symmetric])
qed

lemma mux_inv_next_port: "mux_inv m \<Longrightarrow> 1024 \<le> p \<Longrightarrow> mux_inv (m\<lparr>next_host_port := p\<rparr>)"
  by (simp add: mux_inv_def data_ok_def)

lemma mux_inv_alloc: "mux_inv m \<Longrightarrow> mux_inv (snd (alloc_host_port m))"
  using alloc_port_loop_port [of m 60000] mux_invD(3) [of m]
  by (auto simp: alloc_host_port_def intro: mux_inv_next_port)

definition without_incoming :: "nat \<Rightarrow> Mux \<Rightarrow> Mux" where
  "without_incoming idx m = m\<lparr>incoming := remove_at idx (incoming m)\<rparr>"

lemma set_remove_at: "set (remove_at i xs) \<subseteq> set xs"
  by (auto simp: remove_at_def dest: in_set_takeD in_set_dropD)

lemma mux_inv_without: "mux_inv m \<Longrightarrow> mux_inv (without_incoming idx m)"
  using set_remove_at [of idx "incoming m"]
  by (auto simp: mux_inv_def without_incoming_def data_ok_def)

lemma mux_inv_finish_incoming:
  assumes "mux_inv (without_incoming idx m)" and "length (inc_buf (incoming m ! idx)) \<le> 128"
  shows "mux_inv (fst (finish_incoming S idx m w))"
proof -
  let ?m = "without_incoming idx m"
  obtain r m1 where a: "alloc_host_port ?m = (r, m1)" by (cases "alloc_host_port ?m")
  then have m1: "mux_inv m1" using mux_inv_alloc [OF assms(1)] by simp
  have "conn_inv ((Conn_new fd WaitGuest)\<lparr>prefetched := drop k (inc_buf (incoming m ! idx)), expiry := e\<rparr>)"
    for fd k e
    using assms(2) by (simp add: conn_inv_def Conn_new_def const_defs)
  then show ?thesis
    using assms(1) m1 a unfolding finish_incoming_def without_incoming_def
    by (auto simp: Let_def simp del: enqueue_ctrl split: option.splits prod.splits
        intro!: mux_inv_ctrl mux_inv_put)
qed

text \<open>\<^verbatim>\<open>read\<close> returns at most as many bytes as the buffer holds.\<close>

definition read_law :: "'w sock \<Rightarrow> bool" where
  "read_law S \<longleftrightarrow> (\<forall>fd n w bs w'. sk_read S fd n w = (Inr bs, w') \<longrightarrow> length bs \<le> n)"

lemma read_fd_bound:
  assumes "read_fd S fd n w = Some y" and "read_law S"
  shows "case fst y of Inr bs \<Rightarrow> length bs \<le> n | Inl _ \<Rightarrow> True"
  using assms
proof (induction rule: read_fd.raw_induct [rotated, consumes 1, case_names step])
  case (step rec S fd n w y)
  obtain r w1 where rd: "sk_read S fd n w = (r, w1)" by (cases "sk_read S fd n w")
  show ?case
  proof (cases "r = Inl EINTR")
    case True
    with rd step.hyps step.IH [of S fd n w1 y] step.prems show ?thesis by simp
  next
    case False
    with rd step.hyps step.prems show ?thesis
      by (auto simp: read_law_def split: sum.splits) blast
  qed
qed

lemma mux_inv_grow_incoming:
  assumes "mux_inv m" and "idx < length (incoming m)"
  shows "mux_inv (without_incoming idx (m\<lparr>incoming := (incoming m)[idx := i]\<rparr>)) \<and>
    (incoming_ok i \<longrightarrow> mux_inv (m\<lparr>incoming := (incoming m)[idx := i]\<rparr>))"
proof
  have "remove_at idx ((incoming m)[idx := i]) = remove_at idx (incoming m)"
    by (simp add: remove_at_def)
  then show "mux_inv (without_incoming idx (m\<lparr>incoming := (incoming m)[idx := i]\<rparr>))"
    using mux_inv_without [OF assms(1), of idx] by (simp add: without_incoming_def)
  show "incoming_ok i \<longrightarrow> mux_inv (m\<lparr>incoming := (incoming m)[idx := i]\<rparr>)"
    using assms by (auto simp: mux_inv_def data_ok_def dest: set_update_subset_insert [THEN subsetD])
qed

lemma mux_inv_read_incoming:
  assumes inv: "mux_inv m" and law: "read_law S" and idx: "idx < length (incoming m)"
    and step: "read_incoming S idx m w = Some (m', w')"
  shows "mux_inv m'"
proof -
  let ?i = "incoming m ! idx"
  from step obtain r w1 where rd: "read_fd S (inc_fd ?i) 64 w = Some (r, w1)"
    by (auto simp: read_incoming_def split: Option.bind_splits)
  note bound = read_fd_bound [OF rd law]
  have i: "incoming_ok ?i" using mux_invD(2) [OF inv] idx by simp
  have drop: "mux_inv (fst (drop_incoming S idx x w1))" if "mux_inv (without_incoming idx x)" for x
    using that by (simp add: drop_incoming_def without_incoming_def)
  show ?thesis
  proof (cases r)
    case (Inl e)
    with step rd inv drop [OF mux_inv_without [OF inv]] show ?thesis
      by (auto simp: read_incoming_def split: if_splits)
  next
    case (Inr bs)
    let ?m = "m\<lparr>incoming := (incoming m)[idx := ?i\<lparr>inc_buf := inc_buf ?i @ bs\<rparr>]\<rparr>"
    note grow = mux_inv_grow_incoming [OF inv idx, of "?i\<lparr>inc_buf := inc_buf ?i @ bs\<rparr>"]
    have "length (inc_buf (incoming ?m ! idx)) \<le> 128"
      using bound Inr i idx by (simp add: incoming_ok_def)
    from mux_inv_finish_incoming [OF _ this, of S w1] drop [of ?m] drop [OF mux_inv_without [OF inv]]
    show ?thesis
      using step rd Inr grow
      by (auto simp: read_incoming_def Let_def incoming_ok_def split: if_splits)
  qed
qed

lemma mux_inv_mark_eq: "mark_local_shut S f a b m w = (m', w') \<Longrightarrow> mux_inv m \<Longrightarrow> mux_inv m'"
  using mux_inv_mark [of m S f a b w] by simp

lemma mux_inv_eof_eq: "on_host_eof S f m w = (m', w') \<Longrightarrow> mux_inv m \<Longrightarrow> mux_inv m'"
  using mux_inv_eof [of m S f w] by simp

lemma mux_inv_finish_connect_eq: "finish_connect S f m w = (m', w') \<Longrightarrow> mux_inv m \<Longrightarrow> mux_inv m'"
  using mux_inv_finish_connect [of m S f w] by simp

lemma mux_inv_read_conn:
  assumes "mux_inv m" and "read_conn S f m w = Some (m', w')"
  shows "mux_inv m'"
  using assms
  by (auto simp: read_conn_def split: option.splits Option.bind_splits prod.splits sum.splits if_splits
      dest: mux_inv_mark_eq mux_inv_eof_eq)

lemma position_Some: "position P xs = Some i \<Longrightarrow> i < length xs \<and> P (xs ! i)"
  by (induction xs arbitrary: i) (auto split: if_splits)

lemma mux_inv_on_fd:
  assumes inv: "mux_inv m" and law: "read_law S" and step: "on_fd S fd re m w = Some (m', w')"
  shows "mux_inv m'"
proof (cases "fd = listener m")
  case True
  then show ?thesis
    using step inv mux_inv_accept [of S m w "(m', w')"] by (simp add: on_fd_def)
next
  case False
  show ?thesis
  proof (cases "position (\<lambda>inc. inc_fd inc = fd) (incoming m)")
    case (Some idx)
    then show ?thesis
      using False step inv law by (auto simp: on_fd_def dest!: position_Some intro: mux_inv_read_incoming)
  next
    case None
    show ?thesis
    proof (cases "find (\<lambda>(_, c). cn_fd c = fd) (conns m)")
      case none: None
      with None False step inv show ?thesis by (simp add: on_fd_def)
    next
      case (Some x)
      obtain f c where x: "x = (f, c)" by (cases x)
      let ?rd = "if re AND (POLLIN OR POLLHUP OR POLLERR OR POLLNVAL) \<noteq> 0
        then read_conn S f m w else Some (m, w)"
      from None False step Some x obtain m1 w1 where rd: "?rd = Some (m1, w1)"
        by (auto simp: on_fd_def split: Option.bind_splits)
      then have m1: "mux_inv m1"
        using mux_inv_read_conn [OF inv] inv by (auto split: if_splits)
      show ?thesis
        using None False step Some x rd m1 mux_inv_finish_connect_eq [of S f m1 w1 m' w']
          mux_inv_flush [OF m1, of S f w1 m' w']
        by (simp add: on_fd_def split: option.split_asm if_split_asm)
    qed
  qed
qed

lemma mux_inv_drop_conns: "mux_inv m \<Longrightarrow> mux_inv (fst (drop_conns S fs m w))"
  by (induction fs arbitrary: m w) (auto split: prod.splits dest: mux_inv_drop_eq)

lemma mux_inv_check_timeouts: "mux_inv m \<Longrightarrow> mux_inv (fst (check_timeouts S now m w))"
  by (simp add: check_timeouts_def mux_inv_drop_conns)

lemma mux_inv_kill: "mux_inv m \<Longrightarrow> mux_inv (fst (kill_connections S m w))"
  by (simp add: kill_connections_def mux_inv_def get_conn_def)

lemma mux_inv_pop:
  assumes "mux_inv m" and "pop_out m = (r, m')"
  shows "mux_inv m'" and "r = Some p \<Longrightarrow> if pkt_op p = OP_RW then data_ok m' p else ctrl_ok p"
  using assms
  by (auto simp: pop_out_def mux_inv_def data_ok_def ctrl_ok_def split: list.splits)

lemma mux_inv_push_front:
  "mux_inv m \<Longrightarrow> (if pkt_op p = OP_RW then data_ok m p else ctrl_ok p) \<Longrightarrow> mux_inv (push_front_out p m)"
  by (auto simp: push_front_out_def mux_inv_def data_ok_def ctrl_ok_def split: if_splits)

lemma mux_inv_bind: "Mux_bind S cid path w = (Inr m, w') \<Longrightarrow> mux_inv m"
  unfolding Mux_bind_def try_then_def
  by (auto simp: mux_inv_def get_conn_def
      split: sum.split_asm if_split_asm prod.split_asm)

section \<open>Reachable states\<close>

text \<open>
  What the device does with a multiplexer, one call after another, and with the host
  changing between calls: guest packets, descriptor events, timeouts, resets, and taking a
  packet out for the guest, putting it or the rest of it back.
\<close>

inductive mux_step :: "'w sock \<Rightarrow> Mux \<times> 'w \<Rightarrow> Mux \<times> 'w \<Rightarrow> bool" for S where
  step_pkt: "handle_guest_pkt S hdr data m w = Some (m', w') \<Longrightarrow> mux_step S (m, w) (m', w')"
| step_fd: "on_fd S fd re m w = Some (m', w') \<Longrightarrow> mux_step S (m, w) (m', w')"
| step_timeout: "check_timeouts S now m w = (m', w') \<Longrightarrow> mux_step S (m, w) (m', w')"
| step_kill: "kill_connections S m w = (m', w') \<Longrightarrow> mux_step S (m, w) (m', w')"
| step_reset: "reset_flow S gp hp m w = (m', w') \<Longrightarrow> mux_step S (m, w) (m', w')"
| step_pop: "pop_out m = (r, m') \<Longrightarrow> mux_step S (m, w) (m', w)"
| step_requeue: "pop_out m = (Some p, m') \<Longrightarrow> pkt_op p = OP_RW \<longrightarrow> n < length (pkt_data p) \<Longrightarrow>
    mux_step S (m, w) (push_front_out (p\<lparr>pkt_data := drop n (pkt_data p)\<rparr>) m', w)"
| step_host: "mux_step S (m, w) (m, w')"

inductive mux_reachable :: "'w sock \<Rightarrow> Mux \<times> 'w \<Rightarrow> bool" for S where
  reach_bind: "Mux_bind S cid path w = (Inr m, w') \<Longrightarrow> mux_reachable S (m, w')"
| reach_step: "mux_reachable S x \<Longrightarrow> mux_step S x y \<Longrightarrow> mux_reachable S y"

inductive_cases mux_stepE: "mux_step S (m, w) y"

lemma mux_inv_step:
  assumes "mux_step S x y" and "read_law S" and "mux_inv (fst x)"
  shows "mux_inv (fst y)"
  using assms
proof (induction rule: mux_step.induct)
  case (step_timeout now m w m' w')
  then show ?case using mux_inv_check_timeouts [of m S now w] by simp
next
  case (step_kill m w m' w')
  then show ?case using mux_inv_kill [of m S w] by simp
next
  case (step_requeue m p m' n w)
  then have "mux_inv m'" and p: "if pkt_op p = OP_RW then data_ok m' p else ctrl_ok p"
    using mux_inv_pop [of m "Some p" m'] by auto
  then show ?case
    using step_requeue(2)
    by (simp only: fst_conv, intro mux_inv_push_front)
      (auto simp: data_ok_def ctrl_ok_def split: if_splits)
qed (auto intro: mux_inv_handle_guest_pkt mux_inv_on_fd mux_inv_pop mux_inv_drop_eq
    simp: reset_flow_def)

lemma mux_reachable_inv: "mux_reachable S x \<Longrightarrow> read_law S \<Longrightarrow> mux_inv (fst x)"
  by (induction rule: mux_reachable.induct) (auto intro: mux_inv_bind mux_inv_step)

end
