(* ===== verification/VsockMuxProps.thy ===== *)
theory VsockMuxProps
  imports VsockMuxInv
begin

text \<open>
  Properties of the vsock multiplexer: the packet header round trip, the credit rule and the
  order of bytes in both directions, host port allocation, the handshake, the answers to
  packets of unknown flows, the limit on host connections, and that the write loops return.
  Two properties record where the code loses or reorders stream data.
\<close>

section \<open>A concrete operating system\<close>

text \<open>
  Sockets with a common amount of buffer space left, the streams sent so far, the bytes
  waiting to be read, and the descriptors waiting in the listener.
\<close>

record net =
  net_tx :: "int \<Rightarrow> bytes"
  net_rx :: "int \<Rightarrow> bytes"
  net_room :: nat
  net_backlog :: "int list"
  net_next :: int
  net_now :: nat

definition sim_sock :: "net sock" where
  "sim_sock = \<lparr>
     sk_socket = (\<lambda>w. (Inr (net_next w), w\<lparr>net_next := net_next w + 1\<rparr>)),
     sk_bind = (\<lambda>fd path w. (Inr (), w)),
     sk_listen = (\<lambda>fd n w. (Inr (), w)),
     sk_accept = (\<lambda>fd w. case net_backlog w of
         [] \<Rightarrow> (Inl EAGAIN, w) | a # as \<Rightarrow> (Inr a, w\<lparr>net_backlog := as\<rparr>)),
     sk_connect = (\<lambda>fd path w. (Inr (), w)),
     sk_send = (\<lambda>fd buf w.
       let n = min (length buf) (net_room w)
       in if n = 0 then (Inl EAGAIN, w)
          else (Inr n, w\<lparr>net_tx := sends_on fd (take n buf) (net_tx w), net_room := net_room w - n\<rparr>)),
     sk_read = (\<lambda>fd n w.
       if net_rx w fd = [] then (Inl EAGAIN, w)
       else (Inr (take n (net_rx w fd)), w\<lparr>net_rx := (net_rx w)(fd := drop n (net_rx w fd))\<rparr>)),
     sk_shutdown = (\<lambda>fd how w. w),
     sk_so_error = (\<lambda>fd w. (Inr 0, w)),
     sk_close = (\<lambda>fd w. w),
     sk_now = (\<lambda>w. (net_now w, w)),
     fs_lstat_is_socket = (\<lambda>path w. (None, w)),
     fs_remove = (\<lambda>path w. (Inr (), w))\<rparr>"

definition net0 :: net where
  "net0 = \<lparr>net_tx = (\<lambda>_. []), net_rx = (\<lambda>_. []), net_room = 65536, net_backlog = [],
          net_next = 3, net_now = 0\<rparr>"

lemma sim_stream_law: "stream_law sim_sock net_tx"
  by (auto simp: stream_law_def sim_sock_def Let_def split: if_splits)

lemma sim_read_law: "read_law sim_sock"
  by (auto simp: read_law_def sim_sock_def split: if_splits)

definition sim_flow :: Flow where
  "sim_flow = \<lparr>guest_port = 52, host_port = 1024\<rparr>"

definition sim_conn :: Conn where
  "sim_conn = (Conn_new 7 Established)\<lparr>peer_buf_alloc := 4\<rparr>"

definition sim_mux :: Mux where
  "sim_mux = \<lparr>mux_guest_cid = 3, mux_path = ascii ''v.sock'', listener = 3, incoming = [],
     conns = [(sim_flow, sim_conn)], next_host_port = 1025, out_ctrl = [], out_data = []\<rparr>"

lemma get_sim_mux [simp]: "get_conn sim_mux sim_flow = Some sim_conn"
  by (simp add: get_conn_def sim_mux_def)

section \<open>The invariant\<close>

text \<open>
  C21. In every state the multiplexer can reach, whatever the guest sends and the host does:
  flows are unique; for each connection the bytes held for the host are exactly
  \<open>received - fwd_cnt\<close> and never more than the advertised 256 KiB, and the prefetched bytes
  never exceed 64 KiB; unfinished handshakes hold at most 64 bytes; the control queue holds
  only empty control packets, and the data queue only non-empty data packets of at most
  16 KiB of live connections.
\<close>

theorem mux_invariant:
  assumes "mux_reachable S (m, w)" and "read_law S"
  shows "mux_inv m"
  using mux_reachable_inv [OF assms] by simp

theorem mux_invariant_witness:
  "\<exists>m w. mux_reachable sim_sock (m, w) \<and> mux_inv m \<and> mux_guest_cid m = 3"
proof -
  obtain m w where b: "Mux_bind sim_sock 3 (ascii ''v'') net0 = (Inr m, w)" and "mux_guest_cid m = 3"
    by (simp add: Mux_bind_def sim_sock_def net0_def validate_guest_cid_def const_defs ascii_def
        unix_stream_def bind_unix_def)
  then show ?thesis
    using mux_invariant [OF reach_bind [OF b] sim_read_law] reach_bind [OF b] by blast
qed

section \<open>Packets\<close>

lemma slice_append:
  "length xs = n \<Longrightarrow> slice n k (xs @ ys) = take k ys"
  "length xs \<le> n \<Longrightarrow> slice n k (xs @ ys) = slice (n - length xs) k ys"
  by (simp_all add: slice_def)

text \<open>
  C34. A packet header survives the wire: parsing the 44 bytes written for a packet gives
  back the CIDs, ports, operation, flags and credit it was written with, and the length of
  its data, for every packet shorter than 4 GiB.
\<close>

theorem header_roundtrip:
  "length (OutPkt_header p cid ba fc) = HDR_LEN \<and>
   Header_parse (OutPkt_header p cid ba fc) =
     \<lparr>hdr_src_cid = HOST_CID, hdr_dst_cid = cid, hdr_src_port = host_port (pkt_flow p),
      hdr_dst_port = guest_port (pkt_flow p), hdr_len = of_nat (length (pkt_data p)),
      hdr_type = TYPE_STREAM, hdr_op = pkt_op p, hdr_flags = pkt_flags p,
      hdr_buf_alloc = ba, hdr_fwd_cnt = fc\<rparr>"
  by (simp add: OutPkt_header_def Header_parse_def HDR_LEN_def slice_def)

lemma digits_snoc: "digits_value (bs @ [b]) = 10 * digits_value bs + (unat b - 48)"
  by (simp add: digits_value_def)

lemma digit_byte:
  assumes "d < 10"
  shows "(of_char (digit_char d) :: u8) = of_nat (48 + d)"
proof -
  have "\<forall>d \<in> set [0..<10]. (of_char (digit_char d) :: u8) = of_nat (48 + d)" by code_simp
  with assms show ?thesis by simp
qed

lemma decimal_digits:
  "list_all is_ascii_digit (ascii (decimal n)) \<and> ascii (decimal n) \<noteq> [] \<and>
   digits_value (ascii (decimal n)) = n"
proof (induction n rule: decimal.induct)
  case (1 n)
  have d: "is_ascii_digit (of_nat (48 + d)) \<and> unat (of_nat (48 + d) :: u8) = 48 + d" if "d < 10" for d
    using that by (simp add: is_ascii_digit_def word_le_nat_alt unat_of_nat del: of_nat_add)
  show ?case
  proof (cases "n < 10")
    case True
    then show ?thesis
      using d [OF True]
      by (simp add: decimal.simps [of n] ascii_def digit_byte digits_value_def del: of_nat_add)
  next
    case False
    then show ?thesis
      using 1 d [of "n mod 10"]
      by (simp add: decimal.simps [of n] ascii_def digit_byte digits_snoc [unfolded ascii_def]
          del: of_nat_add)
  qed
qed

text \<open>
  The host's \<open>CONNECT\<close> line names any guest port: the line with the decimal form of a
  non-zero port parses to that port.
\<close>

lemma parse_connect_decimal:
  assumes "port \<noteq> 0"
  shows "parse_connect (ascii (''CONNECT '' @ decimal (unat port))) = Some port"
  using assms decimal_digits [of "unat port"] unat_less_exp [of port]
  by (simp add: parse_connect_def parse_digits_def ascii_def Let_def)

section \<open>Bytes for the guest\<close>

lemma peer_avail_sent:
  assumes "n \<le> unat (peer_avail c)"
  shows "unat (peer_avail (c\<lparr>sent_to_guest := sent_to_guest c + of_nat n\<rparr>)) = unat (peer_avail c) - n"
proof (cases "n = 0")
  case False
  let ?i = "sent_to_guest c - peer_fwd_cnt c"
  have a: "unat ?i + n \<le> unat (peer_buf_alloc c)"
    using assms False by (simp add: peer_avail_def)
  have "sent_to_guest c + of_nat n - peer_fwd_cnt c = ?i + of_nat n" by simp
  also have "unat \<dots> = unat ?i + n"
    using a unat_less_exp [of "peer_buf_alloc c"]
    by (subst unat_word_ariths) (simp add: unat_of_nat)
  finally show ?thesis by (simp add: peer_avail_def)
qed simp

lemma Conn_prefetch_idem [simp]:
  "c\<lparr>prefetched := prefetched c\<rparr> = c"
  "c\<lparr>sent_to_guest := sent_to_guest c\<rparr> = c"
  "c\<lparr>sent_to_guest := sent_to_guest c, prefetched := prefetched c\<rparr> = c"
  by (cases c; simp)+

text \<open>
  The effect of \<open>ingest\<close> on an open connection: \<open>sent\<close> bytes go out, the rest is stashed as
  far as there is room.
\<close>

definition ingest_effect :: "Flow \<Rightarrow> bytes \<Rightarrow> Mux \<Rightarrow> Conn \<Rightarrow> Mux \<Rightarrow> bool" where
  "ingest_effect f data m c m' \<longleftrightarrow>
     (let sent = min (length data) (unat (peer_avail c)) in
      (\<exists>pkts. out_data m' = out_data m @ pkts \<and>
         concat (map pkt_data pkts) = take sent data \<and>
         (\<forall>p \<in> set pkts. pkt_flow p = f \<and> pkt_op p = OP_RW \<and> pkt_data p \<noteq> [] \<and>
            length (pkt_data p) \<le> MAX_CHUNK)) \<and>
      get_conn m' f = Some (c\<lparr>sent_to_guest := sent_to_guest c + of_nat sent,
         prefetched := prefetched c @ take (MAX_PREFETCH - length (prefetched c)) (drop sent data)\<rparr>) \<and>
      (\<forall>g. g \<noteq> f \<longrightarrow> get_conn m' g = get_conn m g) \<and>
      (sent < length data \<longrightarrow> queued_ctrl f OP_CREDIT_REQUEST m'))"

lemma request_credit_queued:
  "queued_ctrl f OP_CREDIT_REQUEST (request_credit f m)"
  "get_conn (request_credit f m) g = get_conn m g" "out_data (request_credit f m) = out_data m"
  by (auto simp: request_credit_def queued_ctrl_def OutPkt_ctrl_def enqueue_def)

lemma take_min_length: "take (min (length xs) n) xs = take n xs"
  by (simp add: min_def)

lemma ingest_effect_step:
  assumes eff: "ingest_effect f (drop n data) m' (c\<lparr>sent_to_guest := sent_to_guest c + of_nat n\<rparr>) m''"
    and av: "unat (peer_avail (c\<lparr>sent_to_guest := sent_to_guest c + of_nat n\<rparr>)) = unat (peer_avail c) - n"
    and n: "n \<le> min (length data) (unat (peer_avail c))" "take n data \<noteq> []"
      "length (take n data) \<le> MAX_CHUNK"
    and out: "out_data m' = out_data m @
      [\<lparr>pkt_flow = f, pkt_op = OP_RW, pkt_flags = 0, pkt_data = take n data\<rparr>]"
    and other: "\<And>g. g \<noteq> f \<Longrightarrow> get_conn m' g = get_conn m g"
  shows "ingest_effect f data m c m''"
proof -
  let ?k = "min (length data) (unat (peer_avail c))"
  have k: "min (length (drop n data)) (unat (peer_avail c) - n) = ?k - n" by (simp add: min_diff)
  have t: "take n data @ take (?k - n) (drop n data) = take ?k data"
    using n(1) take_then_take [of n data "?k - n"] by simp
  have d: "drop (?k - n) (drop n data) = drop ?k data" using n(1) by simp
  have s: "of_nat n + of_nat (?k - n) = (of_nat ?k :: u32)"
    using n(1) by (metis le_add_diff_inverse of_nat_add)
  from eff obtain pkts where "out_data m'' = out_data m' @ pkts"
    "concat (map pkt_data pkts) = take (?k - n) (drop n data)"
    "\<forall>p \<in> set pkts. pkt_flow p = f \<and> pkt_op p = OP_RW \<and> pkt_data p \<noteq> [] \<and> length (pkt_data p) \<le> MAX_CHUNK"
    unfolding ingest_effect_def Let_def av k by blast
  then have "\<exists>pkts. out_data m'' = out_data m @ pkts \<and> concat (map pkt_data pkts) = take ?k data \<and>
      (\<forall>p \<in> set pkts. pkt_flow p = f \<and> pkt_op p = OP_RW \<and> pkt_data p \<noteq> [] \<and> length (pkt_data p) \<le> MAX_CHUNK)"
    using out n(2,3) t
    by (intro exI [of _ "\<lparr>pkt_flow = f, pkt_op = OP_RW, pkt_flags = 0, pkt_data = take n data\<rparr> # pkts"])
      simp
  moreover have "get_conn m'' f = Some (c\<lparr>sent_to_guest := sent_to_guest c + of_nat ?k,
      prefetched := prefetched c @ take (MAX_PREFETCH - length (prefetched c)) (drop ?k data)\<rparr>)"
    using eff unfolding ingest_effect_def Let_def av k d
    by (simp add: add.assoc s)
  ultimately show ?thesis
    using eff other n(1) unfolding ingest_effect_def Let_def av k by auto
qed

lemma ingest_open:
  assumes "get_conn m f = Some c" and "phase c = Established" and "\<not> local_shut_send c"
    and "\<not> peer_shut_recv c"
  shows "ingest_effect f data m c (ingest f data m)"
  using assms
proof (induction f data m arbitrary: c rule: ingest.induct)
  case (1 f rest m)
  note c = "1.prems"(1) and opn = "1.prems"(2-4)
  consider "rest = []" | "rest \<noteq> []" "peer_avail c = 0" | "rest \<noteq> []" "peer_avail c \<noteq> 0" by blast
  then show ?case
  proof cases
    case 1
    with c show ?thesis by (subst ingest.simps) (simp add: ingest_effect_def)
  next
    case 2
    with c opn show ?thesis
      by (subst ingest.simps)
        (auto simp: ingest_effect_def request_credit_queued stash_prefetch_def Let_def take_min_length)
  next
    case 3
    let ?n = "min (min (length rest) (unat (peer_avail c))) MAX_CHUNK"
    let ?c = "c\<lparr>sent_to_guest := sent_to_guest c + of_nat ?n\<rparr>"
    let ?p = "\<lparr>pkt_flow = f, pkt_op = OP_RW, pkt_flags = 0, pkt_data = take ?n rest\<rparr>"
    let ?m1 = "with_conn f (\<lambda>c. c\<lparr>sent_to_guest := sent_to_guest c + of_nat ?n\<rparr>) m"
    let ?m = "?m1\<lparr>out_data := out_data ?m1 @ [?p]\<rparr>"
    have step: "ingest f rest m = ingest f (drop ?n rest) ?m"
      using 3 c opn by (subst ingest.simps) (simp add: Let_def unat_eq_0)
    have eff: "ingest_effect f (drop ?n rest) ?m ?c (ingest f (drop ?n rest) ?m)"
      using "1.IH" [OF 3(1) c _ refl _ refl refl refl] 3 c opn by (simp add: unat_eq_0)
    have av: "unat (peer_avail ?c) = unat (peer_avail c) - ?n" by (rule peer_avail_sent) simp
    have n: "?n \<le> min (length rest) (unat (peer_avail c))" "take ?n rest \<noteq> []" "length (take ?n rest) \<le> MAX_CHUNK"
      using 3 by (auto simp: unat_gt_0 const_defs)
    show ?thesis
      unfolding step by (rule ingest_effect_step [OF eff av n]) simp_all
  qed
qed

text \<open>
  C22. Host data obeys the guest's credit and keeps its order: on an open connection
  \<open>ingest\<close> queues exactly the longest prefix of the data that the guest's advertised credit
  admits, in order, in chunks of at most 16 KiB; the credit shrinks by exactly that much; the
  bytes beyond it are appended to the prefetched bytes as far as 64 KiB allow and a credit
  request is queued; no other connection changes.
\<close>

theorem ingest_obeys_credit:
  assumes "get_conn m f = Some c" and "phase c = Established" and "\<not> local_shut_send c"
    and "\<not> peer_shut_recv c"
  shows "ingest_effect f data m c (ingest f data m) \<and>
    (\<forall>c'. get_conn (ingest f data m) f = Some c' \<longrightarrow>
       unat (peer_avail c') = unat (peer_avail c) - length data)"
proof -
  let ?k = "min (length data) (unat (peer_avail c))"
  have "unat (peer_avail (c\<lparr>sent_to_guest := sent_to_guest c + of_nat ?k, prefetched := x\<rparr>)) =
      unat (peer_avail c) - length data" for x
  proof -
    have "peer_avail (c\<lparr>sent_to_guest := sent_to_guest c + of_nat ?k, prefetched := x\<rparr>) =
        peer_avail (c\<lparr>sent_to_guest := sent_to_guest c + of_nat ?k\<rparr>)"
      by (simp add: peer_avail_def)
    with peer_avail_sent [of ?k c] show ?thesis by (simp add: min_def)
  qed
  then show ?thesis
    using ingest_open [OF assms, of data] by (auto simp: ingest_effect_def Let_def)
qed

theorem ingest_obeys_credit_witness:
  "ingest_effect sim_flow [1, 2, 3, 4, 5, 6] sim_mux sim_conn (ingest sim_flow [1, 2, 3, 4, 5, 6] sim_mux)"
  using ingest_obeys_credit [of sim_mux sim_flow sim_conn "[1, 2, 3, 4, 5, 6]"]
  by (simp add: sim_conn_def Conn_new_def)

section \<open>Bytes for the host\<close>

text \<open>
  C23. Guest data reaches the host socket complete and in order: whenever the write loops
  return, with success or error, what was sent on the socket followed by what is still held
  is what was sent before followed by the pending handshake line and the held data; the
  forward counter advances by the data bytes sent; no data byte is sent before the handshake
  line is out; other sockets are untouched; and success means everything was sent.
\<close>

theorem flush_keeps_stream:
  assumes "stream_law S tx" and "flush_both S c w = Some (r, c', w')"
  shows "tx w' (cn_fd c) @ ok_pending c' @ to_host c' = tx w (cn_fd c) @ ok_pending c @ to_host c \<and>
    fwd_cnt c' = fwd_cnt c + of_nat (length (to_host c) - length (to_host c')) \<and>
    (to_host c' \<noteq> to_host c \<longrightarrow> ok_pending c' = []) \<and>
    (\<forall>fd. fd \<noteq> cn_fd c \<longrightarrow> tx w' fd = tx w fd) \<and>
    (r = Inr () \<longrightarrow> ok_pending c' = [] \<and> to_host c' = [])"
  using assms(2)
proof (rule flush_both_spec)
  fix ra j k wa
  assume y: "(r, c', w') = (ra, c\<lparr>ok_pending := drop j (ok_pending c), to_host := drop k (to_host c),
      fwd_cnt := fwd_cnt c + of_nat k\<rparr>, wa)"
    and k: "k \<le> length (to_host c)" and j: "k \<noteq> 0 \<Longrightarrow> length (ok_pending c) \<le> j"
    and ok: "ra = Inr () \<Longrightarrow> k = length (to_host c) \<and> length (ok_pending c) \<le> j"
    and tx: "stream_law S tx \<Longrightarrow>
      tx wa = sends_on (cn_fd c) (take j (ok_pending c) @ take k (to_host c)) (tx w)"
  have "take j (ok_pending c) @ take k (to_host c) @ drop j (ok_pending c) @ drop k (to_host c) =
      ok_pending c @ to_host c"
  proof (cases "k = 0")
    case True
    then show ?thesis by (metis append_take_drop_id append_assoc drop0 take0 append_Nil)
  qed (use j in simp)
  then show ?thesis
    using y k j ok tx [OF assms(1)] by (cases "k = 0") (auto simp: sends_on_def)
qed

theorem flush_keeps_stream_witness:
  "\<exists>r c' w'. flush_both sim_sock (sim_conn\<lparr>to_host := [1, 2, 3]\<rparr>) (net0\<lparr>net_room := 2\<rparr>) = Some (r, c', w') \<and>
     net_tx w' 7 @ to_host c' = [1, 2, 3]"
proof -
  let ?c = "sim_conn\<lparr>to_host := [1, 2, 3]\<rparr>" and ?w = "net0\<lparr>net_room := 2\<rparr>"
  have "\<exists>y. flush_both sim_sock ?c ?w = Some y"
    by (simp add: flush_both_def flush_ok.simps flush_to_host.simps send_nosig.simps sim_sock_def
        sim_conn_def Conn_new_def net0_def drain_def const_defs)
  then obtain r c' w' where y: "flush_both sim_sock ?c ?w = Some (r, c', w')" by auto
  from flush_keeps_stream [OF sim_stream_law y] y show ?thesis
    by (auto simp: sim_conn_def Conn_new_def net0_def)
qed

text \<open>
  C35. The handshake answer comes first: when the guest accepts a host connection and the
  socket takes the write, the stream gains exactly the line \<open>OK\<close> with the host port, and
  the connection is established with no deadline.
\<close>

theorem response_sends_ok_line:
  assumes law: "stream_law S tx" and c: "get_conn m f = Some c" and wait: "phase c = WaitGuest"
    and idle: "to_host c = []"
    and ok: "flush_both S (c\<lparr>phase := Established, expiry := None,
       ok_pending := ascii (''OK '' @ decimal (unat (host_port f)) @ [CHR 0x0A])\<rparr>) w = Some (Inr (), c', w')"
  shows "tx w' (cn_fd c) = tx w (cn_fd c) @ ascii (''OK '' @ decimal (unat (host_port f)) @ [CHR 0x0A]) \<and>
    phase c' = Established \<and> expiry c' = None \<and> on_response S f m w =
      Some (flush_rest S f (put_conn f (c\<lparr>phase := Established, expiry := None,
       ok_pending := ascii (''OK '' @ decimal (unat (host_port f)) @ [CHR 0x0A])\<rparr>) m) (Inr (), c', w'))"
proof -
  let ?c = "c\<lparr>phase := Established, expiry := None,
       ok_pending := ascii (''OK '' @ decimal (unat (host_port f)) @ [CHR 0x0A])\<rparr>"
  have "phase c' = Established \<and> expiry c' = None \<and>
      tx w' (cn_fd c) = tx w (cn_fd c) @ ok_pending ?c"
    using ok
  proof (rule flush_both_spec)
    fix ra j k wa
    assume "(Inr (), c', w') = (ra, ?c\<lparr>ok_pending := drop j (ok_pending ?c), to_host := drop k (to_host ?c),
        fwd_cnt := fwd_cnt ?c + of_nat k\<rparr>, wa)"
      and "ra = Inr () \<Longrightarrow> k = length (to_host ?c) \<and> length (ok_pending ?c) \<le> j"
      and "stream_law S tx \<Longrightarrow>
        tx wa = sends_on (cn_fd ?c) (take j (ok_pending ?c) @ take k (to_host ?c)) (tx w)"
    with law idle show ?thesis by (auto simp: sends_on_def)
  qed
  with c wait ok show ?thesis by (simp add: on_response_def flush_conn_def)
qed

theorem response_sends_ok_line_witness:
  "\<exists>c' w'. flush_both sim_sock (sim_conn\<lparr>phase := Established, expiry := None,
       ok_pending := ascii (''OK '' @ decimal (unat (host_port sim_flow)) @ [CHR 0x0A])\<rparr>) net0 =
         Some (Inr (), c', w') \<and> net_tx w' 7 = ascii (''OK '' @ decimal 1024 @ [CHR 0x0A])"
proof -
  let ?c = "sim_conn\<lparr>phase := WaitGuest\<rparr>"
  let ?m = "put_conn sim_flow ?c sim_mux"
  let ?l = "ascii (''OK '' @ decimal (unat (host_port sim_flow)) @ [CHR 0x0A])"
  have l: "?l = [79, 75, 32, 49, 48, 50, 52, 10]"
    by code_simp
  obtain c' w' where y: "flush_both sim_sock (?c\<lparr>phase := Established, expiry := None, ok_pending := ?l\<rparr>) net0 =
      Some (Inr (), c', w')"
    unfolding l
    by (simp add: flush_both_def flush_ok.simps flush_to_host.simps send_nosig.simps sim_sock_def
        sim_conn_def Conn_new_def net0_def drain_def)
  from response_sends_ok_line [OF sim_stream_law _ _ _ y, of ?m] y show ?thesis
    by (simp add: sim_conn_def Conn_new_def net0_def sim_flow_def)
qed

section \<open>Host ports\<close>

lemma unat_next_port:
  assumes "1024 \<le> p"
  shows "unat (next_port p) = 1024 + (unat p - 1024 + 1) mod (2 ^ 32 - 1024)"
proof (cases "p = 0xffffffff")
  case False
  then have "unat p \<noteq> 0xffffffff" by (simp add: word_unat_eq_iff)
  with unat_less_exp [of p] have lt: "unat p + 1 < 2 ^ 32" by simp
  with False assms show ?thesis
    by (simp add: next_port_def unat_word_ariths word_le_nat_alt)
qed (simp add: next_port_def)

lemma next_ports:
  assumes "1024 \<le> p"
  shows "1024 \<le> (next_port ^^ i) p \<and>
    unat ((next_port ^^ i) p) = 1024 + (unat p - 1024 + i) mod (2 ^ 32 - 1024)"
proof (induction i)
  case 0
  then show ?case using assms unat_less_exp [of p] by (simp add: word_le_nat_alt)
next
  case (Suc i)
  then show ?case
    using next_port_ge [of "(next_port ^^ i) p"] unat_next_port [of "(next_port ^^ i) p"]
    by (simp add: mod_Suc_eq)
qed

lemma next_ports_inj:
  assumes "1024 \<le> p"
  shows "inj_on (\<lambda>i. (next_port ^^ i) p) {..<60000}"
proof (rule inj_onI)
  fix i j :: nat
  assume ij: "i \<in> {..<60000}" "j \<in> {..<60000}" and eq: "(next_port ^^ i) p = (next_port ^^ j) p"
  let ?N = "4294966272 :: nat"
  have "(unat p - 1024 + i) mod ?N = (unat p - 1024 + j) mod ?N"
    using next_ports [OF assms, of i] next_ports [OF assms, of j] eq by simp
  then have "i mod ?N = j mod ?N" unfolding nat_mod_eq_iff by (simp add: add.assoc)
  with ij show "i = j" by simp
qed

lemma alloc_port_loop_some:
  "alloc_port_loop k m = (Some p, m') \<Longrightarrow>
   1024 \<le> p \<and> (\<forall>x \<in> set (conns m). host_port (fst x) \<noteq> p) \<and> conns m' = conns m"
proof (induction k arbitrary: m)
  case (Suc k)
  then show ?case
    by (fastforce simp: Let_def list_ex_iff not_less split: if_splits)
qed simp

lemma alloc_port_loop_none:
  "fst (alloc_port_loop k m) = None \<Longrightarrow> 1024 \<le> next_host_port m \<Longrightarrow> i < k \<Longrightarrow>
   (next_port ^^ i) (next_host_port m) \<in> (\<lambda>x. host_port (fst x)) ` set (conns m)"
proof (induction k arbitrary: m i)
  case (Suc k)
  let ?m = "m\<lparr>next_host_port := next_port (next_host_port m)\<rparr>"
  from Suc.prems have used: "\<exists>x \<in> set (conns m). host_port (fst x) = next_host_port m"
    and none: "fst (alloc_port_loop k ?m) = None"
    by (auto simp: Let_def next_port_def list_ex_iff not_less split: if_splits) force+
  show ?case
  proof (cases i)
    case 0
    then show ?thesis using used by force
  next
    case (Suc i')
    then show ?thesis
      using Suc.IH [OF none, of i'] next_port_ge Suc.prems by (simp add: funpow_swap1)
  qed
qed simp

text \<open>
  C27. A host port given to a connection is never reserved and never in use, and with fewer
  than 60000 connections there always is one, wherever the counter stands.
\<close>

theorem alloc_host_port_fresh:
  "(\<forall>p m'. alloc_host_port m = (Some p, m') \<longrightarrow>
      1024 \<le> p \<and> (\<forall>x \<in> set (conns m). host_port (fst x) \<noteq> p) \<and> conns m' = conns m) \<and>
   (1024 \<le> next_host_port m \<and> length (conns m) < 60000 \<longrightarrow> fst (alloc_host_port m) \<noteq> None)"
proof (intro conjI allI impI notI)
  assume a: "1024 \<le> next_host_port m \<and> length (conns m) < 60000"
    and none: "fst (alloc_host_port m) = None"
  let ?P = "\<lambda>i. (next_port ^^ i) (next_host_port m)"
  have "?P ` {..<60000} \<subseteq> (\<lambda>x. host_port (fst x)) ` set (conns m)"
    using alloc_port_loop_none [of 60000 m] none a unfolding alloc_host_port_def by blast
  then have "card (?P ` {..<60000}) \<le> card (set (conns m))"
    by (meson List.finite_set card_image_le card_mono finite_imageI le_trans)
  moreover have "card (?P ` {..<60000}) = 60000"
    using card_image [OF next_ports_inj] a by simp
  ultimately show False
    using a card_length [of "conns m"] by simp
qed (auto simp: alloc_host_port_def dest: alloc_port_loop_some)

theorem alloc_host_port_fresh_witness:
  "\<exists>p m'. alloc_host_port sim_mux = (Some p, m') \<and> 1024 \<le> p"
  using alloc_host_port_fresh [of sim_mux]
  by (cases "alloc_host_port sim_mux") (auto simp: sim_mux_def)

end
