(* ===== verification/VsockMuxReturn.thy ===== *)
theory VsockMuxReturn
  imports VsockMuxProps
begin

text \<open>
  Termination of the vsock multiplexer: the loops around system calls return, and with them
  every operation, when interrupts and waiting connections are finite.
\<close>

section \<open>Every operation returns\<close>

text \<open>
  What the loops rely on: a call is interrupted only finitely often, the listener has
  finitely many connections waiting, and \<^verbatim>\<open>send\<close> takes no more than it is given. \<open>\<mu>\<close>
  counts the interrupts and connections still to come.
\<close>

definition calls_end :: "'w sock \<Rightarrow> ('w \<Rightarrow> nat) \<Rightarrow> bool" where
  "calls_end S \<mu> \<longleftrightarrow>
     (\<forall>fd buf w w'. sk_send S fd buf w = (Inl EINTR, w') \<longrightarrow> \<mu> w' < \<mu> w) \<and>
     (\<forall>fd buf w n w'. sk_send S fd buf w = (Inr n, w') \<longrightarrow> n \<le> length buf) \<and>
     (\<forall>fd n w w'. sk_read S fd n w = (Inl EINTR, w') \<longrightarrow> \<mu> w' < \<mu> w) \<and>
     (\<forall>fd w w'. sk_accept S fd w = (Inl EINTR, w') \<longrightarrow> \<mu> w' < \<mu> w) \<and>
     (\<forall>fd w a w'. sk_accept S fd w = (Inr a, w') \<longrightarrow> \<mu> w' < \<mu> w) \<and>
     (\<forall>fd w. \<mu> (sk_close S fd w) \<le> \<mu> w)"

lemma calls_endD:
  assumes "calls_end S \<mu>"
  shows "sk_send S fd buf w = (Inl EINTR, w') \<Longrightarrow> \<mu> w' < \<mu> w"
    and "sk_send S fd buf w = (Inr n, w') \<Longrightarrow> n \<le> length buf"
    and "sk_read S fd k w = (Inl EINTR, w') \<Longrightarrow> \<mu> w' < \<mu> w"
    and "sk_accept S fd w = (Inl EINTR, w') \<Longrightarrow> \<mu> w' < \<mu> w"
    and "sk_accept S fd w = (Inr a, w') \<Longrightarrow> \<mu> w' < \<mu> w"
    and "\<mu> (sk_close S fd w) \<le> \<mu> w"
  using assms unfolding calls_end_def by metis+

lemma send_nosig_returns:
  assumes "calls_end S \<mu>"
  shows "\<exists>r w'. send_nosig S fd buf w = Some (r, w') \<and> (\<forall>n. r = Inr n \<longrightarrow> n \<le> length buf)"
proof (induction w rule: measure_induct_rule [of \<mu>])
  case (less w)
  obtain r w1 where s: "sk_send S fd buf w = (r, w1)" by (cases "sk_send S fd buf w")
  then show ?case
  proof (cases "r = Inl EINTR")
    case True
    with s calls_endD(1) [OF assms] have "\<mu> w1 < \<mu> w" by simp
    from less [OF this] True s show ?thesis by (subst send_nosig.simps) simp
  next
    case False
    with s calls_endD(2) [OF assms] show ?thesis
      by (subst send_nosig.simps) (cases r; simp)
  qed
qed

lemma read_fd_returns:
  assumes "calls_end S \<mu>"
  shows "\<exists>r w'. read_fd S fd n w = Some (r, w')"
proof (induction w rule: measure_induct_rule [of \<mu>])
  case (less w)
  obtain r w1 where s: "sk_read S fd n w = (r, w1)" by (cases "sk_read S fd n w")
  show ?case
  proof (cases "r = Inl EINTR")
    case True
    with s calls_endD(3) [OF assms] have "\<mu> w1 < \<mu> w" by simp
    from less [OF this] True s show ?thesis by (subst read_fd.simps) simp
  next
    case False
    with s show ?thesis by (subst read_fd.simps) (auto split: sum.splits)
  qed
qed

lemma flush_ok_returns:
  assumes "calls_end S \<mu>"
  shows "\<exists>y. flush_ok S c w = Some y"
proof (induction "length (ok_pending c)" arbitrary: c w rule: less_induct)
  case less
  obtain r w1 where s: "send_nosig S (cn_fd c) (ok_pending c) w = Some (r, w1)"
    and n: "\<forall>n. r = Inr n \<longrightarrow> n \<le> length (ok_pending c)"
    using send_nosig_returns [OF assms] by blast
  have "\<exists>y. flush_ok S (c\<lparr>ok_pending := drop k (ok_pending c)\<rparr>) w1 = Some y"
    if "0 < k" "ok_pending c \<noteq> []" for k
    using that by (intro less) simp
  with s n show ?case
    by (subst flush_ok.simps) (auto simp: drain_def split: sum.splits)
qed

lemma flush_to_host_returns:
  assumes "calls_end S \<mu>"
  shows "\<exists>y. flush_to_host S c w = Some y"
proof (induction "length (to_host c)" arbitrary: c w rule: less_induct)
  case less
  obtain r w1 where s: "send_nosig S (cn_fd c) (to_host c) w = Some (r, w1)"
    and n: "\<forall>n. r = Inr n \<longrightarrow> n \<le> length (to_host c)"
    using send_nosig_returns [OF assms] by blast
  have "\<exists>y. flush_to_host S (c\<lparr>to_host := drop k (to_host c), fwd_cnt := x\<rparr>) w1 = Some y"
    if "0 < k" "to_host c \<noteq> []" for k x
    using that by (intro less) simp
  with s n show ?case
    by (subst flush_to_host.simps) (auto simp: drain_def split: sum.splits)
qed

lemma flush_conn_returns:
  assumes "calls_end S \<mu>"
  shows "\<exists>m' w'. flush_conn S f m w = Some (m', w')"
proof (cases "get_conn m f")
  case (Some c)
  obtain r c1 w1 where "flush_ok S c w = Some (r, c1, w1)"
    using flush_ok_returns [OF assms, of c w] by auto
  moreover obtain y where "flush_to_host S c1 w1 = Some y"
    using flush_to_host_returns [OF assms] by blast
  ultimately show ?thesis
    using Some by (cases r; cases "flush_rest S f m (r, c1, w1)"; cases "flush_rest S f m y")
      (auto simp: flush_conn_def flush_both_def)
qed (simp add: flush_conn_def)

lemma accept_loop_returns:
  assumes "calls_end S \<mu>"
  shows "\<exists>y. accept_loop S m w = Some y"
proof (induction w arbitrary: m rule: measure_induct_rule [of \<mu>])
  case (less w)
  obtain r w1 where s: "sk_accept S (listener m) w = (r, w1)" by (cases "sk_accept S (listener m) w")
  show ?case
  proof (cases r)
    case (Inl e)
    with s calls_endD(4) [OF assms, of "listener m" w w1] less [of w1 m] show ?thesis
      by (subst accept_loop.simps) auto
  next
    case (Inr fd)
    with s calls_endD(5) [OF assms] have lt: "\<mu> w1 < \<mu> w" by simp
    then have "\<mu> (sk_close S fd w1) < \<mu> w"
      using calls_endD(6) [OF assms, of fd w1] by simp
    with lt less s Inr show ?thesis by (subst accept_loop.simps) simp
  qed
qed

lemma handle_guest_pkt_returns:
  assumes "calls_end S \<mu>"
  shows "\<exists>y. handle_guest_pkt S hdr data m w = Some y"
  unfolding handle_guest_pkt_def on_response_def on_shutdown_def on_rw_def Let_def
  by (intro if_branches [where P = "\<lambda>x. \<exists>y. x = Some y"])
    (auto simp: flush_conn_returns [OF assms] split: option.split prod.split)

lemma read_incoming_returns:
  assumes "calls_end S \<mu>"
  shows "\<exists>y. read_incoming S idx m w = Some y"
  using read_fd_returns [OF assms, of "inc_fd (incoming m ! idx)" 64 w]
  by (auto simp: read_incoming_def)

lemma read_conn_returns:
  assumes "calls_end S \<mu>"
  shows "\<exists>y. read_conn S f m w = Some y"
proof (cases "get_conn m f")
  case (Some c)
  then show ?thesis
    using read_fd_returns [OF assms, of "cn_fd c" MAX_CHUNK w] by (auto simp: read_conn_def)
qed (simp add: read_conn_def)

lemma on_fd_returns:
  assumes "calls_end S \<mu>"
  shows "\<exists>y. on_fd S fd re m w = Some y"
proof (cases "fd = listener m \<or> position (\<lambda>inc. inc_fd inc = fd) (incoming m) \<noteq> None \<or>
    find (\<lambda>(_, c). cn_fd c = fd) (conns m) = None")
  case True
  then show ?thesis
    using accept_loop_returns [OF assms] read_incoming_returns [OF assms]
    by (auto simp: on_fd_def split: option.split)
next
  case False
  then obtain f c where c: "find (\<lambda>(_, c). cn_fd c = fd) (conns m) = Some (f, c)" by auto
  obtain m1 w1 where "(if re AND (POLLIN OR POLLHUP OR POLLERR OR POLLNVAL) \<noteq> 0
      then read_conn S f m w else Some (m, w)) = Some (m1, w1)"
    using read_conn_returns [OF assms, of f m w] by (cases "re AND (POLLIN OR POLLHUP OR POLLERR OR POLLNVAL) = 0") auto
  with False c show ?thesis
    using flush_conn_returns [OF assms]
    by (auto simp: on_fd_def split: option.split)
qed

text \<open>
  C25. The multiplexer never hangs: if interrupts and waiting connections are finite, every
  guest packet and every descriptor event is handled in finite time without panic.
\<close>

theorem mux_operations_return:
  assumes "calls_end S \<mu>"
  shows "(\<exists>y. handle_guest_pkt S hdr data m w = Some y) \<and> (\<exists>y. on_fd S fd re m w = Some y)"
  using handle_guest_pkt_returns [OF assms] on_fd_returns [OF assms] by blast

theorem mux_operations_return_witness:
  "\<exists>y. on_fd sim_sock 3 POLLIN sim_mux (net0\<lparr>net_backlog := [8, 9]\<rparr>) = Some y"
proof -
  have "calls_end sim_sock (\<lambda>w. length (net_backlog w))"
    by (auto simp: calls_end_def sim_sock_def Let_def const_defs split: if_splits list.splits)
  from mux_operations_return [OF this] show ?thesis by blast
qed

end
