(* ===== verification/VsockMuxGuest.thy ===== *)
theory VsockMuxGuest
  imports VsockMuxProps
begin

text \<open>
  What the vsock multiplexer answers to the guest: packets with foreign addresses or of
  unknown flows, data beyond the advertised buffer, resets, the limit on host connections,
  and the two places where stream data is lost or overtaken.
\<close>

section \<open>Unknown and foreign packets\<close>

lemma enqueue_rst_ctrl:
  "out_ctrl (enqueue_rst f m) =
     filter (\<lambda>p. \<not> (pkt_flow p = f \<and> pkt_op p = OP_RST)) (out_ctrl m) @ [OutPkt_ctrl f OP_RST 0]"
  "out_data (enqueue_rst f m) = out_data m" "get_conn (enqueue_rst f m) g = get_conn m g"
  by (simp_all add: enqueue_rst_def)

text \<open>
  C30. A packet that is not for this device changes nothing, and a packet of an unknown flow
  is answered by exactly one reset unless it is itself a reset: afterwards the control queue
  holds one reset for that flow, at its end, and connections, data and the host are
  untouched.
\<close>

theorem stray_packets:
  "(hdr_src_cid hdr \<noteq> mux_guest_cid m \<or> hdr_dst_cid hdr \<noteq> HOST_CID \<longrightarrow>
      handle_guest_pkt S hdr data m w = Some (m, w)) \<and>
    (hdr_src_cid hdr = mux_guest_cid m \<and> hdr_dst_cid hdr = HOST_CID \<and>
     hdr_type hdr = TYPE_STREAM \<and> hdr_op hdr \<noteq> OP_REQUEST \<and>
     get_conn m \<lparr>guest_port = hdr_src_port hdr, host_port = hdr_dst_port hdr\<rparr> = None \<longrightarrow>
      handle_guest_pkt S hdr data m w =
        Some (if hdr_op hdr = OP_RST then m
          else enqueue_rst \<lparr>guest_port = hdr_src_port hdr, host_port = hdr_dst_port hdr\<rparr> m, w)) \<and>
    (let m' = enqueue_rst f m in
      conns m' = conns m \<and> out_data m' = out_data m \<and>
      filter (\<lambda>p. pkt_flow p = f \<and> pkt_op p = OP_RST) (out_ctrl m') = [OutPkt_ctrl f OP_RST 0] \<and>
      filter (\<lambda>p. pkt_flow p \<noteq> f) (out_ctrl m') = filter (\<lambda>p. pkt_flow p \<noteq> f) (out_ctrl m))"
proof -
  have "filter (\<lambda>p. pkt_flow p = f \<and> pkt_op p = OP_RST)
      (filter (\<lambda>p. \<not> (pkt_flow p = f \<and> pkt_op p = OP_RST)) ps) = []" for ps
    by (induction ps) auto
  moreover have "filter (\<lambda>p. pkt_flow p \<noteq> f)
      (filter (\<lambda>p. \<not> (pkt_flow p = f \<and> pkt_op p = OP_RST)) ps) = filter (\<lambda>p. pkt_flow p \<noteq> f) ps" for ps
    by (induction ps) auto
  moreover have "conns (enqueue_rst f m) = conns m" by (simp add: enqueue_rst_def)
  ultimately show ?thesis
    by (auto simp: handle_guest_pkt_def enqueue_rst_ctrl OutPkt_ctrl_def Let_def simp del: filter_filter)
qed

theorem stray_packets_witness:
  "handle_guest_pkt sim_sock (Header_parse (OutPkt_header (OutPkt_ctrl sim_flow OP_SHUTDOWN 0) 9 0 0)) []
     sim_mux net0 = Some (sim_mux, net0)"
  using stray_packets [where hdr = "Header_parse (OutPkt_header (OutPkt_ctrl sim_flow OP_SHUTDOWN 0) 9 0 0)"
      and m = sim_mux and S = sim_sock and w = net0 and data = "[]" and f = sim_flow]
  by (simp add: Header_parse_def OutPkt_header_def slice_def sim_mux_def HOST_CID_def)

section \<open>Data beyond the buffer\<close>

text \<open>
  C29. A guest that overruns the buffer it was granted is cut off: data for an open
  connection that does not fit in what is free of the advertised 256 KiB removes the
  connection, closes its socket, discards every queued packet of that flow and leaves exactly
  one reset for it; the other flows keep their packets and connections.
\<close>

theorem overrun_resets_flow:
  assumes c: "get_conn m f = Some c" and opn: "phase c = Established" "\<not> local_shut_recv c" "\<not> peer_shut_send c"
    and inv: "conn_inv c"
    and over: "length data \<le> MAX_PAYLOAD" "unat BUF_ALLOC < length (to_host c) + length data"
  shows "\<exists>m'. on_rw S f data m w = Some (m', sk_close S (cn_fd c) w) \<and>
    get_conn m' f = None \<and> (\<forall>g. g \<noteq> f \<longrightarrow> get_conn m' g = get_conn m g) \<and>
    filter (\<lambda>p. pkt_flow p = f) (out_ctrl m') = [OutPkt_ctrl f OP_RST 0] \<and>
    filter (\<lambda>p. pkt_flow p = f) (out_data m') = [] \<and>
    filter (\<lambda>p. pkt_flow p \<noteq> f) (out_ctrl m') = filter (\<lambda>p. pkt_flow p \<noteq> f) (out_ctrl m) \<and>
    filter (\<lambda>p. pkt_flow p \<noteq> f) (out_data m') = filter (\<lambda>p. pkt_flow p \<noteq> f) (out_data m)"
proof -
  have len: "unat (of_nat (length data) :: u32) = length data"
    using over(1) by (simp add: unat_of_nat const_defs)
  have ne: "data \<noteq> []" using over(2) inv by (auto simp: conn_inv_def)
  have "of_nat (length data) > local_free c"
    using over(2) inv len by (auto simp: local_free_def word_less_nat_alt conn_inv_def)
  with c opn ne have "on_rw S f data m w = Some (drop_conn S f True m w)"
    by (simp add: on_rw_def)
  moreover have "map_of (AList.delete f (conns m)) = (map_of (conns m))(f := None)"
    by (simp add: delete_conv')
  ultimately show ?thesis
    using c
    by (simp add: drop_conn_def Let_def get_conn_def enqueue_rst_ctrl [unfolded get_conn_def]
        OutPkt_ctrl_def) (auto intro: filter_cong simp: filter_empty_conv)
qed

theorem overrun_resets_flow_witness:
  "\<exists>m'. on_rw sim_sock sim_flow (replicate 2 7)
      (put_conn sim_flow (sim_conn\<lparr>received := BUF_ALLOC, to_host := replicate (unat BUF_ALLOC) 1\<rparr>) sim_mux) net0 =
      Some (m', net0) \<and> get_conn m' sim_flow = None"
proof -
  let ?c = "sim_conn\<lparr>received := BUF_ALLOC, to_host := replicate (unat BUF_ALLOC) 1\<rparr>"
  have "conn_inv ?c"
    by (simp add: conn_inv_def sim_conn_def Conn_new_def)
  moreover have "sk_close sim_sock (cn_fd ?c) net0 = net0" by (simp add: sim_sock_def)
  ultimately show ?thesis
    using overrun_resets_flow [of "put_conn sim_flow ?c sim_mux" sim_flow ?c "replicate 2 7" sim_sock net0]
    by (auto simp: sim_conn_def Conn_new_def MAX_PAYLOAD_def)
qed

section \<open>The limit on host connections\<close>

lemma accept_loop_bound:
  assumes "accept_loop S m w = Some y" and "length (incoming m) + length (conns m) \<le> K" and "MAX_CONNS \<le> K"
  shows "length (incoming (fst y)) + length (conns (fst y)) \<le> K \<and> conns (fst y) = conns m"
  using assms
proof (induction rule: accept_loop.raw_induct [rotated, consumes 1, case_names step])
  case (step rec S m w y)
  obtain r w1 where s: "sk_accept S (listener m) w = (r, w1)" by (cases "sk_accept S (listener m) w")
  show ?case
  proof (cases r)
    case (Inl e)
    show ?thesis
    proof (cases "e = EINTR")
      case True
      with s Inl step.hyps have "rec S m w1 = Some y" by simp
      from step.IH [OF this] step.prems show ?thesis by auto
    qed (use s Inl step in auto)
  next
    case (Inr fd)
    let ?m = "m\<lparr>incoming := incoming m @ [\<lparr>inc_fd = fd, inc_buf = []\<rparr>]\<rparr>"
    show ?thesis
    proof (cases "MAX_CONNS \<le> length (incoming m) + length (conns m)")
      case True
      with s Inr step.hyps have "rec S m (sk_close S fd w1) = Some y" by simp
      from step.IH [OF this] step.prems show ?thesis by auto
    next
      case False
      with s Inr step.hyps have "rec S ?m w1 = Some y" by simp
      from step.IH [OF this] False step.prems show ?thesis by auto
    qed
  qed
qed

text \<open>
  C36. The host cannot exhaust the device: accepting connections never brings the number of
  handshakes and connections above 128, or above where it already was.
\<close>

theorem accept_respects_limit:
  assumes "accept_loop S m w = Some (m', w')"
  shows "length (incoming m') + length (conns m') \<le>
     max MAX_CONNS (length (incoming m) + length (conns m)) \<and> conns m' = conns m"
  using accept_loop_bound [OF assms, of "max MAX_CONNS (length (incoming m) + length (conns m))"]
  by auto

theorem accept_respects_limit_witness:
  "\<exists>m' w'. accept_loop sim_sock sim_mux (net0\<lparr>net_backlog := [8, 9]\<rparr>) = Some (m', w') \<and>
     length (incoming m') + length (conns m') \<le> 128"
proof -
  obtain m' w' where "accept_loop sim_sock sim_mux (net0\<lparr>net_backlog := [8, 9]\<rparr>) = Some (m', w')"
    by (simp add: accept_loop.simps sim_sock_def sim_mux_def net0_def const_defs)
  from accept_respects_limit [OF this] this show ?thesis
    by (auto simp: sim_mux_def const_defs)
qed

section \<open>Backpressure and credit\<close>

text \<open>
  C37. A full host socket ends the connection: the sockets are non-blocking, and when
  \<^verbatim>\<open>send\<close> answers that it would block, the connection is not kept for the next
  writable event, although its held data stays queued and \<open>interests\<close> asks for that event:
  both directions are marked shut, the guest is sent a shutdown of both directions, and the
  two second deadline starts.
\<close>

theorem full_socket_shuts_connection:
  assumes c: "get_conn m f = Some c" and opn: "phase c = Established" "\<not> local_shut_send c"
      "\<not> local_shut_recv c"
    and held: "ok_pending c = []" "to_host c \<noteq> []"
    and full: "sk_send S (cn_fd c) (to_host c) w = (Inl EAGAIN, w')" and now: "sk_now S w' = (t, w'')"
  shows "\<exists>m'. flush_conn S f m w = Some (m', w'') \<and>
    get_conn m' f = Some (c\<lparr>local_shut_send := True, local_shut_recv := True,
      expiry := Some (t + SHUTDOWN_TIMEOUT)\<rparr>) \<and>
    out_ctrl m' = out_ctrl m @ [OutPkt_ctrl f OP_SHUTDOWN (SHUTDOWN_SEND OR SHUTDOWN_RCV)] \<and>
    conn_events (c\<lparr>local_shut_send := True, local_shut_recv := True,
      expiry := Some (t + SHUTDOWN_TIMEOUT)\<rparr>) AND POLLOUT \<noteq> 0"
proof -
  have "send_nosig S (cn_fd c) (to_host c) w = Some (Inl (Os EAGAIN), w')"
    using full by (subst send_nosig.simps) (simp add: const_defs)
  then have "flush_both S c w = Some (Inl (Os EAGAIN), c, w')"
    using held by (simp add: flush_both_def flush_ok.simps flush_to_host.simps)
  moreover have "SHUTDOWN_SEND OR SHUTDOWN_RCV \<noteq> 0" by (simp add: const_defs)
  ultimately show ?thesis
    using c opn now held
    by (simp add: flush_conn_def flush_rest_def mark_local_shut_def waiting_def conn_events_def
        POLLOUT_def POLLIN_def)
qed

theorem full_socket_shuts_connection_witness:
  "\<exists>m' w'. flush_conn sim_sock sim_flow (put_conn sim_flow (sim_conn\<lparr>to_host := [1]\<rparr>) sim_mux)
      (net0\<lparr>net_room := 0\<rparr>) = Some (m', w') \<and>
    out_ctrl m' = [OutPkt_ctrl sim_flow OP_SHUTDOWN (SHUTDOWN_SEND OR SHUTDOWN_RCV)]"
proof -
  let ?c = "sim_conn\<lparr>to_host := [1]\<rparr>" and ?w = "net0\<lparr>net_room := 0\<rparr>"
  have "sk_send sim_sock (cn_fd ?c) (to_host ?c) ?w = (Inl EAGAIN, ?w)" and "sk_now sim_sock ?w = (0, ?w)"
    by (simp_all add: sim_sock_def net0_def)
  from full_socket_shuts_connection [OF _ _ _ _ _ _ this, of "put_conn sim_flow ?c sim_mux" sim_flow]
  show ?thesis by (auto simp: sim_conn_def Conn_new_def sim_mux_def)
qed

text \<open>
  C39. A credit update does not release stashed data, and later data overtakes it: after the
  guest grants new credit to an open connection with stashed bytes, nothing is queued for
  the guest, and the next bytes read from the host, when the credit admits them, are queued
  ahead of the stashed ones, which stay behind. The guest then receives the stream out of
  order.
\<close>

theorem credit_update_lets_data_overtake:
  assumes cid: "hdr_src_cid hdr = mux_guest_cid m" "hdr_dst_cid hdr = HOST_CID"
    and upd: "hdr_type hdr = TYPE_STREAM" "hdr_op hdr = OP_CREDIT_UPDATE"
    and f: "f = \<lparr>guest_port = hdr_src_port hdr, host_port = hdr_dst_port hdr\<rparr>"
    and c: "get_conn m f = Some c" and opn: "phase c = Established" "\<not> local_shut_send c" "\<not> peer_shut_recv c"
    and credit: "length new \<le> unat (peer_avail (c\<lparr>peer_buf_alloc := hdr_buf_alloc hdr,
        peer_fwd_cnt := hdr_fwd_cnt hdr\<rparr>))"
  shows "\<exists>m1. handle_guest_pkt S hdr data m w = Some (m1, w) \<and> out_data m1 = out_data m \<and>
    (\<exists>c1. get_conn m1 f = Some c1 \<and> prefetched c1 = prefetched c) \<and>
    (\<exists>pkts. out_data (ingest f new m1) = out_data m @ pkts \<and> concat (map pkt_data pkts) = new) \<and>
    (\<exists>c2. get_conn (ingest f new m1) f = Some c2 \<and> prefetched c2 = prefetched c)"
proof -
  let ?g = "\<lambda>c. c\<lparr>peer_buf_alloc := hdr_buf_alloc hdr, peer_fwd_cnt := hdr_fwd_cnt hdr\<rparr>"
  let ?m1 = "with_conn f ?g m"
  have "handle_guest_pkt S hdr data m w = Some (?m1, w)"
    using cid upd c by (simp add: handle_guest_pkt_def f [symmetric]) (simp add: const_defs)
  moreover have c1: "get_conn ?m1 f = Some (?g c)" using c by simp
  moreover have "ingest_effect f new ?m1 (?g c) (ingest f new ?m1)"
    using c1 opn by (intro ingest_open) simp_all
  ultimately show ?thesis
    using credit by (auto simp: ingest_effect_def Let_def min_def)
qed

theorem credit_update_lets_data_overtake_witness:
  "\<exists>m1. handle_guest_pkt sim_sock
      \<lparr>hdr_src_cid = 3, hdr_dst_cid = 2, hdr_src_port = 52, hdr_dst_port = 1024, hdr_len = 0,
       hdr_type = 1, hdr_op = 6, hdr_flags = 0, hdr_buf_alloc = 4096, hdr_fwd_cnt = 0\<rparr> []
      (put_conn sim_flow (sim_conn\<lparr>prefetched := [1, 2]\<rparr>) sim_mux) net0 = Some (m1, net0) \<and>
    (\<exists>pkts. out_data (ingest sim_flow [3] m1) = pkts \<and> concat (map pkt_data pkts) = [3]) \<and>
    (\<exists>c2. get_conn (ingest sim_flow [3] m1) sim_flow = Some c2 \<and> prefetched c2 = [1, 2])"
  using credit_update_lets_data_overtake [of "\<lparr>hdr_src_cid = 3, hdr_dst_cid = 2, hdr_src_port = 52,
       hdr_dst_port = 1024, hdr_len = 0, hdr_type = 1, hdr_op = 6, hdr_flags = 0,
       hdr_buf_alloc = 4096, hdr_fwd_cnt = 0\<rparr>"
      "put_conn sim_flow (sim_conn\<lparr>prefetched := [1, 2]\<rparr>) sim_mux" sim_flow
      "sim_conn\<lparr>prefetched := [1, 2]\<rparr>" "[3]" sim_sock "[]" net0]
  by (simp add: sim_conn_def Conn_new_def sim_mux_def sim_flow_def const_defs peer_avail_def
      saturating_sub_def) blast

end
