(* ===== verification/VirtioVsock.thy ===== *)
theory VirtioVsock
  imports VirtioDev VsockMux
begin

text \<open>
  \<^verbatim>\<open>src/devices/virtio_vsock.rs\<close>: the virtio-vsock device. The worker moves packets between
  the guest's queues and the multiplexer. The guest's side of the world, its memory and
  interrupt line, is \<open>'g\<close>; the host's side, its sockets and clock, is \<open>'n\<close>.
\<close>

definition VIRTIO_ID_VSOCK :: u32 where [const_defs]: "VIRTIO_ID_VSOCK = 19"
definition VIRTIO_VSOCK_F_STREAM :: u64 where [const_defs]: "VIRTIO_VSOCK_F_STREAM = 1"
definition QUEUE_RX :: u32 where [const_defs]: "QUEUE_RX = 0"
definition QUEUE_TX :: u32 where [const_defs]: "QUEUE_TX = 1"
definition QUEUE_EVENT :: u32 where [const_defs]: "QUEUE_EVENT = 2"
definition VSOCK_QUEUE_MAX_SIZE :: u16 where [const_defs]: "VSOCK_QUEUE_MAX_SIZE = 256"
definition EVENT_TRANSPORT_RESET :: u32 where [const_defs]: "EVENT_TRANSPORT_RESET = 0"

record 'q VsockState =
  vk_mmio :: "'q VirtioMmio"
  vk_mux :: Mux
  queues_ready :: bool
  need_reset_event :: bool

definition vsock_config :: "'q VsockState \<Rightarrow> bytes" where
  "vsock_config st = le_bytes 8 (mux_guest_cid (vk_mux st))"

definition vsock_copy_config :: "'q VsockState \<Rightarrow> bytes \<Rightarrow> bytes \<times> nat" where
  "vsock_copy_config st dest =
     (let raw = le_bytes 8 (mux_guest_cid (vk_mux st)); n = min (length raw) (length dest)
      in (take n raw @ drop n dest, length raw))"

definition vsock_state_ops :: "('q VsockState, 'q) VirtioState" where
  "vsock_state_ops =
     \<lparr>vs_mmio = vk_mmio, vs_set_mmio = (\<lambda>m st. st\<lparr>vk_mmio := m\<rparr>), vs_copy_config = vsock_copy_config\<rparr>"

interpretation vsock: virtio_state vsock_state_ops vsock_config
  by unfold_locales (auto simp: vsock_state_ops_def vsock_config_def vsock_copy_config_def CONFIG_CAP_def)

definition VirtioVsock_new ::
  "('q, 'c, 'r, 'x, 'g) virtq \<Rightarrow> 'g evfd \<Rightarrow> 'g kvm_wiring \<Rightarrow> 'n sock \<Rightarrow> u64 \<Rightarrow> bytes \<Rightarrow> 'g \<Rightarrow> 'n \<Rightarrow>
   (error, ('q VsockState, 'h) VirtioDev) result \<times> 'g \<times> 'n" where
  "VirtioVsock_new V E K S cid path g n =
     (case Mux_bind S cid path n of
       (Inl e, n) \<Rightarrow> (Inl e, g, n)
     | (Inr mux, n) \<Rightarrow>
         (case
            try_then (VirtioMmio_new V E VIRTIO_VSOCK_MMIO_BASE VIRTIO_ID_VSOCK
                        (VIRTIO_F_VERSION_1 OR VIRTIO_VSOCK_F_STREAM) 3 VSOCK_QUEUE_MAX_SIZE g) (\<lambda>m g.
            try_then (map_err KvmIoctl (register_irq K m VIRTIO_VSOCK_IRQ g)) (\<lambda>_ g.
            try_then (map_err KvmIoctl (register_ioeventfds K m g)) (\<lambda>_ g.
            VirtioDev_new vsock_state_ops E VIRTIO_VSOCK_MMIO_BASE
              \<lparr>vk_mmio = m, vk_mux = mux, queues_ready = False, need_reset_event = False\<rparr> g)))
          of
            (Inl e, g) \<Rightarrow> (Inl e, g, Mux_drop S mux n)
          | (Inr d, g) \<Rightarrow> (Inr d, g, n)))"

section \<open>Starting, stopping and the queues\<close>

definition vsock_start_worker ::
  "'g evfd \<Rightarrow> (EventFd \<Rightarrow> 'g \<Rightarrow> (io_error, 'h, 'g) effect) \<Rightarrow> ('q VsockState, 'h) VirtioDev \<Rightarrow> 'g \<Rightarrow>
   (error, unit) result \<times> ('q VsockState, 'h) VirtioDev \<times> 'g" where
  "vsock_start_worker = start_thread Vsock"

definition vsock_stop_worker ::
  "'g evfd \<Rightarrow> ('h \<Rightarrow> 'g \<Rightarrow> (error, unit) result option \<times> 'g) \<Rightarrow> ('q VsockState, 'h) VirtioDev \<Rightarrow> 'g \<Rightarrow>
   ((error, unit) result \<times> ('q VsockState, 'h) VirtioDev \<times> 'g) option" where
  "vsock_stop_worker = stop_thread (Vsock (Msg ''virtio-vsock worker panicked''))"

definition transport_up :: "('q, 'c, 'r, 'x, 'g) virtq \<Rightarrow> 'q VsockState \<Rightarrow> bool" where
  "transport_up V st \<longleftrightarrow>
     queue_is_ready V (vk_mmio st) QUEUE_RX \<and> queue_is_ready V (vk_mmio st) QUEUE_TX"

text \<open>
  The opening of the three queue loops: no chain when the queue is missing, not ready or
  empty.
\<close>

definition pop_chain ::
  "('q, 'c, 'r, 'x, 'g) virtq \<Rightarrow> u32 \<Rightarrow> 'q VsockState \<Rightarrow> 'g \<Rightarrow> 'c option \<times> 'q VsockState \<times> 'g" where
  "pop_chain V i st g =
     (if \<not> queue_is_ready V (vk_mmio st) i then (None, st, g)
      else case mmio_pop V i (vk_mmio st) g of (c, m, g) \<Rightarrow> (c, st\<lparr>vk_mmio := m\<rparr>, g))"

definition add_used ::
  "('q, 'c, 'r, 'x, 'g) virtq \<Rightarrow> u32 \<Rightarrow> u16 \<Rightarrow> u32 \<Rightarrow> 'q VsockState \<Rightarrow> 'g \<Rightarrow>
   (error, unit) result \<times> 'q VsockState \<times> 'g" where
  "add_used V i head len st g =
     (case mmio_add_used V Vsock ''missing virtqueue'' i head len (vk_mmio st) g of
       (r, m, g) \<Rightarrow> (r, st\<lparr>vk_mmio := m\<rparr>, g))"

section \<open>From the guest\<close>

text \<open>
  One chain of the transmit queue: the packet it holds goes to the multiplexer. The result
  is the used length to report, and the changed multiplexer and host.
\<close>

definition tx_packet ::
  "('q, 'c, 'r, 'x, 'g) virtq \<Rightarrow> 'n sock \<Rightarrow> 'r \<Rightarrow> Mux \<Rightarrow> 'g \<Rightarrow> 'n \<Rightarrow> (u32 \<times> Mux \<times> 'g \<times> 'n) option" where
  "tx_packet V S rd mux g n =
     (case r_read_exact V HDR_LEN rd g of
       (Inl _, rd, g) \<Rightarrow> Some (0, mux, g, n)
     | (Inr raw, rd, g) \<Rightarrow>
         (let hdr = Header_parse raw; len = unat (hdr_len hdr)
          in if len > 64 * 1024 then
               (case reset_flow S (hdr_src_port hdr) (hdr_dst_port hdr) mux n of (mux, n) \<Rightarrow> Some (0, mux, g, n))
             else
               (case (if len > 0 then r_read_exact V len rd g else (Inr [], rd, g)) of
                 (Inl _, rd, g) \<Rightarrow>
                   (case reset_flow S (hdr_src_port hdr) (hdr_dst_port hdr) mux n of
                     (mux, n) \<Rightarrow> Some (0, mux, g, n))
               | (Inr data, rd, g) \<Rightarrow> do {
                   (mux, n) \<leftarrow> handle_guest_pkt S hdr data mux n;
                   Some (of_nat (HDR_LEN + len), mux, g, n)
                 })))"

partial_function (option) pull_tx ::
  "('q, 'c, 'r, 'x, 'g) virtq \<Rightarrow> 'n sock \<Rightarrow> bool \<Rightarrow> 'q VsockState \<Rightarrow> 'g \<Rightarrow> 'n \<Rightarrow>
   ((error, bool) result \<times> 'q VsockState \<times> 'g \<times> 'n) option" where
  "pull_tx V S used st g n =
     (case pop_chain V QUEUE_TX st g of
       (None, st, g) \<Rightarrow> Some (Inr used, st, g, n)
     | (Some c, st, g) \<Rightarrow>
         (case reader_new V c g of
           Inl t \<Rightarrow> Some (Inl (Vsock (MsgExt (''tx chain: '' @ t))), st, g, n)
         | Inr rd \<Rightarrow> do {
             (len, mux, g, n) \<leftarrow> tx_packet V S rd (vk_mux st) g n;
             case add_used V QUEUE_TX (c_head V c) len (st\<lparr>vk_mux := mux\<rparr>) g of
               (Inl e, st, g) \<Rightarrow> Some (Inl e, st, g, n)
             | (Inr _, st, g) \<Rightarrow> pull_tx V S True st g n
           }))"

section \<open>To the guest\<close>

text \<open>
  One packet into one chain of the receive queue: what is written, and what goes back to the
  front of the multiplexer's queue. \<open>rx_split\<close> is the part of the data that fits.
\<close>

definition rx_split :: "OutPkt \<Rightarrow> nat \<Rightarrow> OutPkt \<times> OutPkt option" where
  "rx_split pkt space =
     (let n = min (length (pkt_data pkt)) space;
          sent = pkt\<lparr>pkt_data := take n (pkt_data pkt)\<rparr>
      in (sent, if n < length (pkt_data pkt) then Some (pkt\<lparr>pkt_data := drop n (pkt_data pkt)\<rparr>) else None))"

definition rx_write ::
  "('q, 'c, 'r, 'x, 'g) virtq \<Rightarrow> 'x \<Rightarrow> bytes \<Rightarrow> bytes \<Rightarrow> 'g \<Rightarrow> bool \<times> 'g" where
  "rx_write V wr raw data g =
     (case x_write_all V raw wr g of
       (Inl _, wr, g) \<Rightarrow> (False, g)
     | (Inr _, wr, g) \<Rightarrow>
         if data = [] then (True, g)
         else (case x_write_all V data wr g of
                (Inl _, wr, g) \<Rightarrow> (False, g) | (Inr _, wr, g) \<Rightarrow> (True, g)))"

text \<open>
  A turn of the loop of \<^verbatim>\<open>push_rx\<close> for a chain with a writer: the used length, whether the
  loop goes on, and the multiplexer afterwards.
\<close>

definition rx_packet ::
  "('q, 'c, 'r, 'x, 'g) virtq \<Rightarrow> 'x \<Rightarrow> Mux \<Rightarrow> 'g \<Rightarrow> u32 \<times> bool \<times> Mux \<times> 'g" where
  "rx_packet V wr mux g =
     (case pop_out mux of
       (None, mux) \<Rightarrow> (0, False, mux, g)
     | (Some pkt, mux) \<Rightarrow>
         (let avail = x_avail V wr
          in if avail < HDR_LEN then (0, False, push_front_out pkt mux, g)
             else
               (let space = avail - HDR_LEN
                in if pkt_op pkt \<noteq> OP_RW \<and> space < length (pkt_data pkt)
                   then (0, False, push_front_out pkt mux, g)
                   else
                     (let (sent, rest) = rx_split pkt space;
                          (ba, fc) = credit_of mux (pkt_flow pkt);
                          raw = OutPkt_header sent (mux_guest_cid mux) ba fc
                      in case rx_write V wr raw (pkt_data sent) g of
                           (False, g) \<Rightarrow> (0, False, push_front_out sent mux, g)
                         | (True, g) \<Rightarrow>
                             (of_nat (HDR_LEN + length (pkt_data sent)), True,
                              (case rest of None \<Rightarrow> mux | Some p \<Rightarrow> push_front_out p mux), g)))))"

partial_function (option) push_rx ::
  "('q, 'c, 'r, 'x, 'g) virtq \<Rightarrow> bool \<Rightarrow> 'q VsockState \<Rightarrow> 'g \<Rightarrow>
   ((error, bool) result \<times> 'q VsockState \<times> 'g) option" where
  "push_rx V used st g =
     (if \<not> has_out (vk_mux st) then Some (Inr used, st, g)
      else case pop_chain V QUEUE_RX st g of
        (None, st, g) \<Rightarrow> Some (Inr used, st, g)
      | (Some c, st, g) \<Rightarrow>
          (case writer_new V c g of
            Inl t \<Rightarrow> Some (Inl (Vsock (MsgExt (''rx chain: '' @ t))), st, g)
          | Inr wr \<Rightarrow>
              (case rx_packet V wr (vk_mux st) g of
                (len, again, mux, g) \<Rightarrow>
                  (case add_used V QUEUE_RX (c_head V c) len (st\<lparr>vk_mux := mux\<rparr>) g of
                    (Inl e, st, g) \<Rightarrow> Some (Inl e, st, g)
                  | (Inr _, st, g) \<Rightarrow>
                      if again then push_rx V True st g else Some (Inr True, st, g)))))"

definition push_reset_event ::
  "('q, 'c, 'r, 'x, 'g) virtq \<Rightarrow> 'q VsockState \<Rightarrow> 'g \<Rightarrow> (error, bool) result \<times> 'q VsockState \<times> 'g" where
  "push_reset_event V st g =
     (case pop_chain V QUEUE_EVENT st g of
       (None, st, g) \<Rightarrow> (Inr False, st, g)
     | (Some c, st, g) \<Rightarrow>
         (case writer_new V c g of
           Inl t \<Rightarrow> (Inl (Vsock (MsgExt (''event chain: '' @ t))), st, g)
         | Inr wr \<Rightarrow>
             if x_avail V wr < 4 then
               (case add_used V QUEUE_EVENT (c_head V c) 0 st g of
                 (Inl e, st, g) \<Rightarrow> (Inl e, st, g) | (Inr _, st, g) \<Rightarrow> (Inr True, st, g))
             else
               (case x_write_all V (le_bytes 4 EVENT_TRANSPORT_RESET) wr g of
                 (Inl e, wr, g) \<Rightarrow> (Inl (Vsock (MsgIo ''event write: '' e)), st, g)
               | (Inr _, wr, g) \<Rightarrow>
                   (case add_used V QUEUE_EVENT (c_head V c) 4 st g of
                     (Inl e, st, g) \<Rightarrow> (Inl e, st, g) | (Inr _, st, g) \<Rightarrow> (Inr True, st, g)))))"

section \<open>The worker\<close>

definition note_transport ::
  "('q, 'c, 'r, 'x, 'g) virtq \<Rightarrow> 'n sock \<Rightarrow> 'q VsockState \<Rightarrow> 'n \<Rightarrow> 'q VsockState \<times> 'n" where
  "note_transport V S st n =
     (let up = transport_up V st
      in if queues_ready st \<and> \<not> up then
           (case kill_connections S (vk_mux st) n of
             (mux, n) \<Rightarrow> (st\<lparr>queues_ready := False, need_reset_event := True, vk_mux := mux\<rparr>, n))
         else if up \<and> \<not> queues_ready st then (st\<lparr>queues_ready := True\<rparr>, n)
         else (st, n))"

definition drive ::
  "('q, 'c, 'r, 'x, 'g) virtq \<Rightarrow> 'g evfd \<Rightarrow> 'n sock \<Rightarrow> 'q VsockState \<Rightarrow> 'g \<Rightarrow> 'n \<Rightarrow>
   ((error, unit) result \<times> 'q VsockState \<times> 'g \<times> 'n) option" where
  "drive V E S st g n =
     (let up = transport_up V st; (st, n) = note_transport V S st n
      in if \<not> up then Some (Inr (), st, g, n)
         else do {
           (r, st, g, n) \<leftarrow> pull_tx V S False st g n;
           case r of Inl e \<Rightarrow> Some (Inl e, st, g, n) | Inr used \<Rightarrow> do {
           (r, st, g) \<leftarrow> push_rx V False st g;
           case r of Inl e \<Rightarrow> Some (Inl e, st, g, n) | Inr pushed \<Rightarrow>
           (let used = (used \<or> pushed)
            in case (if need_reset_event st then push_reset_event V st g else (Inr False, st, g)) of
                 (Inl e, st, g) \<Rightarrow> Some (Inl e, st, g, n)
               | (Inr sent, st, g) \<Rightarrow>
                   (let st = (if sent then st\<lparr>need_reset_event := False\<rparr> else st);
                        used = (used \<or> sent)
                    in if used then
                         (case signal_used_queue E (vk_mmio st) g of
                           (r, m, g) \<Rightarrow> Some (r, st\<lparr>vk_mmio := m\<rparr>, g, n))
                       else Some (Inr (), st, g, n))) } })"

text \<open>The sockets \<^verbatim>\<open>poll\<close> reported, with their events.\<close>

fun on_fds :: "'n sock \<Rightarrow> (int \<times> u16) list \<Rightarrow> Mux \<Rightarrow> 'n \<Rightarrow> (Mux \<times> 'n) option" where
  "on_fds S [] mux n = Some (mux, n)"
| "on_fds S ((fd, revents) # pfds) mux n =
     (if revents \<noteq> 0 then do { (mux, n) \<leftarrow> on_fd S fd revents mux n; on_fds S pfds mux n }
      else on_fds S pfds mux n)"

text \<open>
  A turn of \<^verbatim>\<open>worker_loop\<close>: poll the kick and the sockets, clear the kick, handle the socket
  events and the timeouts, drive the queues. \<open>poll\<close> gives the events of each descriptor.
  An interrupted poll and an error of \<open>drive\<close>, which is printed, let the loop go on
  (\<open>None\<close>); another error of poll ends it. The state is locked from the end of the poll on;
  the register writes of the guest, which come between two turns, leave the multiplexer
  alone.
\<close>

definition worker_turn ::
  "('q, 'c, 'r, 'x, 'g) virtq \<Rightarrow> 'g evfd \<Rightarrow> 'n sock \<Rightarrow>
   ((int \<times> u16) list \<Rightarrow> 'n \<Rightarrow> (int, u16 list, 'n) effect) \<Rightarrow> EventFd \<Rightarrow> 'q VsockState \<Rightarrow> 'g \<Rightarrow> 'n \<Rightarrow>
   (error option \<times> 'q VsockState \<times> 'g \<times> 'n) option" where
  "worker_turn V E S poll kick st g n =
     (let fds = (kick, POLLIN) # interests (vk_mux st)
      in case poll fds n of
           (Inl e, n) \<Rightarrow>
             Some (if e = EINTR then None else Some (Vsock (MsgIo ''poll: '' (Os e))), st, g, n)
         | (Inr revents, n) \<Rightarrow>
             (let g = (if revents \<noteq> [] \<and> hd revents \<noteq> 0 then snd (ev_read E kick g) else g)
              in do {
                (mux, n) \<leftarrow> on_fds S (zip (map fst (tl fds)) (tl revents)) (vk_mux st) n;
                (case sk_now S n of (now, n) \<Rightarrow>
                  (case check_timeouts S now mux n of (mux, n) \<Rightarrow> do {
                    (r, st, g, n) \<leftarrow> drive V E S (st\<lparr>vk_mux := mux\<rparr>) g n;
                    Some (None, st, g, n)
                  }))
              }))"

end
