(* ===== verification/VirtioVsockProps.thy ===== *)
theory VirtioVsockProps
  imports VirtioVsock VsockMuxReturn
begin

text \<open>
  Properties of the virtio-vsock device: every descriptor chain it takes is given back and
  announced, the packets it writes carry each stream complete and in order, and whatever the
  guest and the host do, its multiplexer stays in the states of \<open>VsockMuxInv\<close>.
\<close>

section \<open>Chains taken and returned\<close>

lemma pop_chain_log:
  assumes "queue_log V tk rt" and "pop_chain V i st g = (r, st', g')"
  shows "tk g' = tk g @ (case r of None \<Rightarrow> [] | Some c \<Rightarrow> [c_head V c])" and "rt g' = rt g"
    and "same_irq (vk_mmio st) (vk_mmio st')"
  using assms(2)
  by (auto simp: pop_chain_def mmio_pop_log [OF assms(1)] split: if_splits prod.splits)

lemma add_used_log:
  assumes "queue_log V tk rt" and "add_used V i h len st g = (r, st', g')"
  shows "rt g' = rt g @ (case r of Inl _ \<Rightarrow> [] | Inr _ \<Rightarrow> [h])" and "tk g' = tk g"
    and "same_irq (vk_mmio st) (vk_mmio st')"
  using assms(2) by (auto simp: add_used_def mmio_add_used_log [OF assms(1)] split: prod.splits)

lemma tx_packet_log:
  assumes "queue_log V tk rt" and "tx_packet V S rd mux g n = Some (len, mux', g', n')"
  shows "tk g' = tk g \<and> rt g' = rt g"
  using assms(2)
  by (auto simp: tx_packet_def Let_def read_exact_log [OF assms(1)] bind_eq_Some_conv
      split: sum.splits prod.splits if_splits)

lemma rx_write_log:
  assumes "queue_log V tk rt" and "rx_write V x raw data g = (b, g')"
  shows "tk g' = tk g" and "rt g' = rt g"
  using assms(2) by (auto simp: rx_write_def write_all_log [OF assms(1)] split: sum.splits prod.splits if_splits)

lemma rx_packet_log:
  assumes "queue_log V tk rt" and "rx_packet V x mux g = (len, again, mux', g')"
  shows "tk g' = tk g" and "rt g' = rt g"
  using assms(2)
  by (auto simp: rx_packet_def Let_def rx_write_log [OF assms(1)]
      split: option.splits prod.splits if_splits bool.splits)

text \<open>Induction over the turns of \<open>pull_tx\<close>.\<close>

lemma pull_tx_turns [consumes 1, case_names no_chain bad_chain bad_used handled]:
  assumes "pull_tx V S u st g n = Some y"
    and no_chain: "\<And>u st g n st1 g1. pop_chain V QUEUE_TX st g = (None, st1, g1) \<Longrightarrow>
      P u st g n (Inr u, st1, g1, n)"
    and bad_chain: "\<And>u st g n c st1 g1 t. pop_chain V QUEUE_TX st g = (Some c, st1, g1) \<Longrightarrow>
      P u st g n (Inl (Vsock (MsgExt (''tx chain: '' @ t))), st1, g1, n)"
    and bad_used: "\<And>u st g n c st1 g1 rd len mux g2 n2 e st3 g3.
      pop_chain V QUEUE_TX st g = (Some c, st1, g1) \<Longrightarrow>
      tx_packet V S rd (vk_mux st1) g1 n = Some (len, mux, g2, n2) \<Longrightarrow>
      add_used V QUEUE_TX (c_head V c) len (st1\<lparr>vk_mux := mux\<rparr>) g2 = (Inl e, st3, g3) \<Longrightarrow>
      P u st g n (Inl e, st3, g3, n2)"
    and handled: "\<And>u st g n c st1 g1 rd len mux g2 n2 st3 g3 y.
      pop_chain V QUEUE_TX st g = (Some c, st1, g1) \<Longrightarrow>
      tx_packet V S rd (vk_mux st1) g1 n = Some (len, mux, g2, n2) \<Longrightarrow>
      add_used V QUEUE_TX (c_head V c) len (st1\<lparr>vk_mux := mux\<rparr>) g2 = (Inr (), st3, g3) \<Longrightarrow>
      P True st3 g3 n2 y \<Longrightarrow> P u st g n y"
  shows "P u st g n y"
  using assms
proof (induction rule: pull_tx.raw_induct [rotated, consumes 1, case_names step])
  case (step rec V S used st g n y)
  obtain c st1 g1 where p: "pop_chain V QUEUE_TX st g = (c, st1, g1)" by (metis prod_cases3)
  show ?case
  proof (cases c)
    case None
    with p step.hyps step.prems(1) show ?thesis by auto
  next
    case (Some ch)
    show ?thesis
    proof (cases "reader_new V ch g1")
      case (Inl t)
      with Some p step.hyps step.prems(2) show ?thesis by auto
    next
      case (Inr rd)
      with Some p step.hyps obtain len mux g2 n2
        where t: "tx_packet V S rd (vk_mux st1) g1 n = Some (len, mux, g2, n2)"
        by (auto simp: bind_eq_Some_conv)
      obtain r st3 g3 where a: "add_used V QUEUE_TX (c_head V ch) len (st1\<lparr>vk_mux := mux\<rparr>) g2 = (r, st3, g3)"
        by (metis prod_cases3)
      from Some p Inr t a step.hyps
      have "(case r of Inl e \<Rightarrow> Some (Inl e, st3, g3, n2) | Inr _ \<Rightarrow> rec V S True st3 g3 n2) = Some y"
        by (cases r) auto
      with step.IH [of V S True st3 g3 n2 y] step.prems Some p t a show ?thesis by (cases r) auto
    qed
  qed
qed

lemma pull_tx_returns:
  assumes "pull_tx V S u st g n = Some y" and "queue_log V tk rt"
  shows "\<forall>b. fst y = Inr b \<longrightarrow> (\<exists>hs. returns_all tk rt g (fst (snd (snd y))) hs \<and> (b \<longleftrightarrow> u \<or> hs \<noteq> []) \<and>
    same_irq (vk_mmio st) (vk_mmio (fst (snd y))))"
  using assms(1)
proof (induction rule: pull_tx_turns)
  case (no_chain u st g n st1 g1)
  with pop_chain_log [OF assms(2) no_chain(1)] show ?case by (auto simp: returns_all_def)
next
  case (handled u st g n c st1 g1 rd len mux g2 n2 st3 g3 y)
  from pop_chain_log [OF assms(2) handled(1)] tx_packet_log [OF assms(2) handled(2)]
    add_used_log [OF assms(2) handled(3)]
  have "returns_all tk rt g g3 [c_head V c]" "same_irq (vk_mmio st) (vk_mmio st3)"
    by (auto simp: returns_all_def)
  with handled(4) show ?case by (auto intro: returns_all_trans)
qed auto

text \<open>
  Induction over the turns of \<open>push_rx\<close>: the loop stops without a packet or a chain, on a chain
  it cannot write, on a used ring it cannot write, or on a packet it cannot place; otherwise
  it goes on.
\<close>

lemma push_rx_turns [consumes 1, case_names empty no_chain bad_chain bad_used unplaced placed]:
  assumes "push_rx V u st g = Some y"
    and empty: "\<And>u st g. \<not> has_out (vk_mux st) \<Longrightarrow> P u st g (Inr u, st, g)"
    and no_chain: "\<And>u st g st1 g1. has_out (vk_mux st) \<Longrightarrow> pop_chain V QUEUE_RX st g = (None, st1, g1) \<Longrightarrow>
      P u st g (Inr u, st1, g1)"
    and bad_chain: "\<And>u st g c st1 g1 t. has_out (vk_mux st) \<Longrightarrow> pop_chain V QUEUE_RX st g = (Some c, st1, g1) \<Longrightarrow>
      P u st g (Inl (Vsock (MsgExt (''rx chain: '' @ t))), st1, g1)"
    and bad_used: "\<And>u st g c st1 g1 x len again mux g2 e st3 g3.
      has_out (vk_mux st) \<Longrightarrow> pop_chain V QUEUE_RX st g = (Some c, st1, g1) \<Longrightarrow>
      rx_packet V x (vk_mux st1) g1 = (len, again, mux, g2) \<Longrightarrow>
      add_used V QUEUE_RX (c_head V c) len (st1\<lparr>vk_mux := mux\<rparr>) g2 = (Inl e, st3, g3) \<Longrightarrow>
      P u st g (Inl e, st3, g3)"
    and unplaced: "\<And>u st g c st1 g1 x len mux g2 st3 g3.
      has_out (vk_mux st) \<Longrightarrow> pop_chain V QUEUE_RX st g = (Some c, st1, g1) \<Longrightarrow>
      rx_packet V x (vk_mux st1) g1 = (len, False, mux, g2) \<Longrightarrow>
      add_used V QUEUE_RX (c_head V c) len (st1\<lparr>vk_mux := mux\<rparr>) g2 = (Inr (), st3, g3) \<Longrightarrow>
      P u st g (Inr True, st3, g3)"
    and placed: "\<And>u st g c st1 g1 x len mux g2 st3 g3 y.
      has_out (vk_mux st) \<Longrightarrow> pop_chain V QUEUE_RX st g = (Some c, st1, g1) \<Longrightarrow>
      rx_packet V x (vk_mux st1) g1 = (len, True, mux, g2) \<Longrightarrow>
      add_used V QUEUE_RX (c_head V c) len (st1\<lparr>vk_mux := mux\<rparr>) g2 = (Inr (), st3, g3) \<Longrightarrow>
      P True st3 g3 y \<Longrightarrow> P u st g y"
  shows "P u st g y"
  using assms
proof (induction rule: push_rx.raw_induct [rotated, consumes 1, case_names step])
  case (step rec V used st g y)
  obtain c st1 g1 where p: "pop_chain V QUEUE_RX st g = (c, st1, g1)" by (metis prod_cases3)
  show ?case
  proof (cases "\<not> has_out (vk_mux st) \<or> c = None")
    case True
    with p step.hyps step.prems(1,2) show ?thesis by (auto split: if_splits)
  next
    case False
    then obtain ch where ch: "has_out (vk_mux st)" "c = Some ch" by auto
    show ?thesis
    proof (cases "writer_new V ch g1")
      case (Inl t)
      with ch p step.hyps step.prems(3) show ?thesis by auto
    next
      case (Inr x)
      obtain len again mux g2 where t: "rx_packet V x (vk_mux st1) g1 = (len, again, mux, g2)"
        by (metis prod_cases4)
      obtain r st3 g3 where a: "add_used V QUEUE_RX (c_head V ch) len (st1\<lparr>vk_mux := mux\<rparr>) g2 = (r, st3, g3)"
        by (metis prod_cases3)
      from ch p Inr t a step.hyps have "(case r of Inl e \<Rightarrow> Some (Inl e, st3, g3)
          | Inr _ \<Rightarrow> if again then rec V True st3 g3 else Some (Inr True, st3, g3)) = Some y"
        by (cases r) auto
      with step.IH [of V True st3 g3 y] step.prems ch p t a show ?thesis
        by (cases r; cases again) auto
    qed
  qed
qed

lemma push_rx_returns:
  assumes "push_rx V u st g = Some y" and "queue_log V tk rt"
  shows "\<forall>b. fst y = Inr b \<longrightarrow> (\<exists>hs. returns_all tk rt g (snd (snd y)) hs \<and> (b \<longleftrightarrow> u \<or> hs \<noteq> []) \<and>
    same_irq (vk_mmio st) (vk_mmio (fst (snd y))))"
  using assms(1)
proof (induction rule: push_rx_turns)
  case (no_chain u st g st1 g1)
  with pop_chain_log [OF assms(2) no_chain(2)] show ?case by (auto simp: returns_all_def)
next
  case (unplaced u st g c st1 g1 x len mux g2 st3 g3)
  with pop_chain_log [OF assms(2) unplaced(2)] rx_packet_log [OF assms(2) unplaced(3)]
    add_used_log [OF assms(2) unplaced(4)] show ?case
    by (auto simp: returns_all_def intro!: exI [of _ "[c_head V c]"])
next
  case (placed u st g c st1 g1 x len mux g2 st3 g3 y)
  from pop_chain_log [OF assms(2) placed(2)] rx_packet_log [OF assms(2) placed(3)]
    add_used_log [OF assms(2) placed(4)]
  have "returns_all tk rt g g3 [c_head V c]" "same_irq (vk_mmio st) (vk_mmio st3)"
    by (auto simp: returns_all_def)
  with placed(5) show ?case by (auto intro: returns_all_trans)
qed auto

lemma push_reset_event_returns:
  assumes "queue_log V tk rt" and "push_reset_event V st g = (Inr b, st', g')"
  shows "\<exists>hs. returns_all tk rt g g' hs \<and> (b \<longleftrightarrow> hs \<noteq> []) \<and>
    same_irq (vk_mmio st) (vk_mmio st')"
proof -
  obtain c st1 g1 where p: "pop_chain V QUEUE_EVENT st g = (c, st1, g1)" by (metis prod_cases3)
  note lp = pop_chain_log [OF assms(1) p]
  show ?thesis
  proof (cases c)
    case None
    with assms(2) p lp show ?thesis
      by (auto simp: push_reset_event_def returns_all_def intro!: exI [of _ "[]"])
  next
    case (Some ch)
    have "returns_all tk rt g g' [c_head V ch] \<and> b \<and> same_irq (vk_mmio st) (vk_mmio st')"
      using assms(2) p lp Some
      by (auto simp: push_reset_event_def returns_all_def add_used_log [OF assms(1)] write_all_log [OF assms(1)]
          split: sum.splits if_splits prod.splits)
    then show ?thesis by auto
  qed
qed

lemma note_transport_mmio: "note_transport V S st n = (st0, n0) \<Longrightarrow> vk_mmio st0 = vk_mmio st"
  by (auto simp: note_transport_def Let_def split: prod.splits if_splits)

text \<open>The three phases of a round that ends well, and the interrupt after them.\<close>

lemma drive_upE:
  assumes "drive V E S st g n = Some (Inr (), st', g', n')" and "transport_up V st"
    and "note_transport V S st n = (st0, n0)"
  obtains u1 st1 g1 u2 st2 g2 u3 st3 g3
  where "pull_tx V S False st0 g n0 = Some (Inr u1, st1, g1, n')"
    and "push_rx V False st1 g1 = Some (Inr u2, st2, g2)"
    and "(if need_reset_event st2 then push_reset_event V st2 g2 else (Inr False, st2, g2)) = (Inr u3, st3, g3)"
    and "if u1 \<or> u2 \<or> u3 then signal_used_queue E (vk_mmio st3) g3 = (Inr (), vk_mmio st', g')
         else vk_mmio st' = vk_mmio st3 \<and> g' = g3"
    and "vk_mux st' = vk_mux st3"
proof -
  from assms obtain r1 st1 g1 n1 where 1: "pull_tx V S False st0 g n0 = Some (r1, st1, g1, n1)"
    by (auto simp: drive_def Let_def bind_eq_Some_conv)
  with assms obtain u1 where u1: "r1 = Inr u1" by (cases r1) (auto simp: drive_def Let_def)
  with 1 assms obtain r2 st2 g2 where 2: "push_rx V False st1 g1 = Some (r2, st2, g2)"
    by (auto simp: drive_def Let_def bind_eq_Some_conv)
  with 1 u1 assms obtain u2 where u2: "r2 = Inr u2" by (cases r2) (auto simp: drive_def Let_def)
  obtain r3 st3 g3 where 3: "(if need_reset_event st2 then push_reset_event V st2 g2
      else (Inr False, st2, g2)) = (r3, st3, g3)"
    by (metis prod_cases3)
  from 1 2 3 u1 u2 assms obtain u3 where u3: "r3 = Inr u3" by (cases r3) (auto simp: drive_def Let_def)
  show thesis
    by (rule that [of u1 st1 g1 u2 st2 g2 u3 st3 g3])
      (use 1 2 3 u1 u2 u3 assms in \<open>auto simp: drive_def Let_def split: prod.splits if_splits\<close>)
qed

text \<open>
  C7. A round of the vsock worker that ends without an error gives back to the guest every
  descriptor chain it took from the three queues, each exactly once and in the order taken.
  If it gave any back, it set the interrupt bit and signalled the interrupt line after the
  last one; if it gave none back, it left the interrupt status alone.
\<close>

theorem drive_returns_chains:
  assumes log: "queue_log V tk rt"
    and ev: "event_log E tk rt"
    and run: "drive V E S st g n = Some (Inr (), st', g', n')"
  shows "\<exists>hs. tk g' = tk g @ hs \<and> rt g' = rt g @ hs \<and>
    (if hs = [] then interrupt_status (vk_mmio st') = interrupt_status (vk_mmio st)
     else bit (interrupt_status (vk_mmio st')) 0 \<and>
       (\<exists>g2. rt g2 = rt g @ hs \<and> ev_write E (irq_fd (vk_mmio st)) 1 g2 = (Inr (), g')))"
proof -
  obtain st0 n0 where nt: "note_transport V S st n = (st0, n0)" by fastforce
  note m0 = note_transport_mmio [OF nt]
  show ?thesis
  proof (cases "transport_up V st")
    case False
    with run nt m0 show ?thesis by (auto simp: drive_def Let_def intro!: exI [of _ "[]"])
  next
    case True
    from drive_upE [OF run True nt] obtain u1 st1 g1 u2 st2 g2 u3 st3 g3 where
      d: "pull_tx V S False st0 g n0 = Some (Inr u1, st1, g1, n')"
      "push_rx V False st1 g1 = Some (Inr u2, st2, g2)"
      "(if need_reset_event st2 then push_reset_event V st2 g2 else (Inr False, st2, g2)) = (Inr u3, st3, g3)"
      and irq: "if u1 \<or> u2 \<or> u3 then signal_used_queue E (vk_mmio st3) g3 = (Inr (), vk_mmio st', g')
         else vk_mmio st' = vk_mmio st3 \<and> g' = g3"
      by metis
    from pull_tx_returns [OF d(1) log] obtain h1 where h1: "returns_all tk rt g g1 h1" "u1 \<longleftrightarrow> h1 \<noteq> []"
      "same_irq (vk_mmio st) (vk_mmio st1)" using m0 by auto
    from push_rx_returns [OF d(2) log] obtain h2 where h2: "returns_all tk rt g1 g2 h2" "u2 \<longleftrightarrow> h2 \<noteq> []"
      "same_irq (vk_mmio st1) (vk_mmio st2)" by auto
    from d(3) push_reset_event_returns [OF log, of st2 g2 u3 st3 g3] obtain h3 where h3:
      "returns_all tk rt g2 g3 h3" "u3 \<longleftrightarrow> h3 \<noteq> []" "same_irq (vk_mmio st2) (vk_mmio st3)"
      by (auto split: if_splits)
    let ?hs = "h1 @ h2 @ h3"
    have hs: "returns_all tk rt g g3 ?hs" and same: "same_irq (vk_mmio st) (vk_mmio st3)"
      using h1 h2 h3 by (auto simp: returns_all_def)
    show ?thesis
    proof (cases "?hs = []")
      case True
      with irq h1(2) h2(2) h3(2) hs same show ?thesis by (auto simp: returns_all_def intro!: exI [of _ "[]"])
    next
      case False
      with irq h1(2) h2(2) h3(2) have "signal_used_queue E (vk_mmio st3) g3 = (Inr (), vk_mmio st', g')" by auto
      from signal_used_spec [OF this] ev hs same False show ?thesis
        by (intro exI [of _ ?hs]) (auto simp: returns_all_def event_log_def)
    qed
  qed
qed

text \<open>A device with its two stream queues enabled and one short transmit chain.\<close>

definition sim_rings :: "sim_queue VirtioMmio" where
  "sim_rings = sim_mmio\<lparr>queues := replicate 3 \<lparr>sq_max = 8, sq_size = 8, sq_ready = True, sq_desc = (Some 4096, None)\<rparr>\<rparr>"

definition sim_vsock :: "sim_queue VsockState" where
  "sim_vsock = \<lparr>vk_mmio = sim_rings, vk_mux = sim_mux, queues_ready = True, need_reset_event = False\<rparr>"

definition sim_short :: sim_world where
  "sim_short = sim_start\<lparr>sim_avail := [\<lparr>sc_head = 5, sc_in = [1, 2, 3], sc_room = 0\<rparr>]\<rparr>"

definition sim_host :: net where
  "sim_host = \<lparr>net_tx = (\<lambda>_. []), net_rx = (\<lambda>_. []), net_room = 0, net_backlog = [], net_next = 3, net_now = 0\<rparr>"

declare pull_tx.simps [code] push_rx.simps [code]

lemma sim_short_drive:
  "case drive sim_virtq sim_evfd sim_sock sim_vsock sim_short sim_host of
     Some (r, _, g', _) \<Rightarrow> r = Inr () \<and> map fst (sim_used g') = [5] | _ \<Rightarrow> False"
  by code_simp

theorem drive_returns_chains_witness:
  "\<exists>st' g' n'. drive sim_virtq sim_evfd sim_sock sim_vsock sim_short sim_host = Some (Inr (), st', g', n') \<and>
     sim_taken g' = [5] \<and> bit (interrupt_status (vk_mmio st')) 0"
proof -
  from sim_short_drive obtain st' g' n' where
    run: "drive sim_virtq sim_evfd sim_sock sim_vsock sim_short sim_host = Some (Inr (), st', g', n')"
    and used: "map fst (sim_used g') = [5]"
    by (auto split: option.splits)
  from drive_returns_chains [OF sim_queue_log sim_event_log run] used run show ?thesis
    by (auto simp: sim_short_def sim_start_def split: if_splits)
qed

section \<open>Packets written to the guest\<close>

text \<open>
  The bytes of a packet as the guest reads them, with the credit of its connection, and the
  payload of a flow in a list of packets.
\<close>

definition frame :: "Mux \<Rightarrow> OutPkt \<Rightarrow> bytes" where
  "frame mux p = OutPkt_header p (mux_guest_cid mux) (fst (credit_of mux (pkt_flow p)))
     (snd (credit_of mux (pkt_flow p))) @ pkt_data p"

definition payload :: "Flow \<Rightarrow> OutPkt list \<Rightarrow> bytes" where
  "payload f ps = concat (map pkt_data (filter (\<lambda>p. pkt_op p = OP_RW \<and> pkt_flow p = f) ps))"

definition same_conns :: "Mux \<Rightarrow> Mux \<Rightarrow> bool" where
  "same_conns m m' \<longleftrightarrow> conns m' = conns m \<and> mux_guest_cid m' = mux_guest_cid m"

lemma frame_same: "same_conns m m' \<Longrightarrow> frame m' = frame m"
  by (auto simp: same_conns_def frame_def credit_of_def get_conn_def)

lemma payload_append [simp]: "payload f (ps @ qs) = payload f ps @ payload f qs"
  by (simp add: payload_def)

lemma length_header [simp]: "length (OutPkt_header p cid ba fc) = HDR_LEN"
  by (simp add: OutPkt_header_def HDR_LEN_def)

text \<open>
  \<open>delivered m ps m'\<close>: the packets \<open>ps\<close> went from the queues of \<open>m\<close> to the guest and left
  \<open>m'\<close>. Control packets go whole; data packets may be split, but keep their stream.
\<close>

definition delivered :: "Mux \<Rightarrow> OutPkt list \<Rightarrow> Mux \<Rightarrow> bool" where
  "delivered m ps m' \<longleftrightarrow> same_conns m m' \<and>
     filter (\<lambda>p. pkt_op p \<noteq> OP_RW) ps @ out_ctrl m' = out_ctrl m \<and>
     (\<forall>f. payload f ps @ payload f (out_data m') = payload f (out_data m))"

lemma delivered_refl [simp]: "delivered m [] m"
  by (simp add: delivered_def same_conns_def payload_def)

lemma delivered_trans: "delivered m ps m' \<Longrightarrow> delivered m' qs m'' \<Longrightarrow> delivered m (ps @ qs) m''"
  by (auto simp: delivered_def same_conns_def)

lemma rx_write_ok:
  assumes "writer_law V wr" and "length raw + length data \<le> x_avail V x"
  shows "\<exists>g'. rx_write V x raw data g = (True, g') \<and> wr g' = wr g @ raw @ data"
proof -
  obtain x1 g1 where 1: "x_write_all V raw x g = (Inr (), x1, g1)" "x_avail V x1 = x_avail V x - length raw"
    "wr g1 = wr g @ raw"
    using assms by (elim write_allE [of V wr raw x g]) auto
  obtain x2 g2 where 2: "x_write_all V data x1 g1 = (Inr (), x2, g2)" "wr g2 = wr g1 @ data"
    using assms 1(2) by (elim write_allE [of V wr data x1 g1]) auto
  from 1 2 show ?thesis by (simp add: rx_write_def)
qed

lemma pop_out_cases [consumes 2, case_names ctrl data]:
  assumes "mux_inv m" and "has_out m"
  obtains p ps where "out_ctrl m = p # ps" "pkt_op p \<noteq> OP_RW" "pkt_data p = []"
      "pop_out m = (Some p, m\<lparr>out_ctrl := ps\<rparr>)"
  | p ps where "out_ctrl m = []" "out_data m = p # ps" "pkt_op p = OP_RW" "pkt_data p \<noteq> []"
      "pop_out m = (Some p, m\<lparr>out_data := ps\<rparr>)"
  using assms
  by (cases "out_ctrl m"; cases "out_data m")
    (auto simp: pop_out_def has_out_def mux_inv_def ctrl_ok_def data_ok_def)

text \<open>
  A turn places one packet, whole or split, or leaves the multiplexer as it was; what is left
  of a split packet goes back to the front.
\<close>

definition left_over :: "nat \<Rightarrow> OutPkt \<Rightarrow> Mux \<Rightarrow> Mux" where
  "left_over n p m =
     (if n < length (pkt_data p) then push_front_out (p\<lparr>pkt_data := drop n (pkt_data p)\<rparr>) m else m)"

lemma rx_packet_ctrl:
  assumes "writer_law V wr" and "pop_out mux = (Some p, mux\<lparr>out_ctrl := ps\<rparr>)" and "out_ctrl mux = p # ps"
    and "pkt_op p \<noteq> OP_RW" and "pkt_data p = []" and "rx_packet V x mux g = (len, again, mux', g')"
  shows "if again then mux' = mux\<lparr>out_ctrl := ps\<rparr> \<and> wr g' = wr g @ frame mux p else mux' = mux \<and> g' = g"
proof (cases "x_avail V x < HDR_LEN")
  case True
  with assms show ?thesis by (auto simp: rx_packet_def push_front_out_def)
next
  case False
  have "OutPkt_header (p\<lparr>pkt_data := []\<rparr>) cid ba fc = OutPkt_header p cid ba fc" for cid ba fc
    using assms(5) by (simp add: OutPkt_header_def)
  moreover have "frame mux p = (case credit_of (mux\<lparr>out_ctrl := ps\<rparr>) (pkt_flow p) of
      (ba, fc) \<Rightarrow> OutPkt_header p (mux_guest_cid mux) ba fc)"
    using assms(5) by (simp add: frame_def credit_of_def get_conn_def split: prod.splits)
  moreover have "\<exists>g'. rx_write V x (frame mux p) [] g = (True, g') \<and> wr g' = wr g @ frame mux p"
    using rx_write_ok [OF assms(1), of "frame mux p" "[]" x g] False assms(5) by (simp add: frame_def)
  ultimately show ?thesis
    using False assms
    by (auto simp: rx_packet_def rx_split_def Let_def split: prod.splits bool.splits)
qed

lemma rx_packet_data:
  assumes "writer_law V wr" and "pop_out mux = (Some p, mux\<lparr>out_data := ps\<rparr>)" and "out_data mux = p # ps"
    and "pkt_op p = OP_RW" and "rx_packet V x mux g = (len, again, mux', g')"
  shows "if again then \<exists>n. mux' = left_over n p (mux\<lparr>out_data := ps\<rparr>) \<and>
             wr g' = wr g @ frame mux (p\<lparr>pkt_data := take n (pkt_data p)\<rparr>)
         else mux' = mux \<and> g' = g"
proof (cases "x_avail V x < HDR_LEN")
  case True
  with assms show ?thesis by (auto simp: rx_packet_def push_front_out_def)
next
  case False
  define n where "n = min (length (pkt_data p)) (x_avail V x - HDR_LEN)"
  let ?s = "p\<lparr>pkt_data := take n (pkt_data p)\<rparr>"
  obtain ba fc where cr: "credit_of (mux\<lparr>out_data := ps\<rparr>) (pkt_flow p) = (ba, fc)" by fastforce
  then have raw: "frame mux ?s = OutPkt_header ?s (mux_guest_cid mux) ba fc @ take n (pkt_data p)"
    by (simp add: frame_def credit_of_def get_conn_def)
  have "\<exists>g'. rx_write V x (OutPkt_header ?s (mux_guest_cid mux) ba fc) (take n (pkt_data p)) g = (True, g') \<and>
      wr g' = wr g @ frame mux ?s"
    using rx_write_ok [OF assms(1)] False unfolding raw by (simp add: n_def)
  with False assms cr show ?thesis
    by (auto simp: rx_packet_def rx_split_def left_over_def Let_def n_def [symmetric]
        split: prod.splits bool.splits intro!: exI [of _ n])
qed

lemma rx_packet_spec:
  assumes "writer_law V wr" and "mux_inv mux" and "has_out mux"
    and "rx_packet V x mux g = (len, again, mux', g')"
  shows "if again then \<exists>p. delivered mux [p] mux' \<and> wr g' = wr g @ frame mux p else mux' = mux \<and> g' = g"
  using assms(2,3)
proof (cases rule: pop_out_cases)
  case (ctrl p ps)
  with rx_packet_ctrl [OF assms(1) ctrl(4,1,2,3) assms(4)] show ?thesis
    by (auto simp: delivered_def same_conns_def payload_def)
next
  case (data p ps)
  then have d: "delivered mux [p\<lparr>pkt_data := take n (pkt_data p)\<rparr>] (left_over n p (mux\<lparr>out_data := ps\<rparr>))" for n
    by (auto simp: left_over_def delivered_def same_conns_def payload_def push_front_out_def)
  show ?thesis
  proof (cases again)
    case True
    with rx_packet_data [OF assms(1) data(5,2,3) assms(4)] obtain n where
      "mux' = left_over n p (mux\<lparr>out_data := ps\<rparr>)"
      "wr g' = wr g @ frame mux (p\<lparr>pkt_data := take n (pkt_data p)\<rparr>)" by auto
    with d [of n] True show ?thesis by auto
  next
    case False
    with rx_packet_data [OF assms(1) data(5,2,3) assms(4)] show ?thesis by simp
  qed
qed

lemma pop_chain_mux: "pop_chain V i st g = (r, st', g') \<Longrightarrow> vk_mux st' = vk_mux st"
  by (auto simp: pop_chain_def split: if_splits prod.splits)

lemma add_used_mux: "add_used V i h n st g = (r, st', g') \<Longrightarrow> vk_mux st' = vk_mux st"
  by (auto simp: add_used_def split: prod.splits)

lemma pop_chain_written:
  assumes "writer_law V wr" and "pop_chain V i st g = (r, st', g')"
  shows "wr g' = wr g"
  using assms(2) mmio_written(1) [OF assms(1), of i "vk_mmio st" g]
  by (auto simp: pop_chain_def split: if_splits prod.splits)

lemma add_used_written:
  assumes "writer_law V wr" and "add_used V i h n st g = (r, st', g')"
  shows "wr g' = wr g"
  using assms(2) mmio_written(2) [OF assms(1), of Vsock "''missing virtqueue''" i h n "vk_mmio st" g]
  by (auto simp: add_used_def split: prod.splits)

lemma rx_packet_step:
  assumes "writer_law V wr" and "mux_inv mux" and "has_out mux"
    and "rx_packet V x mux g = (len, again, mux', g')"
  shows "mux' = mux \<or> mux_step S (mux, n) (mux', n)"
  using assms(2,3)
proof (cases rule: pop_out_cases)
  case (ctrl p ps)
  have "mux' = mux\<lparr>out_ctrl := ps\<rparr> \<or> mux' = mux"
    using rx_packet_ctrl [OF assms(1) ctrl(4,1,2,3) assms(4)] by (cases again) simp_all
  then show ?thesis
    using step_pop [OF ctrl(4), of S n] by (elim disjE) simp_all
next
  case (data p ps)
  show ?thesis
  proof (cases again)
    case True
    with rx_packet_data [OF assms(1) data(5,2,3) assms(4)] obtain k where
      "mux' = left_over k p (mux\<lparr>out_data := ps\<rparr>)" by auto
    with step_pop [OF data(5), of S n] step_requeue [OF data(5), of k S n] show ?thesis
      by (simp add: left_over_def)
  next
    case False
    with rx_packet_data [OF assms(1) data(5,2,3) assms(4)] show ?thesis by simp
  qed
qed

lemma rx_packet_inv:
  assumes "writer_law V wr" and "mux_inv mux" and "has_out mux"
    and "rx_packet V x mux g = (len, again, mux', g')"
  shows "mux_inv mux'"
proof (cases "mux' = mux")
  case False
  with rx_packet_step [OF assms, of sim_sock net0] have "mux_step sim_sock (mux, net0) (mux', net0)" by blast
  from mux_inv_step [OF this sim_read_law] assms(2) show ?thesis by simp
qed (use assms(2) in simp)

text \<open>A turn of the loop, with the chain it takes and gives back.\<close>

lemma rx_turn:
  assumes "writer_law V wr" and "mux_inv (vk_mux st)" and "has_out (vk_mux st)"
    and "pop_chain V QUEUE_RX st g = (Some c, st1, g1)"
    and "rx_packet V x (vk_mux st1) g1 = (len, again, mux, g2)"
    and "add_used V QUEUE_RX (c_head V c) len (st1\<lparr>vk_mux := mux\<rparr>) g2 = (r, st3, g3)"
  shows "\<exists>ps. delivered (vk_mux st) ps (vk_mux st3) \<and> wr g3 = wr g @ concat (map (frame (vk_mux st)) ps)"
    and "mux_inv (vk_mux st3)"
proof -
  note mux1 = pop_chain_mux [OF assms(4)] and g1 = pop_chain_written [OF assms(1,4)]
  note mux3 = add_used_mux [OF assms(6)] and g3 = add_used_written [OF assms(1,6)]
  note rx = assms(5) [unfolded mux1]
  show "mux_inv (vk_mux st3)" using rx_packet_inv [OF assms(1-3) rx] mux3 by simp
  show "\<exists>ps. delivered (vk_mux st) ps (vk_mux st3) \<and> wr g3 = wr g @ concat (map (frame (vk_mux st)) ps)"
  proof (cases again)
    case True
    with rx_packet_spec [OF assms(1-3) rx] obtain p
      where "delivered (vk_mux st) [p] mux" "wr g2 = wr g1 @ frame (vk_mux st) p" by auto
    with g1 g3 mux3 show ?thesis by (intro exI [of _ "[p]"]) simp
  next
    case False
    with rx_packet_spec [OF assms(1-3) rx] g1 g3 mux3 show ?thesis by (intro exI [of _ "[]"]) simp
  qed
qed

text \<open>
  C6. What \<open>push_rx\<close> writes into the guest's receive buffers is a sequence of complete
  packets, each a header followed by the payload it announces. The control packets are those
  taken from the front of the control queue, in order. For every connection, the payload
  written followed by the payload still queued is the payload that was queued before: a data
  packet that does not fit is split, and no byte is lost, repeated or reordered. This holds
  whether the loop ends well or with an error.
\<close>

theorem push_rx_stream:
  assumes "push_rx V u st g = Some y" and "writer_law V wr" and "mux_inv (vk_mux st)"
  shows "\<exists>ps. wr (snd (snd y)) = wr g @ concat (map (frame (vk_mux st)) ps) \<and>
    delivered (vk_mux st) ps (vk_mux (fst (snd y))) \<and> mux_inv (vk_mux (fst (snd y)))"
  using assms(1,3)
proof (induction rule: push_rx_turns)
  case (placed u st g c st1 g1 x len mux g2 st3 g3 y)
  note turn = rx_turn [OF assms(2) placed(6,1,2,3,4)]
  from turn(1) obtain ps where ps: "delivered (vk_mux st) ps (vk_mux st3)"
    "wr g3 = wr g @ concat (map (frame (vk_mux st)) ps)" by blast
  from placed(5) [OF turn(2)] obtain qs where
    qs: "wr (snd (snd y)) = wr g3 @ concat (map (frame (vk_mux st3)) qs)"
    "delivered (vk_mux st3) qs (vk_mux (fst (snd y)))" "mux_inv (vk_mux (fst (snd y)))"
    by blast
  have "frame (vk_mux st3) = frame (vk_mux st)" using ps(1) by (simp add: delivered_def frame_same)
  with ps qs delivered_trans [OF ps(1) qs(2)] show ?case by (intro exI [of _ "ps @ qs"]) simp
next
  case (bad_used u st g c st1 g1 x len again mux g2 e st3 g3)
  from rx_turn [OF assms(2) bad_used(5,1,2,3,4)] show ?case by auto
next
  case (unplaced u st g c st1 g1 x len mux g2 st3 g3)
  from rx_turn [OF assms(2) unplaced(5,1,2,3,4)] show ?case by auto
next
  case (no_chain u st g st1 g1)
  with pop_chain_mux [OF no_chain(2)] pop_chain_written [OF assms(2) no_chain(2)] show ?case
    by (intro exI [of _ "[]"]) simp
next
  case (bad_chain u st g c st1 g1 t)
  with pop_chain_mux [OF bad_chain(2)] pop_chain_written [OF assms(2) bad_chain(2)] show ?case
    by (intro exI [of _ "[]"]) simp
next
  case (empty u st g)
  then show ?case by (intro exI [of _ "[]"]) simp
qed

text \<open>A packet of five bytes and two receive buffers, with room for two and for eight bytes.\<close>

definition sim_queued :: "sim_queue VsockState" where
  "sim_queued = sim_vsock\<lparr>vk_mux := sim_mux\<lparr>out_data :=
     [\<lparr>pkt_flow = sim_flow, pkt_op = OP_RW, pkt_flags = 0, pkt_data = [1, 2, 3, 4, 5]\<rparr>]\<rparr>\<rparr>"

definition sim_buffers :: sim_world where
  "sim_buffers = sim_start\<lparr>sim_avail :=
     [\<lparr>sc_head = 1, sc_in = [], sc_room = 46\<rparr>, \<lparr>sc_head = 2, sc_in = [], sc_room = 52\<rparr>]\<rparr>"

lemma sim_queued_inv: "mux_inv (vk_mux sim_queued)"
  by (auto simp: mux_inv_def sim_queued_def sim_vsock_def sim_mux_def get_conn_def sim_conn_def conn_inv_def Conn_new_def
      data_ok_def const_defs split: if_splits)

lemma sim_queued_run:
  "case push_rx sim_virtq False sim_queued sim_buffers of
     Some (r, st', g') \<Rightarrow> r = Inr True \<and> sim_used g' = [(1, 46), (2, 47)] \<and> out_data (vk_mux st') = [] | _ \<Rightarrow> False"
  by code_simp

theorem push_rx_stream_witness:
  "\<exists>st' g' ps. push_rx sim_virtq False sim_queued sim_buffers = Some (Inr True, st', g') \<and>
     concat (map snd (sim_written g')) = concat (map (frame (vk_mux sim_queued)) ps) \<and>
     payload sim_flow ps = [1, 2, 3, 4, 5]"
proof -
  from sim_queued_run obtain st' g' where
    run: "push_rx sim_virtq False sim_queued sim_buffers = Some (Inr True, st', g')"
    and out: "out_data (vk_mux st') = []"
    by (auto split: option.splits)
  from push_rx_stream [OF run sim_writer_law sim_queued_inv] run out show ?thesis
    by (auto simp: sim_buffers_def sim_start_def delivered_def payload_def sim_queued_def dest!: spec [of _ sim_flow])
qed

end
