(* ===== verification/VirtioVsockSystem.thy ===== *)
theory VirtioVsockSystem
  imports VirtioVsockProps
begin

text \<open>
  The virtio-vsock device as a whole: the worker and the guest's register writes interleave,
  and the invariants of the multiplexer and of the transport hold at every moment.
\<close>

section \<open>A round of the worker\<close>

text \<open>Everything the worker does to the multiplexer is a sequence of its steps.\<close>

abbreviation mux_steps :: "'n sock \<Rightarrow> Mux \<times> 'n \<Rightarrow> Mux \<times> 'n \<Rightarrow> bool" where
  "mux_steps S \<equiv> (mux_step S)\<^sup>*\<^sup>*"

lemma mux_inv_steps: "mux_steps S x y \<Longrightarrow> read_law S \<Longrightarrow> mux_inv (fst x) \<Longrightarrow> mux_inv (fst y)"
  by (induction rule: rtranclp_induct) (auto intro: mux_inv_step)

lemma tx_packet_step:
  assumes "tx_packet V S rd mux g n = Some (len, mux', g', n')"
  shows "mux_steps S (mux, n) (mux', n')"
  using assms
  by (auto simp: tx_packet_def Let_def bind_eq_Some_conv intro: step_reset step_pkt
      split: sum.splits prod.splits if_splits)

lemma pull_tx_steps:
  assumes "pull_tx V S u st g n = Some y"
  shows "mux_steps S (vk_mux st, n) (vk_mux (fst (snd y)), snd (snd (snd y)))"
  using assms
proof (induction rule: pull_tx_turns)
  case (bad_used u st g n c st1 g1 rd len mux g2 n2 e st3 g3)
  with pop_chain_mux [OF bad_used(1)] tx_packet_step [OF bad_used(2)] add_used_mux [OF bad_used(3)]
  show ?case by simp
next
  case (handled u st g n c st1 g1 rd len mux g2 n2 st3 g3 y)
  with pop_chain_mux [OF handled(1)] tx_packet_step [OF handled(2)] add_used_mux [OF handled(3)]
  show ?case by simp
qed (auto dest: pop_chain_mux)

lemma rx_turn_steps:
  assumes "writer_law V wr" and "mux_inv (vk_mux st)" and "has_out (vk_mux st)"
    and "pop_chain V QUEUE_RX st g = (Some c, st1, g1)"
    and "rx_packet V x (vk_mux st1) g1 = (len, again, mux, g2)"
    and "add_used V QUEUE_RX (c_head V c) len (st1\<lparr>vk_mux := mux\<rparr>) g2 = (r, st3, g3)"
  shows "mux_steps S (vk_mux st, n) (vk_mux st3, n)"
  using rx_packet_step [OF assms(1-3) assms(5) [unfolded pop_chain_mux [OF assms(4)]], of S n]
    add_used_mux [OF assms(6)]
  by auto

lemma push_rx_steps:
  assumes "push_rx V u st g = Some y" and "writer_law V wr" and "mux_inv (vk_mux st)"
  shows "mux_steps S (vk_mux st, n) (vk_mux (fst (snd y)), n)"
  using assms(1,3)
proof (induction rule: push_rx_turns)
  case (placed u st g c st1 g1 x len mux g2 st3 g3 y)
  from rx_turn_steps [OF assms(2) placed(6,1,2,3,4)] placed(5) [OF rx_turn(2) [OF assms(2) placed(6,1,2,3,4)]]
  show ?case by (rule rtranclp_trans)
next
  case (bad_used u st g c st1 g1 x len again mux g2 e st3 g3)
  from rx_turn_steps [OF assms(2) bad_used(5,1,2,3,4)] show ?case by simp
next
  case (unplaced u st g c st1 g1 x len mux g2 st3 g3)
  from rx_turn_steps [OF assms(2) unplaced(5,1,2,3,4)] show ?case by simp
qed (auto dest: pop_chain_mux)

lemma push_reset_event_mux:
  "push_reset_event V st g = (r, st', g') \<Longrightarrow> vk_mux st' = vk_mux st"
  by (auto simp: push_reset_event_def split: option.splits sum.splits prod.splits if_splits
      dest!: pop_chain_mux add_used_mux)

lemma note_transport_steps: "note_transport V S st n = (st', n') \<Longrightarrow> mux_steps S (vk_mux st, n) (vk_mux st', n')"
  by (auto simp: note_transport_def Let_def split: if_splits prod.splits dest!: step_kill)

text \<open>Each phase of \<open>drive\<close> takes steps, also when it fails.\<close>

lemma drive_steps:
  assumes "writer_law V wr" and "read_law S" and "mux_inv (vk_mux st)"
    and "drive V E S st g n = Some (r, st', g', n')"
  shows "mux_steps S (vk_mux st, n) (vk_mux st', n')"
proof -
  obtain st0 n0 where nt: "note_transport V S st n = (st0, n0)" by fastforce
  note s0 = note_transport_steps [OF nt]
  show ?thesis
  proof (cases "transport_up V st")
    case False
    with assms(4) nt s0 show ?thesis by (auto simp: drive_def)
  next
    case True
    with assms(4) nt obtain q1 st1 g1 n1 where 1: "pull_tx V S False st0 g n0 = Some (q1, st1, g1, n1)"
      by (auto simp: drive_def Let_def bind_eq_Some_conv)
    from s0 pull_tx_steps [OF 1] have s1: "mux_steps S (vk_mux st, n) (vk_mux st1, n1)" by simp
    show ?thesis
    proof (cases q1)
      case (Inl e)
      with assms(4) True nt 1 s1 show ?thesis by (auto simp: drive_def Let_def)
    next
      case (Inr u1)
      with assms(4) True nt 1 obtain q2 st2 g2 where 2: "push_rx V False st1 g1 = Some (q2, st2, g2)"
        by (auto simp: drive_def Let_def bind_eq_Some_conv)
      have "mux_inv (vk_mux st1)" using mux_inv_steps [OF s1 assms(2)] assms(3) by simp
      from s1 push_rx_steps [OF 2 assms(1) this, of S n1]
      have s2: "mux_steps S (vk_mux st, n) (vk_mux st2, n1)" by simp
      have "vk_mux st' = vk_mux st2 \<and> n' = n1"
        using assms(4) True nt 1 2 Inr
        by (auto simp: drive_def Let_def split: sum.splits prod.splits if_splits dest!: push_reset_event_mux)
      with s2 show ?thesis by simp
    qed
  qed
qed

lemma on_fds_steps: "on_fds S pfds mux n = Some (mux', n') \<Longrightarrow> mux_steps S (mux, n) (mux', n')"
proof (induction S pfds mux n rule: on_fds.induct)
  case (2 S fd revents pfds mux n)
  show ?case
  proof (cases "revents = 0")
    case False
    with "2.prems" obtain a b where s: "on_fd S fd revents mux n = Some (a, b)" "on_fds S pfds a b = Some (mux', n')"
      by (auto simp: bind_eq_Some_conv)
    from "2.IH"(1) [OF False s(1) refl s(2)] show ?thesis
      by (rule converse_rtranclp_into_rtranclp [of "mux_step S", OF step_fd [OF s(1)]])
  qed (use 2 in auto)
qed simp

lemma worker_turn_steps:
  assumes "writer_law V wr" and "read_law S" and "mux_inv (vk_mux st)"
    and "worker_turn V E S poll kick st g n = Some (r, st', g', n')"
  shows "mux_steps S (vk_mux st, n) (vk_mux st', n')"
proof -
  obtain q n1 where p: "poll ((kick, POLLIN) # interests (vk_mux st)) n = (q, n1)" by fastforce
  note s1 = step_host [of S "vk_mux st" n n1]
  show ?thesis
  proof (cases q)
    case (Inl e)
    with assms(4) p s1 show ?thesis by (auto simp: worker_turn_def split: if_splits)
  next
    case (Inr revents)
    with assms(4) p obtain mux2 n2 where
      fds: "on_fds S (zip (map fst (interests (vk_mux st))) (tl revents)) (vk_mux st) n1 = Some (mux2, n2)"
      by (auto simp: worker_turn_def Let_def bind_eq_Some_conv)
    obtain now n3 where now: "sk_now S n2 = (now, n3)" by fastforce
    obtain mux4 n4 where to: "check_timeouts S now mux2 n3 = (mux4, n4)" by fastforce
    have s4: "mux_steps S (vk_mux st, n) (mux4, n4)"
      using converse_rtranclp_into_rtranclp [of "mux_step S", OF s1 on_fds_steps [OF fds]]
        step_host [of S mux2 n2 n3] step_timeout [OF to]
      by (meson rtranclp.rtrancl_into_rtrancl)
    from assms(4) p Inr fds now to obtain g4 q4 where
      d: "drive V E S (st\<lparr>vk_mux := mux4\<rparr>) g4 n4 = Some (q4, st', g', n')"
      by (auto simp: worker_turn_def Let_def bind_eq_Some_conv)
    from mux_inv_steps [OF s4 assms(2)] assms(3) have "mux_inv (vk_mux (st\<lparr>vk_mux := mux4\<rparr>))" by simp
    from s4 drive_steps [OF assms(1,2) this d] show ?thesis by simp
  qed
qed

section \<open>The identity of the multiplexer\<close>

text \<open>No operation of the multiplexer changes the identifier of the guest, the path or the listener.\<close>

definition mux_id :: "Mux \<Rightarrow> u64 \<times> bytes \<times> int" where
  "mux_id m = (mux_guest_cid m, mux_path m, listener m)"

lemma mux_id_updates [simp]:
  "mux_id (m\<lparr>conns := x\<rparr>) = mux_id m" "mux_id (m\<lparr>incoming := y\<rparr>) = mux_id m"
  "mux_id (m\<lparr>out_ctrl := ps\<rparr>) = mux_id m" "mux_id (m\<lparr>out_data := ps\<rparr>) = mux_id m"
  "mux_id (m\<lparr>next_host_port := p\<rparr>) = mux_id m"
  by (simp_all add: mux_id_def)

lemma mux_id_basic [simp]:
  "mux_id (put_conn f c m) = mux_id m" "mux_id (with_conn f h m) = mux_id m" "mux_id (enqueue p m) = mux_id m"
  "mux_id (enqueue_rst f m) = mux_id m" "mux_id (push_front_out p m) = mux_id m"
  "mux_id (snd (pop_out m)) = mux_id m" "mux_id (request_credit f m) = mux_id m"
  "mux_id (enqueue_credit f m) = mux_id m" "mux_id (maybe_credit f m) = mux_id m"
  "mux_id (stash_prefetch f data m) = mux_id m"
  by (simp_all add: mux_id_def put_conn_def enqueue_def enqueue_rst_def push_front_out_def pop_out_def
      request_credit_def enqueue_credit_def maybe_credit_def stash_prefetch_def Let_def
      split: option.splits list.splits)

lemma mux_id_ingest [simp]: "mux_id (ingest f rest m) = mux_id m"
  by (induction f rest m rule: ingest.induct) (subst ingest.simps, simp add: Let_def split: option.splits)

lemma mux_id_drop [simp]: "mux_id (fst (drop_conn S f b m w)) = mux_id m"
  by (simp add: drop_conn_def Let_def)

lemma mux_id_mark [simp]: "mux_id (fst (mark_local_shut S f a b m w)) = mux_id m"
  by (simp add: mark_local_shut_def Let_def split: option.splits prod.splits)

lemma mux_id_eof [simp]: "mux_id (fst (on_host_eof S f m w)) = mux_id m"
  by (simp add: on_host_eof_def)

lemma mux_id_flush_rest [simp]: "mux_id (fst (flush_rest S f m x)) = mux_id m"
  by (simp add: flush_rest_def Let_def split: prod.splits sum.splits)

lemma mux_id_flush: "flush_conn S f m w = Some y \<Longrightarrow> mux_id (fst y) = mux_id m"
  by (auto simp: flush_conn_def split: option.splits)

lemma mux_id_finish_connect [simp]: "mux_id (fst (finish_connect S f m w)) = mux_id m"
  by (simp add: finish_connect_def split: option.splits prod.splits)

lemma mux_id_request [simp]: "mux_id (fst (on_guest_request S f hdr m w)) = mux_id m"
  by (simp add: on_guest_request_def Let_def split: option.splits prod.splits sum.splits ConnectResult.splits)

lemma mux_id_response: "on_response S f m w = Some y \<Longrightarrow> mux_id (fst y) = mux_id m"
  by (auto simp: on_response_def split: option.splits if_splits dest!: mux_id_flush)

lemma mux_id_shutdown: "on_shutdown S f fl m w = Some y \<Longrightarrow> mux_id (fst y) = mux_id m"
  by (auto simp: on_shutdown_def Let_def split: option.splits if_splits prod.splits dest!: mux_id_flush)

lemma mux_id_rw: "on_rw S f data m w = Some y \<Longrightarrow> mux_id (fst y) = mux_id m"
  by (auto simp: on_rw_def Let_def split: option.splits if_splits dest!: mux_id_flush)

lemma mux_id_guest_pkt: "handle_guest_pkt S hdr data m w = Some y \<Longrightarrow> mux_id (fst y) = mux_id m"
  unfolding handle_guest_pkt_def Let_def
  by (auto split: if_split_asm dest!: mux_id_response mux_id_shutdown mux_id_rw)

lemma mux_id_accept: "accept_loop S m w = Some y \<Longrightarrow> mux_id (fst y) = mux_id m"
  by (induction rule: accept_loop.raw_induct [rotated, consumes 1, case_names step])
    (auto split: prod.splits sum.splits if_splits)

lemma mux_id_alloc_loop: "mux_id (snd (alloc_port_loop k m)) = mux_id m"
  by (induction k m rule: alloc_port_loop.induct) (simp_all add: Let_def)

lemma mux_id_alloc: "alloc_host_port m = (r, m') \<Longrightarrow> mux_id m' = mux_id m"
  using mux_id_alloc_loop [of 60000 m] by (simp add: alloc_host_port_def)

lemma mux_id_finish_incoming [simp]: "mux_id (fst (finish_incoming S i m w)) = mux_id m"
  by (simp add: finish_incoming_def Let_def mux_id_alloc split: option.splits prod.splits)

lemma mux_id_read_incoming: "read_incoming S i m w = Some y \<Longrightarrow> mux_id (fst y) = mux_id m"
  by (auto simp: read_incoming_def drop_incoming_def Let_def
      split: Option.bind_splits prod.splits sum.splits if_splits)

lemma mux_id_read_conn: "read_conn S f m w = Some y \<Longrightarrow> mux_id (fst y) = mux_id m"
  by (auto simp: read_conn_def
      split: option.splits Option.bind_splits prod.splits sum.splits if_splits)

lemma mux_id_on_fd: "on_fd S fd re m w = Some y \<Longrightarrow> mux_id (fst y) = mux_id m"
  unfolding on_fd_def
  by (auto split: option.split_asm Option.bind_split_asm if_split_asm prod.split_asm
      dest!: mux_id_accept mux_id_read_incoming mux_id_read_conn mux_id_flush)

lemma mux_id_drop_conns: "mux_id (fst (drop_conns S fs m w)) = mux_id m"
proof (induction S fs m w rule: drop_conns.induct)
  case (2 S f fs m w)
  obtain a b where "drop_conn S f True m w = (a, b)" by fastforce
  with 2 [of "(a, b)" a b] mux_id_drop [of S f True m w] show ?case by simp
qed simp

lemma mux_id_step: "mux_step S x y \<Longrightarrow> mux_id (fst y) = mux_id (fst x)"
proof (induction rule: mux_step.induct)
  case (step_timeout now m w m' w')
  then show ?case using mux_id_drop_conns by (metis check_timeouts_def fst_conv)
next
  case (step_reset gp hp m w m' w')
  then show ?case using mux_id_drop by (metis reset_flow_def fst_conv)
next
  case (step_pop m r m' w)
  then show ?case using mux_id_basic(6) [of m] by simp
next
  case (step_requeue m p m' n w)
  then show ?case using mux_id_basic(6) [of m] by simp
qed (auto simp: kill_connections_def dest: mux_id_guest_pkt mux_id_on_fd)

lemma mux_id_steps: "mux_steps S x y \<Longrightarrow> mux_id (fst y) = mux_id (fst x)"
  by (induction rule: rtranclp_induct) (auto dest: mux_id_step)

lemma mux_reachable_steps: "mux_steps S x y \<Longrightarrow> mux_reachable S x \<Longrightarrow> mux_reachable S y"
  by (induction rule: rtranclp_induct) (auto intro: reach_step)

lemma Mux_bind_cid: "Mux_bind S cid path w = (Inr m, w') \<Longrightarrow> mux_guest_cid m = cid"
  unfolding Mux_bind_def try_then_def
  by (auto split: sum.split_asm if_split_asm prod.split_asm)

section \<open>Reachable states of the device\<close>

text \<open>
  The device starts as \<^verbatim>\<open>VirtioVsock::new\<close> leaves it. After that, in any order, a processor
  writes a register, the worker takes a turn with whatever \<^verbatim>\<open>poll\<close> reports, and the guest's
  memory and the host change by themselves.
\<close>

inductive vsock_reachable ::
  "('q, 'c, 'r, 'x, 'g) virtq \<Rightarrow> 'g evfd \<Rightarrow> 'g kvm_wiring \<Rightarrow> 'n sock \<Rightarrow> u64 \<Rightarrow> 'q VsockState \<Rightarrow> 'g \<Rightarrow> 'n \<Rightarrow> bool"
  for V E K S cid where
  vr_new: "VirtioVsock_new V E K S cid path g n = (Inr (d :: ('q VsockState, unit) VirtioDev), g', n') \<Longrightarrow>
    vsock_reachable V E K S cid (vd_state d) g' n'"
| vr_write: "vsock_reachable V E K S cid st g n \<Longrightarrow>
    vsock_reachable V E K S cid (st\<lparr>vk_mmio := snd (mmio_write V (vk_mmio st) addr data g)\<rparr>) g n"
| vr_turn: "vsock_reachable V E K S cid st g n \<Longrightarrow>
    worker_turn V E S poll kick st g n = Some (r, st', g', n') \<Longrightarrow> vsock_reachable V E K S cid st' g' n'"
| vr_world: "vsock_reachable V E K S cid st g n \<Longrightarrow> vsock_reachable V E K S cid st g' n'"

lemma VirtioVsock_new_state:
  assumes "VirtioVsock_new V E K S cid path g n = (Inr d, g', n')"
  obtains mux where "Mux_bind S cid path n = (Inr mux, n')" and "vk_mux (vd_state d) = mux"
  using assms unfolding VirtioVsock_new_def try_then_def map_err_def VirtioDev_new_def
  by (auto split: sum.split_asm prod.split_asm)

lemma vsock_reachable_inv:
  assumes "vsock_reachable V E K S cid st g n" and "writer_law V wr" and "read_law S"
  shows "mux_reachable S (vk_mux st, n) \<and> mux_guest_cid (vk_mux st) = cid"
  using assms(1)
proof (induction rule: vsock_reachable.induct)
  case (vr_new path g n d g' n')
  then show ?case by (elim VirtioVsock_new_state) (auto intro: reach_bind simp: Mux_bind_cid)
next
  case (vr_turn st g n poll kick r st' g' n')
  then have "mux_inv (vk_mux st)" using mux_reachable_inv assms(3) by fastforce
  from worker_turn_steps [OF assms(2,3) this vr_turn(2)] vr_turn.IH show ?case
    using mux_id_steps mux_reachable_steps by (fastforce simp: mux_id_def)
next
  case (vr_world st g n g' n')
  from vr_world.IH reach_step [OF _ step_host, of S "vk_mux st" n n'] show ?case by simp
qed simp

text \<open>
  C5. In every state of the virtio-vsock device, after any interleaving of guest register
  writes, worker turns with any outcome of poll, and changes of guest memory and host, the
  invariant of the multiplexer holds, and the configuration space the guest reads is the
  context identifier the device was created with.
\<close>

theorem vsock_device_invariant:
  assumes "vsock_reachable V E K S cid st g n" and "writer_law V wr" and "read_law S"
  shows "mux_inv (vk_mux st) \<and> fst (vsock_copy_config st (replicate 8 0)) = le_bytes 8 cid"
  using vsock_reachable_inv [OF assms] mux_reachable_inv [of S "(vk_mux st, n)"] assms(3)
  by (simp add: vsock_copy_config_def Let_def)

definition sim_kvm :: "'w kvm_wiring" where
  "sim_kvm = \<lparr>register_irqfd = (\<lambda>fd irq w. (Inr (), w)), register_ioevent = (\<lambda>fd addr i w. (Inr (), w))\<rparr>"

theorem vsock_device_invariant_witness:
  "\<exists>st g n. vsock_reachable sim_virtq sim_evfd sim_kvm sim_sock 3 st g n \<and> mux_inv (vk_mux st) \<and>
     fst (vsock_copy_config st (replicate 8 0)) = le_bytes 8 (3 :: u64)"
proof -
  have "\<exists>d g n. VirtioVsock_new sim_virtq sim_evfd sim_kvm sim_sock 3 (ascii ''v'') sim_start net0 =
      (Inr (d :: (sim_queue VsockState, unit) VirtioDev), g, n)"
    by (simp add: VirtioVsock_new_def Mux_bind_def sim_sock_def net0_def validate_guest_cid_def const_defs ascii_def
        unix_stream_def bind_unix_def VirtioMmio_new_def sim_evfd_def sim_start_def sim_virtq_def sim_kvm_def
        register_irq_def register_ioeventfds_def VirtioDev_new_def numeral_3_eq_3 vsock_state_ops_def)
  then obtain d g n where "VirtioVsock_new sim_virtq sim_evfd sim_kvm sim_sock 3 (ascii ''v'') sim_start net0 =
      (Inr (d :: (sim_queue VsockState, unit) VirtioDev), g, n)" by blast
  from vr_new [OF this] vsock_device_invariant [OF vr_new [OF this] sim_writer_law sim_read_law]
  show ?thesis by blast
qed

end
