(* ===== verification/Cmdline.thy ===== *)
theory Cmdline
  imports MmioDevice
begin

text \<open>
  \<^verbatim>\<open>src/cmdline.rs\<close>: assembly of the kernel command line. A Rust string is the list of its
  code points, so that \<^verbatim>\<open>char::is_whitespace\<close> and \<^verbatim>\<open>split_whitespace\<close> are exact.
\<close>

type_synonym str = "int list"

definition str :: "string \<Rightarrow> str" where
  "str s = map of_char s"

text \<open>The code points with the Unicode property \<^verbatim>\<open>White_Space\<close>.\<close>

definition is_whitespace :: "int \<Rightarrow> bool" where
  "is_whitespace c \<longleftrightarrow>
     9 \<le> c \<and> c \<le> 13 \<or> c = 0x20 \<or> c = 0x85 \<or> c = 0xA0 \<or> c = 0x1680 \<or>
     0x2000 \<le> c \<and> c \<le> 0x200A \<or> c = 0x2028 \<or> c = 0x2029 \<or> c = 0x202F \<or> c = 0x205F \<or> c = 0x3000"

fun split_ws :: "str \<Rightarrow> str list" where
  "split_ws [] = [[]]"
| "split_ws (c # cs) =
     (if is_whitespace c then [] # split_ws cs
      else (case split_ws cs of [] \<Rightarrow> [[c]] | t # ts \<Rightarrow> (c # t) # ts))"

definition split_whitespace :: "str \<Rightarrow> str list" where
  "split_whitespace s = filter (\<lambda>t. t \<noteq> []) (split_ws s)"

definition starts_with :: "str \<Rightarrow> str \<Rightarrow> bool" where
  "starts_with p s \<longleftrightarrow> take (length p) s = p"

definition contains :: "str \<Rightarrow> str \<Rightarrow> bool" where
  "contains p s \<longleftrightarrow> list_ex (\<lambda>i. starts_with p (drop i s)) [0..<Suc (length s)]"

text \<open>\<^verbatim>\<open>{:#x}\<close>\<close>

definition hex_digit :: "nat \<Rightarrow> char" where
  "hex_digit d = char_of (if d < 10 then 48 + d else 87 + d)"

fun hex_digits :: "nat \<Rightarrow> string" where
  "hex_digits n = (if n < 16 then [hex_digit n] else hex_digits (n div 16) @ [hex_digit (n mod 16)])"

declare hex_digits.simps [simp del]

definition hex :: "nat \<Rightarrow> string" where
  "hex n = ''0x'' @ hex_digits n"

record KernelCmdlineOpts =
  opt_initrd :: bool
  opt_block :: bool
  opt_tap :: bool
  opt_vsock :: bool

definition push_token :: "str \<Rightarrow> str \<Rightarrow> str" where
  "push_token cmdline token =
     (if cmdline \<noteq> [] \<and> \<not> is_whitespace (last cmdline) then cmdline @ [32] else cmdline) @ token"

definition window_prefix :: "u64 \<Rightarrow> str" where
  "window_prefix base = str (''virtio_mmio.device=4K@'' @ hex (unat base) @ '':'')"

definition window_token :: "u64 \<Rightarrow> u32 \<Rightarrow> str" where
  "window_token base irq = str (''virtio_mmio.device=4K@'' @ hex (unat base) @ '':'' @ decimal (unat irq))"

text \<open>The test and push that each device's window token goes through.\<close>

definition push_window :: "u64 \<Rightarrow> u32 \<Rightarrow> str \<Rightarrow> str" where
  "push_window base irq cmdline =
     (if \<not> contains (window_prefix base) cmdline
      then push_token cmdline (window_token base irq) else cmdline)"

definition has_token :: "string \<Rightarrow> str \<Rightarrow> bool" where
  "has_token p cmdline \<longleftrightarrow> list_ex (starts_with (str p)) (split_whitespace cmdline)"

definition build_kernel_cmdline :: "str \<Rightarrow> KernelCmdlineOpts \<Rightarrow> str" where
  "build_kernel_cmdline base opts =
     (let cmdline = base;
          cmdline = (if opt_initrd opts \<and> \<not> has_token ''rdinit='' cmdline
                     then push_token cmdline (str INITRD_CMDLINE_EXTRA) else cmdline);
          cmdline = (if opt_block opts then
                       (let cmdline = push_window VIRTIO_MMIO_BASE VIRTIO_BLK_IRQ cmdline
                        in if \<not> has_token ''root='' cmdline
                           then push_token cmdline (str ''root=/dev/vda rw'') else cmdline)
                     else cmdline);
          cmdline = (if opt_tap opts then push_window VIRTIO_NET_MMIO_BASE VIRTIO_NET_IRQ cmdline
                     else cmdline);
          cmdline = (if opt_vsock opts then push_window VIRTIO_VSOCK_MMIO_BASE VIRTIO_VSOCK_IRQ cmdline
                     else cmdline)
      in cmdline)"

section \<open>Tokens and substrings\<close>

lemma split_ws_ne [simp]: "split_ws s \<noteq> []"
  by (induction s) (auto split: list.splits)

lemma split_ws_append_ws:
  "is_whitespace c \<Longrightarrow> split_ws (s @ c # t) = split_ws s @ split_ws t"
  by (induction s) (auto split: list.splits simp: neq_Nil_conv)

lemma split_whitespace_sep:
  "is_whitespace c \<Longrightarrow> split_whitespace (s @ c # t) = split_whitespace s @ split_whitespace t"
  by (simp add: split_whitespace_def split_ws_append_ws)

lemma split_whitespace_Nil [simp]: "split_whitespace [] = []"
  by (simp add: split_whitespace_def)

lemma space_is_whitespace [simp]: "is_whitespace 32"
  by (simp add: is_whitespace_def)

lemma split_whitespace_push [simp]:
  "split_whitespace (push_token s t) = split_whitespace s @ split_whitespace t"
proof (cases "s = [] \<or> \<not> is_whitespace (last s)")
  case True
  then show ?thesis
    using split_whitespace_sep [of 32 s t] by (auto simp: push_token_def)
next
  case False
  then obtain s' c where s: "s = s' @ [c]" and c: "is_whitespace c"
    by (metis append_butlast_last_id)
  then have "split_whitespace s = split_whitespace s'"
    using split_whitespace_sep [OF c, of s' "[]"] by (simp add: split_whitespace_def)
  with s c show ?thesis
    using split_whitespace_sep [OF c, of s' t] by (simp add: push_token_def)
qed

lemma contains_iff: "contains p s \<longleftrightarrow> (\<exists>a b. s = a @ p @ b)"
proof
  assume "contains p s"
  then obtain i where "take (length p) (drop i s) = p"
    unfolding contains_def list_ex_iff starts_with_def by (auto simp del: upt_Suc)
  then have "s = take i s @ p @ drop (length p) (drop i s)"
    by (metis append_take_drop_id)
  then show "\<exists>a b. s = a @ p @ b" by blast
next
  assume "\<exists>a b. s = a @ p @ b"
  then obtain a b where "s = a @ p @ b" by blast
  then show "contains p s"
    by (auto simp: contains_def list_ex_iff starts_with_def intro!: bexI [of _ "length a"])
qed

text \<open>A pattern without whitespace lies in one of two parts that whitespace separates.\<close>

lemma contains_sep:
  assumes "is_whitespace c" and "\<forall>x \<in> set p. \<not> is_whitespace x"
  shows "contains p (s @ c # t) \<longleftrightarrow> contains p s \<or> contains p t"
proof
  assume "contains p (s @ c # t)"
  then obtain a b where e: "s @ c # t = a @ p @ b" by (auto simp: contains_iff)
  have c: "c \<notin> set p" using assms by auto
  consider "length s < length a" | "length a + length p \<le> length s"
    | "length a \<le> length s" "length s < length a + length p" by linarith
  then show "contains p s \<or> contains p t"
  proof cases
    case 1
    then have "t = drop (Suc (length s)) a @ p @ b"
      using arg_cong [OF e, of "drop (Suc (length s))"] by simp
    then show ?thesis by (auto simp: contains_iff)
  next
    case 2
    then have "s = a @ p @ take (length s - length a - length p) b"
      using arg_cong [OF e, of "take (length s)"] by simp
    then show ?thesis by (auto simp: contains_iff)
  next
    case 3
    then have lt: "length s - length a < length p" by linarith
    with 3 have "c = p ! (length s - length a)"
      using arg_cong [OF e, of "\<lambda>x. x ! length s"] by (simp add: nth_append)
    with lt c show ?thesis using nth_mem [OF lt] by simp
  qed
next
  assume "contains p s \<or> contains p t"
  then consider a b where "s = a @ p @ b" | a b where "t = a @ p @ b" by (auto simp: contains_iff)
  then show "contains p (s @ c # t)"
  proof cases
    case 1
    then have "s @ c # t = a @ p @ (b @ c # t)" by simp
    then show ?thesis unfolding contains_iff by blast
  next
    case 2
    then have "s @ c # t = (s @ c # a) @ p @ b" by simp
    then show ?thesis unfolding contains_iff by blast
  qed
qed

lemma contains_push:
  assumes "p \<noteq> []" and "\<forall>x \<in> set p. \<not> is_whitespace x"
  shows "contains p (push_token s t) \<longleftrightarrow> contains p s \<or> contains p t"
proof (cases "s = []")
  case True
  with assms show ?thesis by (auto simp: push_token_def contains_iff)
next
  case False
  show ?thesis
  proof (cases "is_whitespace (last s)")
    case True
    have s: "s = butlast s @ [last s]" using False by simp
    have "contains p (butlast s @ last s # t) \<longleftrightarrow> contains p (butlast s) \<or> contains p t"
      and "contains p (butlast s @ last s # []) \<longleftrightarrow> contains p (butlast s) \<or> contains p []"
      using contains_sep [OF True assms(2)] by blast+
    moreover have "\<not> contains p []" using assms(1) by (simp add: contains_iff)
    moreover have "butlast s @ last s # t = s @ t" "butlast s @ [last s] = s"
      using s by simp_all
    ultimately show ?thesis
      using True False by (simp add: push_token_def)
  next
    case notws: False
    with False contains_sep [OF _ assms(2), of 32 s t] show ?thesis
      by (simp add: push_token_def)
  qed
qed

section \<open>Properties\<close>

lemma has_token_push [simp]:
  "has_token p (push_token s t) \<longleftrightarrow> has_token p s \<or> has_token p t"
  by (simp add: has_token_def)

abbreviation blk_prefix :: str where "blk_prefix \<equiv> window_prefix VIRTIO_MMIO_BASE"
abbreviation net_prefix :: str where "net_prefix \<equiv> window_prefix VIRTIO_NET_MMIO_BASE"
abbreviation vsock_prefix :: str where "vsock_prefix \<equiv> window_prefix VIRTIO_VSOCK_MMIO_BASE"
abbreviation blk_token :: str where "blk_token \<equiv> window_token VIRTIO_MMIO_BASE VIRTIO_BLK_IRQ"
abbreviation net_token :: str where "net_token \<equiv> window_token VIRTIO_NET_MMIO_BASE VIRTIO_NET_IRQ"
abbreviation vsock_token :: str where
  "vsock_token \<equiv> window_token VIRTIO_VSOCK_MMIO_BASE VIRTIO_VSOCK_IRQ"

lemma hex_digit_chars: "hex_digit 0 = CHR ''0''" "hex_digit (Suc 0) = CHR ''1''" "hex_digit 2 = CHR ''2''"
    "hex_digit 13 = CHR ''d''"
  by code_simp+

lemma digit_chars: "digit_char 5 = CHR ''5''" "digit_char 6 = CHR ''6''" "digit_char 7 = CHR ''7''"
  by code_simp+

lemma window_strings:
  "blk_prefix = str ''virtio_mmio.device=4K@0xd0000000:''"
  "net_prefix = str ''virtio_mmio.device=4K@0xd0001000:''"
  "vsock_prefix = str ''virtio_mmio.device=4K@0xd0002000:''"
  "blk_token = str ''virtio_mmio.device=4K@0xd0000000:5''"
  "net_token = str ''virtio_mmio.device=4K@0xd0001000:6''"
  "vsock_token = str ''virtio_mmio.device=4K@0xd0002000:7''"
  by (simp_all add: window_prefix_def window_token_def hex_def hex_digits.simps hex_digit_chars
      decimal.simps digit_chars const_defs)

lemma window_prefixes:
  "blk_prefix \<noteq> []" "\<forall>x \<in> set blk_prefix. \<not> is_whitespace x"
  "net_prefix \<noteq> []" "\<forall>x \<in> set net_prefix. \<not> is_whitespace x"
  "vsock_prefix \<noteq> []" "\<forall>x \<in> set vsock_prefix. \<not> is_whitespace x"
  unfolding window_strings by code_simp+

lemmas contains_window [simp] =
  contains_push [OF window_prefixes(1,2)] contains_push [OF window_prefixes(3,4)]
  contains_push [OF window_prefixes(5,6)]

lemma window_tokens [simp]:
  "contains blk_prefix blk_token" "\<not> contains blk_prefix net_token" "\<not> contains blk_prefix vsock_token"
  "\<not> contains net_prefix blk_token" "contains net_prefix net_token" "\<not> contains net_prefix vsock_token"
  "\<not> contains vsock_prefix blk_token" "\<not> contains vsock_prefix net_token"
  "contains vsock_prefix vsock_token"
  "\<not> contains blk_prefix (str INITRD_CMDLINE_EXTRA)" "\<not> contains blk_prefix (str ''root=/dev/vda rw'')"
  "\<not> contains net_prefix (str INITRD_CMDLINE_EXTRA)" "\<not> contains net_prefix (str ''root=/dev/vda rw'')"
  "\<not> contains vsock_prefix (str INITRD_CMDLINE_EXTRA)" "\<not> contains vsock_prefix (str ''root=/dev/vda rw'')"
  unfolding window_strings by code_simp+

lemma option_tokens [simp]:
  "has_token ''rdinit='' (str INITRD_CMDLINE_EXTRA)" "\<not> has_token ''root='' (str INITRD_CMDLINE_EXTRA)"
  "has_token ''root='' (str ''root=/dev/vda rw'')" "\<not> has_token ''rdinit='' (str ''root=/dev/vda rw'')"
  "\<not> has_token ''root='' blk_token" "\<not> has_token ''root='' net_token" "\<not> has_token ''root='' vsock_token"
  "\<not> has_token ''rdinit='' blk_token" "\<not> has_token ''rdinit='' net_token"
  "\<not> has_token ''rdinit='' vsock_token"
  unfolding window_strings by code_simp+

lemma split_tokens [simp]:
  "split_whitespace (str INITRD_CMDLINE_EXTRA) = [str ''rdinit=/init'']"
  "split_whitespace (str ''root=/dev/vda rw'') = [str ''root=/dev/vda'', str ''rw'']"
  "split_whitespace blk_token = [str ''virtio_mmio.device=4K@0xd0000000:5'']"
  "split_whitespace net_token = [str ''virtio_mmio.device=4K@0xd0001000:6'']"
  "split_whitespace vsock_token = [str ''virtio_mmio.device=4K@0xd0002000:7'']"
  unfolding window_strings by code_simp+

text \<open>The tokens the options ask for and the user's command line does not already have.\<close>

definition extra_tokens :: "str \<Rightarrow> KernelCmdlineOpts \<Rightarrow> str list" where
  "extra_tokens base opts =
     (if opt_initrd opts \<and> \<not> has_token ''rdinit='' base then [str ''rdinit=/init''] else []) @
     (if opt_block opts \<and> \<not> contains blk_prefix base
      then [str ''virtio_mmio.device=4K@0xd0000000:5''] else []) @
     (if opt_block opts \<and> \<not> has_token ''root='' base
      then [str ''root=/dev/vda'', str ''rw''] else []) @
     (if opt_tap opts \<and> \<not> contains net_prefix base
      then [str ''virtio_mmio.device=4K@0xd0001000:6''] else []) @
     (if opt_vsock opts \<and> \<not> contains vsock_prefix base
      then [str ''virtio_mmio.device=4K@0xd0002000:7''] else [])"

text \<open>The assembly as five conditional pushes, with conditions on the user's text alone.\<close>

definition push_if :: "bool \<Rightarrow> str \<Rightarrow> str \<Rightarrow> str" where
  "push_if b t s = (if b then push_token s t else s)"

lemma push_if_simps [simp]:
  "split_whitespace (push_if b t s) = split_whitespace s @ (if b then split_whitespace t else [])"
  "has_token p (push_if b t s) \<longleftrightarrow> has_token p s \<or> b \<and> has_token p t"
  "contains blk_prefix (push_if b t s) \<longleftrightarrow> contains blk_prefix s \<or> b \<and> contains blk_prefix t"
  "contains net_prefix (push_if b t s) \<longleftrightarrow> contains net_prefix s \<or> b \<and> contains net_prefix t"
  "contains vsock_prefix (push_if b t s) \<longleftrightarrow> contains vsock_prefix s \<or> b \<and> contains vsock_prefix t"
  by (simp_all add: push_if_def)

lemma build_pushes:
  "build_kernel_cmdline base opts =
     push_if (opt_vsock opts \<and> \<not> contains vsock_prefix base) vsock_token
     (push_if (opt_tap opts \<and> \<not> contains net_prefix base) net_token
     (push_if (opt_block opts \<and> \<not> has_token ''root='' base) (str ''root=/dev/vda rw'')
     (push_if (opt_block opts \<and> \<not> contains blk_prefix base) blk_token
     (push_if (opt_initrd opts \<and> \<not> has_token ''rdinit='' base) (str INITRD_CMDLINE_EXTRA) base))))"
proof -
  have p: "(if b then push_window x i s else s) =
      push_if (b \<and> \<not> contains (window_prefix x) s) (window_token x i) s" for b x i s
    by (simp add: push_window_def push_if_def)
  have "build_kernel_cmdline base opts =
     (let s1 = push_if (opt_initrd opts \<and> \<not> has_token ''rdinit='' base) (str INITRD_CMDLINE_EXTRA) base;
          s2 = push_if (opt_block opts \<and> \<not> contains blk_prefix s1) blk_token s1;
          s3 = push_if (opt_block opts \<and> \<not> has_token ''root='' s2) (str ''root=/dev/vda rw'') s2;
          s4 = push_if (opt_tap opts \<and> \<not> contains net_prefix s3) net_token s3
      in push_if (opt_vsock opts \<and> \<not> contains vsock_prefix s4) vsock_token s4)"
    unfolding build_kernel_cmdline_def Let_def p [symmetric]
    by (simp add: push_if_def cong: if_cong)
  then show ?thesis
    by (simp only: Let_def push_if_simps window_tokens option_tokens simp_thms)
qed

text \<open>
  C20. The kernel command line is the user's own, unchanged, followed by exactly the tokens
  the options ask for that it lacks: the init of the ramdisk unless the user names one, each
  device's window with its address and interrupt unless the window is already described, and
  the root device unless the user names one. Building it again adds nothing.
\<close>

theorem cmdline_tokens:
  "split_whitespace (build_kernel_cmdline base opts) = split_whitespace base @ extra_tokens base opts \<and>
   (\<exists>r. build_kernel_cmdline base opts = base @ r) \<and>
   build_kernel_cmdline (build_kernel_cmdline base opts) opts = build_kernel_cmdline base opts"
proof (intro conjI)
  show "split_whitespace (build_kernel_cmdline base opts) = split_whitespace base @ extra_tokens base opts"
    by (simp only: build_pushes push_if_simps split_tokens extra_tokens_def append_assoc)
  have r: "\<exists>r. push_if b t s = base @ r" if "\<exists>r. s = base @ r" for b t s
    using that by (auto simp: push_if_def push_token_def)
  show "\<exists>r. build_kernel_cmdline base opts = base @ r"
    unfolding build_pushes by (intro r) simp
  have nomore: "(b \<and> \<not> (c \<or> b \<and> \<not> c)) = False" for b c by blast
  have id: "push_if False t s = s" for t s by (simp add: push_if_def)
  show "build_kernel_cmdline (build_kernel_cmdline base opts) opts = build_kernel_cmdline base opts"
    unfolding build_pushes [of "build_kernel_cmdline base opts"]
    unfolding build_pushes [of base]
    by (simp only: push_if_simps window_tokens option_tokens simp_thms nomore id)
qed

end
