(* ===== verification/GuestMem.thy ===== *)
theory GuestMem
  imports Config
begin

text \<open>
  The guest memory of the \<^verbatim>\<open>vm_memory\<close> crate (\<^verbatim>\<open>GuestMemoryMmap\<close>) as a parameter: a
  record of the operations kitsune calls on it, and the documented behaviour of a mapping
  with the single region \<open>[0, size)\<close> that \<^verbatim>\<open>create_guest_memory\<close> makes.
\<close>

record 'm gmem =
  last_addr :: "'m \<Rightarrow> u64"
  check_range :: "'m \<Rightarrow> u64 \<Rightarrow> nat \<Rightarrow> bool"
  write_slice :: "bytes \<Rightarrow> u64 \<Rightarrow> 'm \<Rightarrow> (string, 'm) result"
  read_byte :: "'m \<Rightarrow> u64 \<Rightarrow> u8"

text \<open>\<^verbatim>\<open>Bytes::write_obj\<close> of a \<^verbatim>\<open>u64\<close> writes its in-memory representation, little-endian on x86-64.\<close>

definition write_u64 :: "'m gmem \<Rightarrow> u64 \<Rightarrow> u64 \<Rightarrow> 'm \<Rightarrow> (string, 'm) result" where
  "write_u64 G v a m = write_slice G (le_bytes 8 v) a m"

definition read_u64 :: "'m gmem \<Rightarrow> 'm \<Rightarrow> u64 \<Rightarrow> u64" where
  "read_u64 G m a = le_word (map (\<lambda>i. read_byte G m (a + of_nat i)) [0..<8])"

definition written :: "'m gmem \<Rightarrow> bytes \<Rightarrow> nat \<Rightarrow> 'm \<Rightarrow> 'm \<Rightarrow> bool" where
  "written G bs a m m' \<longleftrightarrow>
     (\<forall>x. read_byte G m' x =
        (if a \<le> unat x \<and> unat x < a + length bs then bs ! (unat x - a) else read_byte G m x))"

text \<open>
  The hypothesis on the parameter: memory of \<open>sz m\<close> bytes from address 0, where a
  non-empty write inside the region succeeds, changes those bytes and no other, and keeps
  the region, and a write that leaves the region fails.
\<close>

definition gmem_laws :: "'m gmem \<Rightarrow> ('m \<Rightarrow> nat) \<Rightarrow> bool" where
  "gmem_laws G sz \<longleftrightarrow>
     (\<forall>m. 0 < sz m \<and> sz m < 2 ^ 64 \<and> last_addr G m = of_nat (sz m - 1)) \<and>
     (\<forall>m a n. 0 < n \<longrightarrow> check_range G m a n = (unat a + n \<le> sz m)) \<and>
     (\<forall>m a bs. bs \<noteq> [] \<longrightarrow> unat a + length bs \<le> sz m \<longrightarrow>
        (\<exists>m'. write_slice G bs a m = Inr m' \<and> sz m' = sz m \<and> written G bs (unat a) m m')) \<and>
     (\<forall>m a bs. bs \<noteq> [] \<longrightarrow> sz m < unat a + length bs \<longrightarrow> is_err (write_slice G bs a m))"

lemma gmem_last: "gmem_laws G sz \<Longrightarrow> unat (last_addr G m) = sz m - 1"
proof -
  assume "gmem_laws G sz"
  then have "0 < sz m" "sz m < 2 ^ 64" "last_addr G m = of_nat (sz m - 1)"
    by (auto simp: gmem_laws_def)
  then show ?thesis by (simp add: unat_of_nat del: of_nat_diff)
qed

lemma gmem_size: "gmem_laws G sz \<Longrightarrow> 0 < sz m \<and> sz m < 2 ^ 64"
  by (simp add: gmem_laws_def)

lemma gmem_write_ok:
  assumes "gmem_laws G sz" and "bs \<noteq> []" and "unat a + length bs \<le> sz m"
  obtains m' where "write_slice G bs a m = Inr m'" "sz m' = sz m" "written G bs (unat a) m m'"
  using assms unfolding gmem_laws_def by blast

lemma gmem_write_inv:
  assumes "gmem_laws G sz" and "bs \<noteq> []" and "write_slice G bs a m = Inr m'"
  shows "sz m' = sz m" "written G bs (unat a) m m'" "unat a + length bs \<le> sz m"
proof -
  have le: "unat a + length bs \<le> sz m"
  proof (rule ccontr)
    assume "\<not> unat a + length bs \<le> sz m"
    with assms(1,2) have "is_err (write_slice G bs a m)"
      unfolding gmem_laws_def by auto
    with assms(3) show False by simp
  qed
  obtain m'' where "write_slice G bs a m = Inr m''" "sz m'' = sz m" "written G bs (unat a) m m''"
    using assms(1,2) le by (rule gmem_write_ok)
  with assms(3) le show "sz m' = sz m" "written G bs (unat a) m m'" "unat a + length bs \<le> sz m"
    by auto
qed

lemma write_u64_ok:
  assumes "gmem_laws G sz" and "unat a + 8 \<le> sz m"
  obtains m' where "write_u64 G v a m = Inr m'" "sz m' = sz m"
    "written G (le_bytes 8 v) (unat a) m m'"
proof -
  have "le_bytes 8 v \<noteq> []" by (metis length_le_bytes list.size(3) zero_neq_numeral)
  moreover have "unat a + length (le_bytes 8 v) \<le> sz m" using assms(2) by simp
  ultimately show thesis
    using gmem_write_ok [OF assms(1)] that unfolding write_u64_def by blast
qed

lemma unat_add_small:
  "unat a + n < 2 ^ 64 \<Longrightarrow> unat (a + of_nat n) = unat (a :: u64) + n"
  by (simp add: unat_word_ariths unat_of_nat)

text \<open>A 64-bit value reads back after it was written, and after any disjoint write.\<close>

lemma read_u64_written_same:
  assumes "written G (le_bytes 8 v) (unat a) m m'" and "unat a + 8 \<le> 2 ^ 64"
  shows "read_u64 G m' a = v"
proof -
  have "map (\<lambda>i. read_byte G m' (a + of_nat i)) [0..<8] = le_bytes 8 v"
  proof (rule nth_equalityI)
    fix i assume "i < length (map (\<lambda>i. read_byte G m' (a + of_nat i)) [0..<8])"
    then have i: "i < 8" by simp
    then have "unat (a + of_nat i) = unat a + i"
      using assms(2) by (intro unat_add_small) linarith
    then show "map (\<lambda>i. read_byte G m' (a + of_nat i)) [0..<8] ! i = le_bytes 8 v ! i"
      using assms(1) i by (simp add: written_def)
  qed simp
  then show ?thesis by (simp add: read_u64_def)
qed

text \<open>\<open>same_outside lo hi\<close>: nothing outside the addresses \<open>lo\<close> to \<open>hi\<close> changed.\<close>

definition same_outside :: "'m gmem \<Rightarrow> nat \<Rightarrow> nat \<Rightarrow> 'm \<Rightarrow> 'm \<Rightarrow> bool" where
  "same_outside G lo hi m m' \<longleftrightarrow>
     (\<forall>x. unat x < lo \<or> hi \<le> unat x \<longrightarrow> read_byte G m' x = read_byte G m x)"

lemma written_same_outside: "written G bs a m m' \<Longrightarrow> same_outside G a (a + length bs) m m'"
  by (auto simp: written_def same_outside_def)

lemma same_outside_refl [simp]: "same_outside G lo hi m m"
  by (simp add: same_outside_def)

lemma same_outside_trans:
  "same_outside G lo hi m m' \<Longrightarrow> same_outside G lo' hi' m' m'' \<Longrightarrow>
   same_outside G (min lo lo') (max hi hi') m m''"
  by (auto simp: same_outside_def)

lemma same_outside_mono:
  "same_outside G lo hi m m' \<Longrightarrow> lo' \<le> lo \<Longrightarrow> hi \<le> hi' \<Longrightarrow> same_outside G lo' hi' m m'"
  by (auto simp: same_outside_def)

lemma same_outside_chain:
  "same_outside G lo hi m m' \<Longrightarrow> same_outside G lo hi m' m'' \<Longrightarrow> same_outside G lo hi m m''"
  using same_outside_trans by fastforce

lemma read_u64_same_outside:
  assumes "same_outside G lo hi m m'" and "unat a + 8 \<le> 2 ^ 64"
    and "unat a + 8 \<le> lo \<or> hi \<le> unat a"
  shows "read_u64 G m' a = read_u64 G m a"
proof -
  have "map (\<lambda>i. read_byte G m' (a + of_nat i)) [0..<8] =
        map (\<lambda>i. read_byte G m (a + of_nat i)) [0..<8]"
  proof (rule map_cong [OF refl])
    fix i assume "i \<in> set [0..<8]"
    then have i: "i < 8" by simp
    then have "unat (a + of_nat i) = unat a + i"
      using assms(2) by (intro unat_add_small) linarith
    then show "read_byte G m' (a + of_nat i) = read_byte G m (a + of_nat i)"
      using assms(1,3) i by (auto simp: same_outside_def)
  qed
  then show ?thesis by (simp only: read_u64_def)
qed

lemma write_u64_effect:
  assumes "gmem_laws G sz" and "unat a + 8 \<le> sz m"
  obtains m' where "write_u64 G v a m = Inr m'" "sz m' = sz m" "read_u64 G m' a = v"
    "same_outside G (unat a) (unat a + 8) m m'"
proof -
  obtain m' where m': "write_u64 G v a m = Inr m'" "sz m' = sz m"
      "written G (le_bytes 8 v) (unat a) m m'"
    using assms by (rule write_u64_ok)
  have "unat a + 8 \<le> 2 ^ 64" using assms gmem_size [OF assms(1), of m] by simp
  with m'(3) have "read_u64 G m' a = v" by (rule read_u64_written_same)
  moreover have "same_outside G (unat a) (unat a + 8) m m'"
    using written_same_outside [OF m'(3)] by simp
  ultimately show thesis using that m' by blast
qed

lemma unat_of_nat_small: "n < 2 ^ 64 \<Longrightarrow> unat (of_nat n :: u64) = n"
  by (simp add: unat_of_nat)

text \<open>\<open>holds a bs\<close>: the bytes \<open>bs\<close> are in memory from address \<open>a\<close> on.\<close>

definition holds :: "'m gmem \<Rightarrow> nat \<Rightarrow> bytes \<Rightarrow> 'm \<Rightarrow> bool" where
  "holds G a bs m \<longleftrightarrow> (\<forall>i < length bs. read_byte G m (of_nat (a + i)) = bs ! i)"

lemma written_holds:
  assumes "written G bs a m m'" and "a + length bs \<le> 2 ^ 64"
  shows "holds G a bs m'"
  unfolding holds_def
proof (intro allI impI)
  fix i assume "i < length bs"
  moreover from this have "unat (of_nat (a + i) :: u64) = a + i"
    using assms(2) by (intro unat_of_nat_small) simp
  ultimately show "read_byte G m' (of_nat (a + i)) = bs ! i"
    using assms(1) by (simp only: written_def) simp
qed

lemma holds_same_outside:
  assumes "same_outside G lo hi m m'" and "a + length bs \<le> 2 ^ 64"
    and "a + length bs \<le> lo \<or> hi \<le> a" and "holds G a bs m"
  shows "holds G a bs m'"
  unfolding holds_def
proof (intro allI impI)
  fix i assume i: "i < length bs"
  then have "unat (of_nat (a + i) :: u64) = a + i"
    using assms(2) by (intro unat_of_nat_small) simp
  with i assms(1,3) have "read_byte G m' (of_nat (a + i)) = read_byte G m (of_nat (a + i))"
    by (simp only: same_outside_def) auto
  with i assms(4) show "read_byte G m' (of_nat (a + i)) = bs ! i"
    by (simp only: holds_def)
qed

lemma holds_written:
  assumes "written G bs' b m m'" and "a + length bs \<le> 2 ^ 64"
    and "a + length bs \<le> b \<or> b + length bs' \<le> a" and "holds G a bs m"
  shows "holds G a bs m'"
  by (rule holds_same_outside [OF written_same_outside [OF assms(1)] assms(2-4)])

section \<open>A concrete memory\<close>

text \<open>A flat byte array that satisfies the laws, for evaluating the model on inputs.\<close>

record flat =
  flat_size :: nat
  flat_data :: "nat \<Rightarrow> u8"

definition flat_write :: "bytes \<Rightarrow> u64 \<Rightarrow> flat \<Rightarrow> (string, flat) result" where
  "flat_write bs a m =
     (if unat a + length bs \<le> flat_size m
      then Inr (m\<lparr>flat_data := (\<lambda>x. if unat a \<le> x \<and> x < unat a + length bs
                                     then bs ! (x - unat a) else flat_data m x)\<rparr>)
      else Inl ''out of range'')"

definition flat_bytes :: "flat \<Rightarrow> nat" where
  "flat_bytes m = (if 0 < flat_size m \<and> flat_size m < 2 ^ 64 then flat_size m else 1)"

definition flat_clip :: "flat \<Rightarrow> flat" where
  "flat_clip m = m\<lparr>flat_size := flat_bytes m\<rparr>"

definition flat_mem :: "flat gmem" where
  "flat_mem =
     \<lparr>last_addr = (\<lambda>m. of_nat (flat_bytes m - 1)),
      check_range = (\<lambda>m a n. unat a + n \<le> flat_bytes m),
      write_slice = (\<lambda>bs a m. flat_write bs a (flat_clip m)),
      read_byte = (\<lambda>m x. flat_data m (unat x))\<rparr>"

lemma flat_mem_laws: "gmem_laws flat_mem flat_bytes"
  by (auto simp: gmem_laws_def flat_mem_def flat_write_def flat_clip_def flat_bytes_def
      written_def)

end
