(* ===== verification/Boot.thy ===== *)
theory Boot
  imports GuestMem
begin

text \<open>
  \<^verbatim>\<open>src/boot.rs\<close>: loading a Linux kernel, its command line and its initial ramdisk into guest
  memory and describing them by the boot protocol the kernel supports. The kernel loaders,
  the command line buffer and the writers of the boot structures belong to the
  \<^verbatim>\<open>linux_loader\<close> crate and are parameters, as are the files on the host.
\<close>

section \<open>Addresses (boot.rs)\<close>

definition HIMEM_START :: u64 where [const_defs]: "HIMEM_START = 0x00100000"
definition ZERO_PAGE_START :: u64 where [const_defs]: "ZERO_PAGE_START = 0x7000"
definition PVH_INFO_START :: u64 where [const_defs]: "PVH_INFO_START = 0x6000"
definition PVH_MEMMAP_START :: u64 where [const_defs]: "PVH_MEMMAP_START = 0x6100"
definition PVH_MODLIST_START :: u64 where [const_defs]: "PVH_MODLIST_START = 0x6200"
definition CMDLINE_START :: u64 where [const_defs]: "CMDLINE_START = 0x00020000"
definition BOOT_STACK_POINTER :: u64 where [const_defs]: "BOOT_STACK_POINTER = 0x8ff0"
definition KVM_TSS_ADDRESS :: nat where [const_defs]: "KVM_TSS_ADDRESS = 0xfffbd000"
definition BZIMAGE_64BIT_ENTRY_OFFSET :: u64 where [const_defs]: "BZIMAGE_64BIT_ENTRY_OFFSET = 0x200"
definition START_KERNEL_MAP :: u64 where [const_defs]: "START_KERNEL_MAP = 0xffffffff80000000"
definition KERNEL_BOOT_FLAG_MAGIC :: u16 where [const_defs]: "KERNEL_BOOT_FLAG_MAGIC = 0xaa55"
definition KERNEL_HDR_MAGIC :: u32 where [const_defs]: "KERNEL_HDR_MAGIC = 0x53726448"
definition KERNEL_LOADER_OTHER :: u8 where [const_defs]: "KERNEL_LOADER_OTHER = 0xff"
definition KERNEL_MIN_ALIGNMENT_BYTES :: u32 where [const_defs]: "KERNEL_MIN_ALIGNMENT_BYTES = 0x01000000"
definition KERNEL_BOOT_PROTOCOL :: u16 where [const_defs]: "KERNEL_BOOT_PROTOCOL = 0x020c"
definition EBDA_START :: u64 where [const_defs]: "EBDA_START = 0x0009fc00"
definition E820_RAM :: u32 where [const_defs]: "E820_RAM = 1"

section \<open>The boot structures of linux_loader\<close>

text \<open>
  The structures are those of the Linux boot protocol and of the Xen PVH interface. Of the
  setup header and of \<^verbatim>\<open>boot_params\<close> the fields the source touches are named; the others are
  carried along as bytes.
\<close>

record setup_header =
  boot_flag :: u16
  hdr_header :: u32
  hdr_version :: u16
  type_of_loader :: u8
  loadflags :: u8
  ramdisk_image :: u32
  ramdisk_size :: u32
  cmd_line_ptr :: u32
  kernel_alignment :: u32
  xloadflags :: u16
  cmdline_size :: u32
  hdr_other :: bytes

definition LOADED_HIGH :: u8 where [const_defs]: "LOADED_HIGH = 1"
definition XLF_KERNEL_64 :: u16 where [const_defs]: "XLF_KERNEL_64 = 1"

record boot_e820_entry =
  e820_addr :: u64
  e820_size :: u64
  e820_type :: u32

record boot_params =
  e820_entries :: u8
  e820_table :: "boot_e820_entry list"
  hdr :: setup_header
  params_other :: bytes

record hvm_memmap_table_entry =
  mm_addr :: u64
  mm_size :: u64
  mm_type :: u32
  mm_reserved :: u32

record hvm_modlist_entry =
  mod_paddr :: u64
  mod_size :: u64
  mod_cmdline_paddr :: u64
  mod_reserved :: u64

record hvm_start_info =
  si_magic :: u32
  si_version :: u32
  si_flags :: u32
  nr_modules :: u32
  modlist_paddr :: u64
  cmdline_paddr :: u64
  rsdp_paddr :: u64
  memmap_paddr :: u64
  memmap_entries :: u32
  si_reserved :: u32

definition XEN_HVM_START_MAGIC_VALUE :: u32 where [const_defs]: "XEN_HVM_START_MAGIC_VALUE = 0x336ec578"

datatype PvhBootCapability = PvhEntryPresent u64 | PvhEntryNotPresent | PvhEntryIgnored

record KernelLoaderResult =
  kl_load :: u64
  kl_end :: u64
  kl_setup_header :: "setup_header option"
  kl_pvh :: PvhBootCapability

datatype load_error = InvalidElfMagicNumber | LoadError string

text \<open>
  The parameters: host files \<open>'f\<close>, command line buffers \<open>'c\<close> and guest memory \<open>'m\<close>. A
  loader may have written to guest memory, or moved in the file, before it fails.
\<close>

record ('f, 'c, 'm) loader =
  open_image :: "bytes \<Rightarrow> (io_error, 'f) result"
  read_image :: "bytes \<Rightarrow> (io_error, bytes) result"
  seek_start :: "'f \<Rightarrow> (io_error, 'f) result"
  elf_load :: "'f \<Rightarrow> u64 \<Rightarrow> 'm \<Rightarrow> (load_error, KernelLoaderResult) result \<times> 'f \<times> 'm"
  bz_load :: "'f \<Rightarrow> u64 \<Rightarrow> 'm \<Rightarrow> (string, KernelLoaderResult) result \<times> 'm"
  cmdline_new :: "nat \<Rightarrow> (string, 'c) result"
  insert_str :: "bytes \<Rightarrow> 'c \<Rightarrow> (string, 'c) result"
  load_cmdline :: "u64 \<Rightarrow> 'c \<Rightarrow> 'm \<Rightarrow> (string, 'm) result"
  params_default :: boot_params
  write_linux_params :: "boot_params \<Rightarrow> u64 \<Rightarrow> 'm \<Rightarrow> (string, 'm) result"
  write_pvh_params :: "hvm_start_info \<Rightarrow> u64 \<Rightarrow> hvm_memmap_table_entry list \<times> u64 \<Rightarrow>
    (hvm_modlist_entry list \<times> u64) option \<Rightarrow> 'm \<Rightarrow> (string, 'm) result"

section \<open>Operations (boot.rs)\<close>

record KernelBootConfig =
  cfg_kernel :: bytes
  cfg_initrd :: "bytes option"
  cfg_cmdline :: bytes

datatype KernelEntry = Linux64 u64 | Pvh u64 u64

definition physical_entry :: "u64 \<Rightarrow> u64" where
  "physical_entry entry = (if entry \<ge> START_KERNEL_MAP then entry - START_KERNEL_MAP else entry)"

definition linux64_entry :: "KernelLoaderResult \<Rightarrow> (error, u64) result" where
  "linux64_entry kl =
     (let base = kl_load kl
      in if kl_setup_header kl \<noteq> None then
           (case checked_add base BZIMAGE_64BIT_ENTRY_OFFSET of
             None \<Rightarrow> Inl (KernelLoad (Msg ''bzImage 64-bit entry overflow''))
           | Some e \<Rightarrow> Inr e)
         else Inr (physical_entry base))"

definition write_pvh_info ::
  "'m gmem \<Rightarrow> ('f, 'c, 'm) loader \<Rightarrow> u64 \<Rightarrow> (u64 \<times> u64) option \<Rightarrow> 'm \<Rightarrow> (error, 'm) result" where
  "write_pvh_info G L rsdp initrd m =
     (let last = last_addr G m
      in if last < HIMEM_START
         then Inl (GuestMemory (Msg ''guest memory is smaller than high memory start''))
         else
           (let memmap =
                  [\<lparr>mm_addr = 0, mm_size = EBDA_START, mm_type = E820_RAM, mm_reserved = 0\<rparr>,
                   \<lparr>mm_addr = HIMEM_START, mm_size = last - HIMEM_START + 1, mm_type = E820_RAM,
                    mm_reserved = 0\<rparr>];
                (nr, modlist, modules) =
                  (case initrd of
                    Some (paddr, len) \<Rightarrow>
                      (1, PVH_MODLIST_START,
                       Some [\<lparr>mod_paddr = paddr, mod_size = len, mod_cmdline_paddr = 0, mod_reserved = 0\<rparr>])
                  | None \<Rightarrow> (0, 0, None));
                start_info =
                  \<lparr>si_magic = XEN_HVM_START_MAGIC_VALUE, si_version = 1, si_flags = 0, nr_modules = nr,
                   modlist_paddr = modlist, cmdline_paddr = CMDLINE_START, rsdp_paddr = rsdp,
                   memmap_paddr = PVH_MEMMAP_START, memmap_entries = of_nat (length memmap),
                   si_reserved = 0\<rparr>
            in with_err (\<lambda>t. BootConfigure (MsgExt t))
                 (write_pvh_params L start_info PVH_INFO_START (memmap, PVH_MEMMAP_START)
                    (case modules of None \<Rightarrow> None | Some ms \<Rightarrow> Some (ms, PVH_MODLIST_START)) m)))"

definition fill_elf_setup_header :: "setup_header \<Rightarrow> setup_header" where
  "fill_elf_setup_header h =
     h\<lparr>boot_flag := KERNEL_BOOT_FLAG_MAGIC, hdr_header := KERNEL_HDR_MAGIC,
       hdr_version := KERNEL_BOOT_PROTOCOL, kernel_alignment := KERNEL_MIN_ALIGNMENT_BYTES,
       type_of_loader := KERNEL_LOADER_OTHER, loadflags := LOADED_HIGH,
       xloadflags := XLF_KERNEL_64\<rparr>"

definition add_e820_entry :: "boot_params \<Rightarrow> u64 \<Rightarrow> u64 \<Rightarrow> u32 \<Rightarrow> (error, boot_params) result" where
  "add_e820_entry p addr len mem_type =
     (let idx = unat (e820_entries p)
      in if idx \<ge> length (e820_table p) then Inl (BootConfigure (Msg ''too many e820 entries''))
         else Inr (p\<lparr>e820_table := (e820_table p)
                       [idx := \<lparr>e820_addr = addr, e820_size = len, e820_type = mem_type\<rparr>],
                     e820_entries := e820_entries p + 1\<rparr>))"

definition build_boot_params ::
  "'m gmem \<Rightarrow> ('f, 'c, 'm) loader \<Rightarrow> 'm \<Rightarrow> KernelLoaderResult \<Rightarrow> (error, boot_params) result" where
  "build_boot_params G L m kl =
     (let p = params_default L;
          p = (case kl_setup_header kl of
                 Some h \<Rightarrow> p\<lparr>hdr := h\<rparr>
               | None \<Rightarrow> p\<lparr>hdr := fill_elf_setup_header (hdr p)\<rparr>);
          p = (if type_of_loader (hdr p) = 0
               then p\<lparr>hdr := (hdr p)\<lparr>type_of_loader := KERNEL_LOADER_OTHER\<rparr>\<rparr> else p)
      in and_then (add_e820_entry p 0 EBDA_START E820_RAM) (\<lambda>p.
           let last = last_addr G m; himem = HIMEM_START
           in if last < himem
              then Inl (GuestMemory (Msg ''guest memory is smaller than high memory start''))
              else add_e820_entry p himem (last - himem + 1) E820_RAM))"

definition place_initrd :: "'m gmem \<Rightarrow> u64 \<Rightarrow> bytes \<Rightarrow> 'm \<Rightarrow> (error, u64 \<times> 'm) result" where
  "place_initrd G kernel_end initrd m =
     (let last = last_addr G m; len = of_nat (length initrd) :: u64
      in if len = 0 then Inl (KernelLoad (Msg ''empty initrd''))
         else
           (let e = last + 1; addr = saturating_sub e len AND NOT 0xfff
            in case checked_add addr len of
                 None \<Rightarrow> Inl (ImageDoesNotFit addr (length initrd))
               | Some initrd_end \<Rightarrow>
                   if addr < kernel_end \<or> initrd_end > e then Inl (ImageDoesNotFit addr (length initrd))
                   else if addr > 0xffffffff
                   then Inl (KernelLoad (Msg ''initrd address does not fit in 32-bit boot_params''))
                   else and_then (with_err (\<lambda>t. MemoryAccess (MsgExt t)) (write_slice G initrd addr m))
                          (\<lambda>m. Inr (addr, m))))"

text \<open>The first half of \<^verbatim>\<open>load_linux\<close> loads the kernel image, as an ELF file or else as a bzImage.\<close>

definition load_kernel_image ::
  "('f, 'c, 'm) loader \<Rightarrow> bytes \<Rightarrow> 'm \<Rightarrow> (error, KernelLoaderResult \<times> 'm) result" where
  "load_kernel_image L path m =
     and_then (with_err ImageIo (open_image L path)) (\<lambda>f.
       case elf_load L f HIMEM_START m of
         (Inr r, f, m) \<Rightarrow> Inr (r, m)
       | (Inl InvalidElfMagicNumber, f, m) \<Rightarrow>
           and_then (with_err ImageIo (seek_start L f)) (\<lambda>f.
             case bz_load L f HIMEM_START m of
               (Inl t, m) \<Rightarrow> Inl (KernelLoad (MsgExt t))
             | (Inr r, m) \<Rightarrow> Inr (r, m))
       | (Inl (LoadError t), f, m) \<Rightarrow> Inl (KernelLoad (MsgExt t)))"

text \<open>The initial ramdisk, with its address and length when there is one.\<close>

definition load_initrd ::
  "'m gmem \<Rightarrow> ('f, 'c, 'm) loader \<Rightarrow> bytes option \<Rightarrow> u64 \<Rightarrow> 'm \<Rightarrow>
   (error, (u64 \<times> u64) option \<times> 'm) result" where
  "load_initrd G L path kernel_end m =
     (case path of
       None \<Rightarrow> Inr (None, m)
     | Some p \<Rightarrow>
         and_then (with_err ImageIo (read_image L p)) (\<lambda>bs.
         and_then (place_initrd G kernel_end bs m) (\<lambda>(addr, m).
         Inr (Some (addr, of_nat (length bs)), m))))"

text \<open>The fields of the setup header that \<^verbatim>\<open>load_linux\<close> itself fills in.\<close>

definition set_boot_pointers :: "nat \<Rightarrow> (u64 \<times> u64) option \<Rightarrow> boot_params \<Rightarrow> boot_params" where
  "set_boot_pointers cmdline_len initrd p =
     (let h = (hdr p)\<lparr>cmd_line_ptr := ucast CMDLINE_START, cmdline_size := of_nat cmdline_len + 1\<rparr>;
          h = (case initrd of
                 None \<Rightarrow> h
               | Some (addr, len) \<Rightarrow> h\<lparr>ramdisk_image := ucast addr, ramdisk_size := ucast len\<rparr>)
      in p\<lparr>hdr := h\<rparr>)"

definition load_linux ::
  "'m gmem \<Rightarrow> ('f, 'c, 'm) loader \<Rightarrow> KernelBootConfig \<Rightarrow> u64 \<Rightarrow> 'm \<Rightarrow> (error, KernelEntry \<times> 'm) result" where
  "load_linux G L cfg rsdp m =
     and_then (load_kernel_image L (cfg_kernel cfg) m) (\<lambda>(kl, m).
     and_then (with_err (\<lambda>t. Cmdline (MsgExt t)) (cmdline_new L 4096)) (\<lambda>c.
     and_then (with_err (\<lambda>t. Cmdline (MsgExt t)) (insert_str L (cfg_cmdline cfg) c)) (\<lambda>c.
     and_then (with_err (\<lambda>t. KernelLoad (MsgExt t)) (load_cmdline L CMDLINE_START c m)) (\<lambda>m.
     and_then (load_initrd G L (cfg_initrd cfg) (kl_end kl) m) (\<lambda>(initrd, m).
     case kl_pvh kl of
       PvhEntryPresent entry \<Rightarrow>
         and_then (write_pvh_info G L rsdp initrd m) (\<lambda>m. Inr (Pvh entry PVH_INFO_START, m))
     | _ \<Rightarrow>
         and_then (build_boot_params G L m kl) (\<lambda>p.
         let p = set_boot_pointers (length (cfg_cmdline cfg)) initrd p
         in and_then (with_err (\<lambda>t. BootConfigure (MsgExt t)) (write_linux_params L p ZERO_PAGE_START m)) (\<lambda>m.
            and_then (linux64_entry kl) (\<lambda>rip. Inr (Linux64 rip, m)))))))))"

section \<open>The initial ramdisk\<close>

lemma unat_page_floor: "unat (w AND NOT 0xfff :: u64) = unat w div 4096 * 4096"
proof -
  have m: "NOT 0xfff = (NOT (mask 12) :: u64)" by (simp add: mask_eq_exp_minus_1)
  have "w AND NOT (mask 12) = push_bit 12 (drop_bit 12 w)"
    by (rule bit_word_eqI)
      (simp add: bit_and_iff bit_not_iff bit_mask_iff bit_push_bit_iff bit_drop_bit_eq; fastforce)
  then have e: "w AND NOT 0xfff = push_bit 12 (drop_bit 12 w)" by (simp only: m)
  have "unat w div 4096 * 4096 < 2 ^ 64"
    using unat_less_exp [of w] by (rule_tac le_less_trans [OF div_times_less_eq_dividend]) simp
  then show ?thesis
    unfolding e by (simp add: push_bit_eq_mult unat_word_ariths unat_drop_bit_eq drop_bit_eq_div)
qed

text \<open>Where a ramdisk of \<open>len\<close> bytes goes: the last page boundary from which it still fits.\<close>

definition initrd_floor :: "nat \<Rightarrow> nat \<Rightarrow> nat" where
  "initrd_floor ram len = (ram - len) div 4096 * 4096"

definition initrd_fits :: "nat \<Rightarrow> u64 \<Rightarrow> nat \<Rightarrow> bool" where
  "initrd_fits ram kernel_end len \<longleftrightarrow>
     0 < len \<and> len \<le> ram \<and> unat kernel_end \<le> initrd_floor ram len \<and> initrd_floor ram len < 2 ^ 32"

lemma initrd_floor_le: "len \<le> ram \<Longrightarrow> initrd_floor ram len + len \<le> ram"
  using div_times_less_eq_dividend [of "ram - len" 4096] by (simp add: initrd_floor_def)

lemma initrd_address:
  assumes laws: "gmem_laws G sz" and len: "len < 2 ^ 64"
  shows "unat (last_addr G m + 1) = sz m"
    and "unat (saturating_sub (last_addr G m + 1) (of_nat len) AND NOT 0xfff) = initrd_floor (sz m) len"
proof -
  have s: "0 < sz m" "sz m < 2 ^ 64" using gmem_size [OF laws, of m] by auto
  then show e: "unat (last_addr G m + 1) = sz m"
    using unat_add_small [of "last_addr G m" 1] gmem_last [OF laws, of m] by simp
  show "unat (saturating_sub (last_addr G m + 1) (of_nat len) AND NOT 0xfff) = initrd_floor (sz m) len"
    unfolding unat_page_floor unat_saturating_sub e initrd_floor_def unat_of_nat_small [OF len] ..
qed

lemma place_initrd_cases:
  assumes laws: "gmem_laws G sz" and len: "length bs < 2 ^ 64" and ok: "initrd_fits (sz m) ke (length bs)"
  obtains m' where "place_initrd G ke bs m = Inr (of_nat (initrd_floor (sz m) (length bs)), m')"
    "sz m' = sz m" "written G bs (initrd_floor (sz m) (length bs)) m m'"
proof -
  let ?a = "saturating_sub (last_addr G m + 1) (of_nat (length bs)) AND NOT 0xfff :: u64"
  let ?f = "initrd_floor (sz m) (length bs)"
  note ad = initrd_address [OF laws len, of m]
  have b: "bs \<noteq> []" "?f + length bs \<le> sz m" "sz m < 2 ^ 64" "unat ke \<le> ?f" "?f < 2 ^ 32"
    using ok gmem_size [OF laws, of m] by (auto simp: initrd_fits_def initrd_floor_le)
  obtain m' where m': "write_slice G bs ?a m = Inr m'" "sz m' = sz m" "written G bs (unat ?a) m m'"
    using gmem_write_ok [OF laws b(1), of ?a m] b(2) ad(2) by metis
  have nz: "(of_nat (length bs) :: u64) \<noteq> 0"
    using b(1) unat_of_nat_small [OF len] by (metis length_0_conv unat_0)
  have chk: "checked_add ?a (of_nat (length bs)) = Some (?a + of_nat (length bs))"
    and unat_end: "unat (?a + of_nat (length bs)) = ?f + length bs"
    using b ad(2) unat_add_small [of ?a "length bs"] unat_of_nat_small [OF len]
    by (auto simp: checked_add_def)
  have "\<not> ?a < ke" "\<not> ?a + of_nat (length bs) > last_addr G m + 1" "\<not> ?a > 0xffffffff"
    unfolding word_less_nat_alt unat_end ad using b by simp_all
  moreover have "of_nat ?f = ?a" unfolding ad(2) [symmetric] by simp
  ultimately have "place_initrd G ke bs m = Inr (of_nat ?f, m')"
    using nz chk m'(1) by (simp add: place_initrd_def Let_def)
  then show thesis using that m' ad(2) by simp
qed

lemma place_initrd_err:
  assumes laws: "gmem_laws G sz" and len: "length bs < 2 ^ 64" and no: "\<not> initrd_fits (sz m) ke (length bs)"
  shows "is_err (place_initrd G ke bs m)"
proof -
  let ?a = "saturating_sub (last_addr G m + 1) (of_nat (length bs)) AND NOT 0xfff :: u64"
  let ?f = "initrd_floor (sz m) (length bs)"
  note ad = initrd_address [OF laws len, of m]
  consider "length bs = 0" | "length bs > sz m" | "unat ke > ?f" | "?f \<ge> 2 ^ 32" "length bs \<le> sz m"
    using no unfolding initrd_fits_def by linarith
  then show ?thesis
  proof cases
    case 1
    then show ?thesis by (simp add: place_initrd_def)
  next
    case 2
    then have "?f = 0" by (simp add: initrd_floor_def)
    then have "?a = 0" using ad(2) by (metis unat_eq_0)
    moreover have "last_addr G m + 1 < of_nat (length bs)"
      unfolding word_less_nat_alt ad unat_of_nat_small [OF len] using 2 .
    ultimately show ?thesis by (simp add: place_initrd_def Let_def checked_add_def)
  next
    case 3
    then have "?a < ke" by (simp only: word_less_nat_alt ad)
    then show ?thesis by (simp add: place_initrd_def Let_def split: option.splits)
  next
    case 4
    then have "?a > 0xffffffff" unfolding word_less_nat_alt ad by simp
    then show ?thesis by (simp add: place_initrd_def Let_def split: option.splits)
  qed
qed

text \<open>
  C16. The initial ramdisk goes to the highest page boundary from which it still fits below the
  end of guest memory, and it is placed exactly if it is not empty, fits there, does not
  reach down into the kernel and its address fits the 32-bit field of the boot parameters.
  Then its bytes are in memory at the address returned and no other byte has changed.
  Otherwise the boot fails with an error.
\<close>

theorem place_initrd_spec:
  assumes "gmem_laws G sz" and "length bs < 2 ^ 64"
  shows "if initrd_fits (sz m) kernel_end (length bs)
    then \<exists>m'. place_initrd G kernel_end bs m = Inr (of_nat (initrd_floor (sz m) (length bs)), m') \<and>
      sz m' = sz m \<and> holds G (initrd_floor (sz m) (length bs)) bs m' \<and>
      same_outside G (initrd_floor (sz m) (length bs)) (initrd_floor (sz m) (length bs) + length bs) m m'
    else is_err (place_initrd G kernel_end bs m)"
proof (cases "initrd_fits (sz m) kernel_end (length bs)")
  case True
  then obtain m' where m': "sz m' = sz m" "written G bs (initrd_floor (sz m) (length bs)) m m'"
      "place_initrd G kernel_end bs m = Inr (of_nat (initrd_floor (sz m) (length bs)), m')"
    using place_initrd_cases [OF assms] by metis
  moreover have "initrd_floor (sz m) (length bs) + length bs \<le> 2 ^ 64"
    using True initrd_floor_le [of "length bs" "sz m"] gmem_size [OF assms(1), of m]
    by (simp add: initrd_fits_def)
  ultimately show ?thesis
    using True written_holds [OF m'(2)] written_same_outside [OF m'(2)] by auto
next
  case False
  then show ?thesis using place_initrd_err [OF assms] by simp
qed

theorem place_initrd_spec_witness:
  "(\<exists>m'. place_initrd flat_mem 0x1000 (replicate 5 7) \<lparr>flat_size = 0x4000, flat_data = (\<lambda>_. 1)\<rparr> =
      Inr (0x3000, m') \<and> holds flat_mem 0x3000 (replicate 5 7) m') \<and>
   is_err (place_initrd flat_mem 0x3001 (replicate 5 7) \<lparr>flat_size = 0x4000, flat_data = (\<lambda>_. 1)\<rparr>)"
  (is "?ok \<and> ?err")
proof
  let ?m = "\<lparr>flat_size = 0x4000, flat_data = (\<lambda>_. 1)\<rparr>"
  have f: "flat_bytes ?m = 0x4000" "length (replicate 5 (7 :: u8)) < 2 ^ 64"
    by (simp_all add: flat_bytes_def)
  show ?ok
    using place_initrd_spec [OF flat_mem_laws f(2), where m = ?m and kernel_end = "0x1000"]
    by (auto simp: f initrd_fits_def initrd_floor_def)
  show ?err
    using place_initrd_spec [OF flat_mem_laws f(2), where m = ?m and kernel_end = "0x3001"]
    by (simp add: f initrd_fits_def initrd_floor_def)
qed

section \<open>What the kernel is handed\<close>

text \<open>The layout of the PVH structures, as the Xen interface fixes it.\<close>

definition mm_bytes :: "hvm_memmap_table_entry \<Rightarrow> bytes" where
  "mm_bytes e = le_bytes 8 (mm_addr e) @ le_bytes 8 (mm_size e) @ le_bytes 4 (mm_type e) @
     le_bytes 4 (mm_reserved e)"

definition mod_bytes :: "hvm_modlist_entry \<Rightarrow> bytes" where
  "mod_bytes e = le_bytes 8 (mod_paddr e) @ le_bytes 8 (mod_size e) @
     le_bytes 8 (mod_cmdline_paddr e) @ le_bytes 8 (mod_reserved e)"

definition si_bytes :: "hvm_start_info \<Rightarrow> bytes" where
  "si_bytes s = le_bytes 4 (si_magic s) @ le_bytes 4 (si_version s) @ le_bytes 4 (si_flags s) @
     le_bytes 4 (nr_modules s) @ le_bytes 8 (modlist_paddr s) @ le_bytes 8 (cmdline_paddr s) @
     le_bytes 8 (rsdp_paddr s) @ le_bytes 8 (memmap_paddr s) @ le_bytes 4 (memmap_entries s) @
     le_bytes 4 (si_reserved s)"

lemma pvh_lengths [simp]:
  "length (mm_bytes e) = 24" "length (mod_bytes d) = 32" "length (si_bytes s) = 56"
  by (simp_all add: mm_bytes_def mod_bytes_def si_bytes_def)

text \<open>
  The documented behaviour of the loaders: a kernel ends above the start of high memory it
  was given, no call changes the size of guest memory, a command line buffer of \<open>n\<close> bytes
  holds what was inserted and room for its end, and the writers put the structures where
  they are told. \<open>ct\<close> reads a buffer and \<open>pb\<close> is the layout of \<^verbatim>\<open>boot_params\<close>, one page.
\<close>

definition image_laws :: "('m \<Rightarrow> nat) \<Rightarrow> ('f, 'c, 'm) loader \<Rightarrow> bool" where
  "image_laws sz L \<longleftrightarrow>
     (\<forall>f a m r f' m'. elf_load L f a m = (r, f', m') \<longrightarrow>
        sz m' = sz m \<and> (\<forall>k. r = Inr k \<longrightarrow> a \<le> kl_end k)) \<and>
     (\<forall>f a m r m'. bz_load L f a m = (r, m') \<longrightarrow>
        sz m' = sz m \<and> (\<forall>k. r = Inr k \<longrightarrow> a \<le> kl_end k)) \<and>
     (\<forall>p bs. read_image L p = Inr bs \<longrightarrow> length bs < 2 ^ 64)"

definition cmdline_laws ::
  "'m gmem \<Rightarrow> ('m \<Rightarrow> nat) \<Rightarrow> ('c \<Rightarrow> bytes) \<Rightarrow> ('f, 'c, 'm) loader \<Rightarrow> bool" where
  "cmdline_laws G sz ct L \<longleftrightarrow>
     (\<forall>n c s c'. cmdline_new L n = Inr c \<longrightarrow> insert_str L s c = Inr c' \<longrightarrow> ct c' = s \<and> length s < n) \<and>
     (\<forall>a c m m'. load_cmdline L a c m = Inr m' \<longrightarrow>
        sz m' = sz m \<and> written G (ct c @ [0]) (unat a) m m')"

definition params_laws ::
  "'m gmem \<Rightarrow> ('m \<Rightarrow> nat) \<Rightarrow> (boot_params \<Rightarrow> bytes) \<Rightarrow> ('f, 'c, 'm) loader \<Rightarrow> bool" where
  "params_laws G sz pb L \<longleftrightarrow>
     e820_entries (params_default L) = 0 \<and> length (e820_table (params_default L)) = 128 \<and>
     (\<forall>p. length (pb p) = 4096) \<and>
     (\<forall>p a m m'. write_linux_params L p a m = Inr m' \<longrightarrow>
        sz m' = sz m \<and> written G (pb p) (unat a) m m') \<and>
     (\<forall>s a mm b md m m'. write_pvh_params L s a (mm, b) md m = Inr m' \<longrightarrow> sz m' = sz m \<and>
        (\<exists>m1 m2. written G (si_bytes s) (unat a) m m1 \<and>
           written G (concat (map mm_bytes mm)) (unat b) m1 m2 \<and>
           (case md of None \<Rightarrow> m' = m2
            | Some (ms, c) \<Rightarrow> written G (concat (map mod_bytes ms)) (unat c) m2 m')))"

text \<open>Guest RAM of \<open>ram\<close> bytes as it is described: all of it but the hole below one MiB.\<close>

definition ram_map :: "nat \<Rightarrow> (nat \<times> nat \<times> u32) list" where
  "ram_map ram = [(0, 0x9fc00, E820_RAM), (0x100000, ram - 0x100000, E820_RAM)]"

definition linux_described :: "nat \<Rightarrow> nat \<Rightarrow> (u64 \<times> u64) option \<Rightarrow> boot_params \<Rightarrow> bool" where
  "linux_described ram clen initrd p \<longleftrightarrow>
     unat (cmd_line_ptr (hdr p)) = 0x20000 \<and> unat (cmdline_size (hdr p)) = clen + 1 \<and>
     unat (e820_entries p) = 2 \<and>
     map (\<lambda>e. (unat (e820_addr e), unat (e820_size e), e820_type e)) (take 2 (e820_table p)) = ram_map ram \<and>
     (case initrd of None \<Rightarrow> True
      | Some (a, n) \<Rightarrow> unat (ramdisk_image (hdr p)) = unat a \<and> unat (ramdisk_size (hdr p)) = unat n)"

definition pvh_described ::
  "'m gmem \<Rightarrow> nat \<Rightarrow> u64 \<Rightarrow> (u64 \<times> u64) option \<Rightarrow> 'm \<Rightarrow> bool" where
  "pvh_described G ram rsdp initrd m \<longleftrightarrow>
     (\<exists>s mm. holds G 0x6000 (si_bytes s) m \<and> si_magic s = XEN_HVM_START_MAGIC_VALUE \<and>
        unat (cmdline_paddr s) = 0x20000 \<and> rsdp_paddr s = rsdp \<and>
        unat (memmap_paddr s) = 0x6100 \<and> unat (memmap_entries s) = length mm \<and>
        holds G 0x6100 (concat (map mm_bytes mm)) m \<and>
        map (\<lambda>e. (unat (mm_addr e), unat (mm_size e), mm_type e)) mm = ram_map ram \<and>
        (case initrd of None \<Rightarrow> nr_modules s = 0
         | Some (a, n) \<Rightarrow> nr_modules s = 1 \<and> unat (modlist_paddr s) = 0x6200 \<and>
             holds G 0x6200 (mod_bytes \<lparr>mod_paddr = a, mod_size = n, mod_cmdline_paddr = 0,
               mod_reserved = 0\<rparr>) m))"

definition handed_over ::
  "'m gmem \<Rightarrow> (boot_params \<Rightarrow> bytes) \<Rightarrow> nat \<Rightarrow> u64 \<Rightarrow> nat \<Rightarrow> (u64 \<times> u64) option \<Rightarrow> KernelEntry \<Rightarrow> 'm \<Rightarrow> bool" where
  "handed_over G pb ram rsdp clen initrd entry m \<longleftrightarrow>
     (case entry of
       Linux64 _ \<Rightarrow> \<exists>p. holds G 0x7000 (pb p) m \<and> linux_described ram clen initrd p
     | Pvh _ info \<Rightarrow> unat info = 0x6000 \<and> pvh_described G ram rsdp initrd m)"

definition initrd_loaded ::
  "'m gmem \<Rightarrow> ('m \<Rightarrow> nat) \<Rightarrow> ('f, 'c, 'm) loader \<Rightarrow> bytes option \<Rightarrow> (u64 \<times> u64) option \<Rightarrow> 'm \<Rightarrow> bool" where
  "initrd_loaded G sz L path initrd m \<longleftrightarrow>
     (case (path, initrd) of
       (None, None) \<Rightarrow> True
     | (Some p, Some (a, n)) \<Rightarrow> \<exists>bs. read_image L p = Inr bs \<and> unat n = length bs \<and> 4096 dvd unat a \<and>
         0x100000 \<le> unat a \<and> unat a < 2 ^ 32 \<and> unat a + length bs \<le> sz m \<and> holds G (unat a) bs m
     | _ \<Rightarrow> False)"

lemma load_kernel_image_ok:
  assumes "image_laws sz L" and "load_kernel_image L path m = Inr (kl, m')"
  shows "sz m' = sz m" and "HIMEM_START \<le> kl_end kl"
proof -
  from assms(2) obtain f where f: "open_image L path = Inr f"
    by (auto simp: load_kernel_image_def and_then_Inr with_err_Inr)
  obtain r f1 m1 where e: "elf_load L f HIMEM_START m = (r, f1, m1)" by (rule prod_cases3)
  then have e1: "sz m1 = sz m" "\<And>k. r = Inr k \<Longrightarrow> HIMEM_START \<le> kl_end k"
    using assms(1) unfolding image_laws_def by blast+
  have "sz m' = sz m \<and> HIMEM_START \<le> kl_end kl"
  proof (cases r)
    case (Inr k)
    with assms(2) f e e1 show ?thesis by (simp add: load_kernel_image_def)
  next
    case (Inl err)
    with assms(2) f e obtain f2 where s: "err = InvalidElfMagicNumber" "seek_start L f1 = Inr f2"
      by (auto simp: load_kernel_image_def and_then_Inr with_err_Inr split: load_error.splits)
    obtain r2 m2 where z: "bz_load L f2 HIMEM_START m1 = (r2, m2)" by (rule prod.exhaust)
    then have "sz m2 = sz m1" "\<And>k. r2 = Inr k \<Longrightarrow> HIMEM_START \<le> kl_end k"
      using assms(1) unfolding image_laws_def by blast+
    then show ?thesis
      using assms(2) f e e1(1) Inl s z by (cases r2) (simp_all add: load_kernel_image_def)
  qed
  then show "sz m' = sz m" "HIMEM_START \<le> kl_end kl" by simp_all
qed

lemma load_initrd_ok:
  assumes laws: "gmem_laws G sz" and il: "image_laws sz L" and ke: "HIMEM_START \<le> kernel_end"
    and ok: "load_initrd G L path kernel_end m = Inr (initrd, m')"
  shows "sz m' = sz m \<and> same_outside G 0x100000 (2 ^ 64) m m' \<and> initrd_loaded G sz L path initrd m'"
proof (cases path)
  case None
  then show ?thesis using ok by (auto simp: load_initrd_def initrd_loaded_def)
next
  case (Some p)
  then obtain bs addr where bs: "read_image L p = Inr bs" and
      pl: "place_initrd G kernel_end bs m = Inr (addr, m')" and i: "initrd = Some (addr, of_nat (length bs))"
    using ok by (auto simp: load_initrd_def and_then_Inr with_err_Inr)
  have len: "length bs < 2 ^ 64" using il bs unfolding image_laws_def by blast
  have fits: "initrd_fits (sz m) kernel_end (length bs)"
    using place_initrd_err [OF laws len] pl by (metis is_err_simps(2))
  let ?f = "initrd_floor (sz m) (length bs)"
  from place_initrd_cases [OF laws len fits] pl
  have a: "addr = of_nat ?f" "sz m' = sz m" and w: "written G bs ?f m m'"
    by (metis Inr_inject prod.inject)+
  have f: "unat kernel_end \<le> ?f" "?f < 2 ^ 32" "?f + length bs \<le> sz m" "sz m < 2 ^ 64" "4096 dvd ?f"
    using fits gmem_size [OF laws, of m]
    by (auto simp: initrd_fits_def initrd_floor_le) (simp add: initrd_floor_def)
  have k: "0x100000 \<le> ?f" using ke f(1) by (simp add: const_defs word_le_nat_alt)
  have ua: "unat addr = ?f" unfolding a(1) using f by (intro unat_of_nat_small) simp
  have h: "holds G ?f bs m'" using f by (intro written_holds [OF w]) simp
  have "same_outside G 0x100000 (2 ^ 64) m m'"
    using k f by (intro same_outside_mono [OF written_same_outside [OF w]]) simp_all
  then show ?thesis
    using Some i bs a(2) f k h unat_of_nat_small [OF len] by (simp add: initrd_loaded_def ua)
qed

lemma unat_ram_rest:
  assumes "gmem_laws G sz" and "\<not> last_addr G m < HIMEM_START"
  shows "unat (last_addr G m - HIMEM_START + 1) = sz m - 0x100000"
proof -
  have l: "unat (last_addr G m) = sz m - 1" "0 < sz m" "sz m < 2 ^ 64"
    using gmem_last [OF assms(1)] gmem_size [OF assms(1), of m] by auto
  have h: "HIMEM_START \<le> last_addr G m" "0x100000 \<le> unat (last_addr G m)"
    using assms(2) by (simp_all add: const_defs word_le_nat_alt word_less_nat_alt)
  have "unat (last_addr G m - HIMEM_START) = sz m - 1 - 0x100000"
    using h(1) l(1) by (simp add: unat_sub word_le_nat_alt const_defs)
  then show ?thesis
    using unat_add_small [of "last_addr G m - HIMEM_START" 1] l h(2) by simp
qed

lemma two_e820_entries:
  assumes "e820_entries p = 0" and "2 \<le> length (e820_table p)"
    and "add_e820_entry p a1 n1 t1 = Inr p1" and "add_e820_entry p1 a2 n2 t2 = Inr p2"
  shows "e820_entries p2 = 2"
    and "take 2 (e820_table p2) = [\<lparr>e820_addr = a1, e820_size = n1, e820_type = t1\<rparr>,
      \<lparr>e820_addr = a2, e820_size = n2, e820_type = t2\<rparr>]"
proof -
  obtain x y t where t: "e820_table p = x # y # t"
    using assms(2) by (cases "e820_table p"; cases "tl (e820_table p)") auto
  have p1: "p1 = p\<lparr>e820_table := \<lparr>e820_addr = a1, e820_size = n1, e820_type = t1\<rparr> # y # t, e820_entries := 1\<rparr>"
    using assms(1,3) t by (simp add: add_e820_entry_def)
  show "e820_entries p2 = 2"
    and "take 2 (e820_table p2) = [\<lparr>e820_addr = a1, e820_size = n1, e820_type = t1\<rparr>,
      \<lparr>e820_addr = a2, e820_size = n2, e820_type = t2\<rparr>]"
    using assms(4) by (auto simp: p1 add_e820_entry_def Let_def)
qed

lemma boot_params_header:
  "\<exists>h. build_boot_params G L m kl =
     and_then (add_e820_entry ((params_default L)\<lparr>hdr := h\<rparr>) 0 EBDA_START E820_RAM) (\<lambda>p.
       if last_addr G m < HIMEM_START
       then Inl (GuestMemory (Msg ''guest memory is smaller than high memory start''))
       else add_e820_entry p HIMEM_START (last_addr G m - HIMEM_START + 1) E820_RAM)"
proof -
  define h where "h = (case kl_setup_header kl of Some h \<Rightarrow> h | None \<Rightarrow> fill_elf_setup_header (hdr (params_default L)))"
  show ?thesis
    by (rule exI [where x = "if type_of_loader h = 0 then h\<lparr>type_of_loader := KERNEL_LOADER_OTHER\<rparr> else h"])
      (simp add: build_boot_params_def Let_def h_def split: option.split)
qed

lemma build_boot_params_ok:
  assumes laws: "gmem_laws G sz" "params_laws G sz pb L" and ok: "build_boot_params G L m kl = Inr p"
    and small: "sz m \<le> 0xd0000000" "clen < 4096"
    and i: "\<And>a n. initrd = Some (a, n) \<Longrightarrow> unat a < 2 ^ 32 \<and> unat n \<le> sz m"
  shows "linux_described (sz m) clen initrd (set_boot_pointers clen initrd p)"
proof -
  have d: "e820_entries (params_default L) = 0" "length (e820_table (params_default L)) = 128"
    using laws(2) by (simp_all add: params_laws_def)
  obtain p0 p1 where p0: "e820_entries p0 = 0" "length (e820_table p0) = 128"
      and p1: "add_e820_entry p0 0 EBDA_START E820_RAM = Inr p1"
      and nl: "\<not> last_addr G m < HIMEM_START"
      and p2: "add_e820_entry p1 HIMEM_START (last_addr G m - HIMEM_START + 1) E820_RAM = Inr p"
  proof -
    obtain h where "Inr p =
        and_then (add_e820_entry ((params_default L)\<lparr>hdr := h\<rparr>) 0 EBDA_START E820_RAM) (\<lambda>p.
          if last_addr G m < HIMEM_START
          then Inl (GuestMemory (Msg ''guest memory is smaller than high memory start''))
          else add_e820_entry p HIMEM_START (last_addr G m - HIMEM_START + 1) E820_RAM)"
      using boot_params_header [of G L m kl] unfolding ok by blast
    then show thesis
      using d that [of "(params_default L)\<lparr>hdr := h\<rparr>"]
      by (auto dest!: sym [of "Inr p"] simp: and_then_Inr split: if_splits)
  qed
  note p = two_e820_entries [OF p0(1) _ p1 p2]
  have m: "map (\<lambda>e. (unat (e820_addr e), unat (e820_size e), e820_type e)) (take 2 (e820_table p)) = ram_map (sz m)"
    using p(2) p0(2) unat_ram_rest [OF laws(1) nl] by (simp add: ram_map_def) (simp add: const_defs)
  have c: "unat (of_nat clen + 1 :: u32) = clen + 1"
    using small(2) by (simp add: unat_word_ariths unat_of_nat)
  have "unat (ucast a :: u32) = unat a" "unat (ucast n :: u32) = unat n" if "initrd = Some (a, n)" for a n
    using i [OF that] small(1) by (simp_all add: unsigned_ucast_eq take_bit_nat_eq_self)
  then show ?thesis
    using p(1) p0(2) m c
    by (auto simp: linux_described_def set_boot_pointers_def Let_def const_defs split: option.splits)
qed

lemma write_pvh_params_law:
  assumes "params_laws G sz pb L" and "write_pvh_params L s a (mm, b) md m = Inr m'"
  obtains m1 m2 where "sz m' = sz m" "written G (si_bytes s) (unat a) m m1"
    "written G (concat (map mm_bytes mm)) (unat b) m1 m2"
    "case md of None \<Rightarrow> m' = m2 | Some (ms, c) \<Rightarrow> written G (concat (map mod_bytes ms)) (unat c) m2 m'"
  using assms unfolding params_laws_def by blast

lemma write_pvh_info_ok:
  assumes laws: "gmem_laws G sz" "params_laws G sz pb L" and ok: "write_pvh_info G L rsdp initrd m = Inr m'"
  shows "sz m' = sz m \<and> same_outside G 0x6000 0x7000 m m' \<and> pvh_described G (sz m) rsdp initrd m'"
proof -
  have nl: "\<not> last_addr G m < HIMEM_START"
    using ok by (auto simp: write_pvh_info_def split: if_splits)
  define mm where "mm =
    [\<lparr>mm_addr = 0, mm_size = EBDA_START, mm_type = E820_RAM, mm_reserved = 0\<rparr>,
     \<lparr>mm_addr = HIMEM_START, mm_size = last_addr G m - HIMEM_START + 1, mm_type = E820_RAM, mm_reserved = 0\<rparr>]"
  define ms where "ms = (case initrd of None \<Rightarrow> None
    | Some (a, n) \<Rightarrow> Some ([\<lparr>mod_paddr = a, mod_size = n, mod_cmdline_paddr = 0, mod_reserved = 0\<rparr>], PVH_MODLIST_START))"
  define s where "s = \<lparr>si_magic = XEN_HVM_START_MAGIC_VALUE, si_version = 1, si_flags = 0,
    nr_modules = (if initrd = None then 0 else 1),
    modlist_paddr = (if initrd = None then 0 else PVH_MODLIST_START), cmdline_paddr = CMDLINE_START,
    rsdp_paddr = rsdp, memmap_paddr = PVH_MEMMAP_START, memmap_entries = 2, si_reserved = 0\<rparr>"
  have "write_pvh_params L s PVH_INFO_START (mm, PVH_MEMMAP_START) ms m = Inr m'"
    using ok nl
    by (auto simp: write_pvh_info_def Let_def s_def mm_def ms_def with_err_Inr split: option.splits)
  from write_pvh_params_law [OF laws(2) this] obtain m1 m2 where w: "sz m' = sz m"
      "written G (si_bytes s) 0x6000 m m1" "written G (concat (map mm_bytes mm)) 0x6100 m1 m2"
      and w3: "case ms of None \<Rightarrow> m' = m2 | Some (xs, c) \<Rightarrow> written G (concat (map mod_bytes xs)) (unat c) m2 m'"
    by (auto simp: const_defs)
  have w3: "initrd = None \<Longrightarrow> m' = m2"
      "initrd = Some (a, n) \<Longrightarrow> written G (mod_bytes \<lparr>mod_paddr = a, mod_size = n, mod_cmdline_paddr = 0,
         mod_reserved = 0\<rparr>) 0x6200 m2 m'" for a n
    using w3 by (auto simp: ms_def const_defs)
  have o3: "same_outside G 0x6200 0x6220 m2 m'"
    by (cases initrd) (use w3 written_same_outside [OF w3(2)] in auto)
  have len: "length (concat (map mm_bytes mm)) = 48" by (simp add: mm_def)
  have o: "same_outside G 0x6000 0x6038 m m1" "same_outside G 0x6100 0x6130 m1 m2"
    using written_same_outside [OF w(2)] written_same_outside [OF w(3)] len by simp_all
  have "same_outside G 0x6000 0x7000 m m'"
    using same_outside_trans [OF same_outside_trans [OF o] o3] by (rule same_outside_mono) auto
  moreover have "holds G 0x6000 (si_bytes s) m'"
    by (intro holds_same_outside [OF o3] holds_same_outside [OF o(2)] written_holds [OF w(2)]) simp_all
  moreover have "holds G 0x6100 (concat (map mm_bytes mm)) m'"
    by (intro holds_same_outside [OF o3] written_holds [OF w(3)]) (simp_all add: len)
  moreover have "holds G 0x6200 (mod_bytes \<lparr>mod_paddr = a, mod_size = n, mod_cmdline_paddr = 0,
      mod_reserved = 0\<rparr>) m'" if "initrd = Some (a, n)" for a n
    by (rule written_holds [OF w3(2) [OF that]]) simp
  moreover have "map (\<lambda>e. (unat (mm_addr e), unat (mm_size e), mm_type e)) mm = ram_map (sz m)"
    unfolding mm_def using unat_ram_rest [OF laws(1) nl] by (simp add: ram_map_def) (simp add: const_defs)
  ultimately have "pvh_described G (sz m) rsdp initrd m'"
    unfolding pvh_described_def
    by (intro exI [of _ s] exI [of _ mm]) (auto simp: s_def mm_def const_defs split: option.splits)
  then show ?thesis using w(1) \<open>same_outside G 0x6000 0x7000 m m'\<close> by simp
qed

lemma load_linux_steps:
  assumes "load_linux G L cfg rsdp m = Inr (entry, m')"
  obtains kl m1 c c' m2 initrd m3 where "load_kernel_image L (cfg_kernel cfg) m = Inr (kl, m1)"
    "cmdline_new L 4096 = Inr c" "insert_str L (cfg_cmdline cfg) c = Inr c'"
    "load_cmdline L CMDLINE_START c' m1 = Inr m2"
    "load_initrd G L (cfg_initrd cfg) (kl_end kl) m2 = Inr (initrd, m3)"
    "(\<exists>e. entry = Pvh e PVH_INFO_START \<and> write_pvh_info G L rsdp initrd m3 = Inr m') \<or>
     (\<exists>e p. entry = Linux64 e \<and> build_boot_params G L m3 kl = Inr p \<and>
        write_linux_params L (set_boot_pointers (length (cfg_cmdline cfg)) initrd p) ZERO_PAGE_START m3 = Inr m')"
proof -
  from assms obtain kl m1 c c' m2 initrd m3 where
    s: "load_kernel_image L (cfg_kernel cfg) m = Inr (kl, m1)"
      "cmdline_new L 4096 = Inr c" "insert_str L (cfg_cmdline cfg) c = Inr c'"
      "load_cmdline L CMDLINE_START c' m1 = Inr m2"
      "load_initrd G L (cfg_initrd cfg) (kl_end kl) m2 = Inr (initrd, m3)"
    unfolding load_linux_def by (auto simp: and_then_Inr with_err_Inr)
  have "(\<exists>e. entry = Pvh e PVH_INFO_START \<and> write_pvh_info G L rsdp initrd m3 = Inr m') \<or>
     (\<exists>e p. entry = Linux64 e \<and> build_boot_params G L m3 kl = Inr p \<and>
        write_linux_params L (set_boot_pointers (length (cfg_cmdline cfg)) initrd p) ZERO_PAGE_START m3 = Inr m')"
    using assms by (cases "kl_pvh kl") (auto simp: load_linux_def s and_then_Inr with_err_Inr Let_def)
  with s that show thesis by blast
qed

lemma params_step:
  assumes laws: "gmem_laws G sz" "params_laws G sz pb L" and small: "sz m \<le> 0xd0000000" "clen < 4096"
    and i: "initrd_loaded G sz L path initrd m"
    and st: "(\<exists>e. entry = Pvh e PVH_INFO_START \<and> write_pvh_info G L rsdp initrd m = Inr m') \<or>
     (\<exists>e p. entry = Linux64 e \<and> build_boot_params G L m kl = Inr p \<and>
        write_linux_params L (set_boot_pointers clen initrd p) ZERO_PAGE_START m = Inr m')"
  shows "sz m' = sz m \<and> same_outside G 0x6000 0x8000 m m' \<and> handed_over G pb (sz m) rsdp clen initrd entry m'"
  using st
proof (elim disjE exE conjE)
  fix e assume "entry = Pvh e PVH_INFO_START" "write_pvh_info G L rsdp initrd m = Inr m'"
  with write_pvh_info_ok [OF laws, of rsdp initrd m m'] show ?thesis
    by (auto simp: handed_over_def const_defs elim: same_outside_mono)
next
  fix e p assume a: "entry = Linux64 e" "build_boot_params G L m kl = Inr p"
    "write_linux_params L (set_boot_pointers clen initrd p) ZERO_PAGE_START m = Inr m'"
  let ?p = "set_boot_pointers clen initrd p"
  have w: "sz m' = sz m" "written G (pb ?p) (unat ZERO_PAGE_START) m m'" and n: "length (pb ?p) = 4096"
    using laws(2) a(3) unfolding params_laws_def by blast+
  then have w2: "written G (pb ?p) 0x7000 m m'" by (simp add: const_defs)
  have "unat a < 2 ^ 32 \<and> unat n \<le> sz m" if "initrd = Some (a, n)" for a n
    using i that by (auto simp: initrd_loaded_def split: option.splits)
  from build_boot_params_ok [OF laws a(2) small this]
  have "linux_described (sz m) clen initrd ?p" .
  moreover have "holds G 0x7000 (pb ?p) m'" by (rule written_holds [OF w2]) (simp add: n)
  moreover have "same_outside G 0x6000 0x8000 m m'"
    by (rule same_outside_mono [OF written_same_outside [OF w2]]) (simp_all add: n)
  ultimately show ?thesis using w(1) a(1) by (auto simp: handed_over_def)
qed

lemma initrd_loaded_mono:
  assumes "initrd_loaded G sz L path initrd m" and "same_outside G lo hi m m'" and "hi \<le> 0x100000"
    and "sz m' = sz m" and "sz m < 2 ^ 64"
  shows "initrd_loaded G sz L path initrd m'"
proof (cases "path = None \<or> initrd = None")
  case True
  with assms(1) show ?thesis by (auto simp: initrd_loaded_def split: option.splits)
next
  case False
  then obtain p a n where pa: "path = Some p" "initrd = Some (a, n)" by (metis not_None_eq surj_pair)
  with assms(1) obtain bs where b: "read_image L p = Inr bs" "unat n = length bs" "4096 dvd unat a"
      "0x100000 \<le> unat a" "unat a < 2 ^ 32" "unat a + length bs \<le> sz m" "holds G (unat a) bs m"
    by (auto simp: initrd_loaded_def)
  have "holds G (unat a) bs m'"
    by (rule holds_same_outside [OF assms(2) _ _ b(7)]) (use b assms in auto)
  with pa b assms(4) show ?thesis by (auto simp: initrd_loaded_def)
qed


text \<open>A loader over the concrete memory, for a bzImage that is already in place.\<close>

definition sim_params :: "boot_params \<Rightarrow> bytes" where
  "sim_params p = le_bytes 4 (cmd_line_ptr (hdr p)) @ le_bytes 4 (ramdisk_image (hdr p)) @
     le_bytes 4 (ramdisk_size (hdr p)) @ replicate 4084 0"

definition sim_header :: setup_header where
  "sim_header = \<lparr>boot_flag = 0, hdr_header = 0, hdr_version = 0, type_of_loader = 0, loadflags = 0,
     ramdisk_image = 0, ramdisk_size = 0, cmd_line_ptr = 0, kernel_alignment = 0, xloadflags = 0,
     cmdline_size = 0, hdr_other = []\<rparr>"

definition sim_loader :: "PvhBootCapability \<Rightarrow> (unit, nat \<times> bytes, flat) loader" where
  "sim_loader cap =
     \<lparr>open_image = (\<lambda>p. Inr ()), read_image = (\<lambda>p. Inr [1, 2, 3]), seek_start = Inr,
      elf_load = (\<lambda>f a m. (Inl InvalidElfMagicNumber, f, m)),
      bz_load = (\<lambda>f a m. (Inr \<lparr>kl_load = a, kl_end = a, kl_setup_header = Some sim_header, kl_pvh = cap\<rparr>, m)),
      cmdline_new = (\<lambda>n. Inr (n, [])),
      insert_str = (\<lambda>s c. if length s < fst c then Inr (fst c, s) else Inl ''too large''),
      load_cmdline = (\<lambda>a c m. write_slice flat_mem (snd c @ [0]) a m),
      params_default = \<lparr>e820_entries = 0,
        e820_table = replicate 128 \<lparr>e820_addr = 0, e820_size = 0, e820_type = 0\<rparr>,
        hdr = sim_header, params_other = []\<rparr>,
      write_linux_params = (\<lambda>p a m. write_slice flat_mem (sim_params p) a m),
      write_pvh_params = (\<lambda>s a (mm, b) md m.
        and_then (write_slice flat_mem (si_bytes s) a m) (\<lambda>m.
        and_then (write_slice flat_mem (concat (map mm_bytes mm)) b m) (\<lambda>m.
        case md of None \<Rightarrow> Inr m
        | Some (ms, c) \<Rightarrow> write_slice flat_mem (concat (map mod_bytes ms)) c m)))\<rparr>"

lemma flat_write_inv:
  "write_slice flat_mem bs a m = Inr m' \<Longrightarrow>
     flat_bytes m' = flat_bytes m \<and> written flat_mem bs (unat a) m m'"
  by (auto simp: flat_mem_def flat_write_def flat_clip_def flat_bytes_def written_def split: if_splits)

lemma flat_write_total:
  "unat a + length bs \<le> flat_bytes m \<Longrightarrow> \<exists>m'. write_slice flat_mem bs a m = Inr m' \<and> flat_bytes m' = flat_bytes m"
  by (auto simp: flat_mem_def flat_write_def flat_clip_def flat_bytes_def split: if_splits)

lemma sim_loader_laws:
  "image_laws flat_bytes (sim_loader cap)"
  "cmdline_laws flat_mem flat_bytes snd (sim_loader cap)"
  "params_laws flat_mem flat_bytes sim_params (sim_loader cap)"
proof -
  show "image_laws flat_bytes (sim_loader cap)" by (auto simp: image_laws_def sim_loader_def)
  show "cmdline_laws flat_mem flat_bytes snd (sim_loader cap)"
    unfolding cmdline_laws_def by (auto simp: sim_loader_def dest: flat_write_inv split: if_splits)
  show "params_laws flat_mem flat_bytes sim_params (sim_loader cap)"
    unfolding params_laws_def
    by (auto simp: sim_loader_def sim_params_def and_then_Inr dest!: flat_write_inv split: option.splits)
qed

lemma build_boot_params_total:
  assumes "params_laws G sz pb L" and "\<not> last_addr G m < HIMEM_START"
  shows "\<exists>p. build_boot_params G L m kl = Inr p"
proof -
  have d: "e820_entries (params_default L) = 0" "length (e820_table (params_default L)) = 128"
    using assms(1) by (simp_all add: params_laws_def)
  obtain h where h: "build_boot_params G L m kl =
      and_then (add_e820_entry ((params_default L)\<lparr>hdr := h\<rparr>) 0 EBDA_START E820_RAM) (\<lambda>p.
        if last_addr G m < HIMEM_START
        then Inl (GuestMemory (Msg ''guest memory is smaller than high memory start''))
        else add_e820_entry p HIMEM_START (last_addr G m - HIMEM_START + 1) E820_RAM)"
    using boot_params_header [of G L m kl] by blast
  show ?thesis unfolding h using assms(2) d by (simp add: add_e820_entry_def)
qed

lemma sim_load_linux:
  assumes fb: "flat_bytes m = 0x200000" and n: "length cl < 4096"
  shows "\<exists>e m'. load_linux flat_mem (sim_loader PvhEntryNotPresent) \<lparr>cfg_kernel = k, cfg_initrd = Some p, cfg_cmdline = cl\<rparr>
    rsdp m = Inr (e, m')"
proof -
  obtain m1 where m1: "write_slice flat_mem (cl @ [0]) CMDLINE_START m = Inr m1" "flat_bytes m1 = 0x200000"
    using flat_write_total [of CMDLINE_START "cl @ [0]" m] fb n by (auto simp: const_defs)
  have fits: "initrd_fits (flat_bytes m1) HIMEM_START (length [1, 2, 3 :: u8])"
    by (simp add: m1(2) initrd_fits_def initrd_floor_def const_defs)
  obtain m2 where
    m2: "place_initrd flat_mem HIMEM_START [1, 2, 3] m1 = Inr (of_nat (initrd_floor (flat_bytes m1) (length [1, 2, 3 :: u8])), m2)"
      "flat_bytes m2 = flat_bytes m1" "written flat_mem [1, 2, 3] (initrd_floor (flat_bytes m1) (length [1, 2, 3 :: u8])) m1 m2"
    by (rule place_initrd_cases [OF flat_mem_laws _ fits]) simp
  define a :: u64 where "a = of_nat (initrd_floor (flat_bytes m1) (length [1, 2, 3 :: u8]))"
  note m2 = m2(1) [folded a_def] m2(2) [unfolded m1(2)]
  have l: "\<not> last_addr flat_mem m2 < HIMEM_START"
    using gmem_last [OF flat_mem_laws, of m2] m2(2) by (simp add: word_less_nat_alt const_defs)
  have p: "\<exists>p. build_boot_params flat_mem (sim_loader PvhEntryNotPresent) m2 kl = Inr p" for kl
    by (rule build_boot_params_total [OF sim_loader_laws(3) l])
  obtain p where p: "build_boot_params flat_mem (sim_loader PvhEntryNotPresent) m2
      \<lparr>kl_load = HIMEM_START, kl_end = HIMEM_START, kl_setup_header = Some sim_header,
       kl_pvh = PvhEntryNotPresent\<rparr> = Inr p"
    using p by blast
  obtain m3 where "write_slice flat_mem (sim_params (set_boot_pointers (length cl) (Some (a, 3)) p))
      ZERO_PAGE_START m2 = Inr m3"
    using flat_write_total [of ZERO_PAGE_START "sim_params (set_boot_pointers (length cl) (Some (a, 3)) p)" m2] m2(2)
    by (auto simp: sim_params_def const_defs)
  then have z: "write_linux_params (sim_loader PvhEntryNotPresent)
      (set_boot_pointers (length cl) (Some (a, 3)) p) ZERO_PAGE_START m2 = Inr m3"
    by (simp add: sim_loader_def)
  have i: "load_kernel_image (sim_loader PvhEntryNotPresent) k m =
      Inr (\<lparr>kl_load = HIMEM_START, kl_end = HIMEM_START, kl_setup_header = Some sim_header,
        kl_pvh = PvhEntryNotPresent\<rparr>, m)"
    by (simp add: load_kernel_image_def sim_loader_def)
  have c: "load_cmdline (sim_loader PvhEntryNotPresent) CMDLINE_START (4096, cl) m = Inr m1"
      "cmdline_new (sim_loader PvhEntryNotPresent) 4096 = Inr (4096, [])"
      "insert_str (sim_loader PvhEntryNotPresent) cl (4096, []) = Inr (4096, cl)"
      "load_initrd flat_mem (sim_loader PvhEntryNotPresent) (Some p') HIMEM_START m1 = Inr (Some (a, 3), m2)" for p'
    using m1(1) m2(1) n by (simp_all add: sim_loader_def load_initrd_def)
  have e: "\<exists>rip. linux64_entry \<lparr>kl_load = HIMEM_START, kl_end = HIMEM_START, kl_setup_header = Some sim_header,
      kl_pvh = PvhEntryNotPresent\<rparr> = Inr rip"
    by (simp add: linux64_entry_def checked_add_def const_defs)
  show ?thesis using i c p z e by (auto simp: load_linux_def)
qed


end
