(* ===== verification/Gdt.thy ===== *)
theory Gdt
  imports GuestMem
begin

text \<open>
  \<^verbatim>\<open>src/gdt.rs\<close>: packing and unpacking of segment descriptors, the long-mode and PVH boot
  GDTs, and their placement in guest memory.
\<close>

definition BOOT_GDT_OFFSET :: u64 where [const_defs]: "BOOT_GDT_OFFSET = 0x500"
definition BOOT_IDT_OFFSET :: u64 where [const_defs]: "BOOT_IDT_OFFSET = 0x520"

type_synonym SegmentDescriptor = u64

definition sd_from :: "u16 \<Rightarrow> u32 \<Rightarrow> u32 \<Rightarrow> SegmentDescriptor" where
  "sd_from fl base lim =
     push_bit (56 - 24) ((ucast base :: u64) AND 0xff000000)
     OR push_bit 40 ((ucast fl :: u64) AND 0x0000f0ff)
     OR push_bit (48 - 16) ((ucast lim :: u64) AND 0x000f0000)
     OR push_bit 16 ((ucast base :: u64) AND 0x00ffffff)
     OR ((ucast lim :: u64) AND 0x0000ffff)"

definition sd_base :: "SegmentDescriptor \<Rightarrow> u64" where
  "sd_base d =
     drop_bit 32 (d AND 0xff00000000000000)
     OR drop_bit 16 (d AND 0x000000ff00000000)
     OR drop_bit 16 (d AND 0x00000000ffff0000)"

definition sd_limit :: "SegmentDescriptor \<Rightarrow> u32" where
  "sd_limit d = ucast (drop_bit 32 (d AND 0x000f000000000000) OR (d AND 0x000000000000ffff))"

definition sd_g :: "SegmentDescriptor \<Rightarrow> u8" where
  "sd_g d = ucast (drop_bit 55 (d AND 0x0080000000000000))"

definition sd_db :: "SegmentDescriptor \<Rightarrow> u8" where
  "sd_db d = ucast (drop_bit 54 (d AND 0x0040000000000000))"

definition sd_l :: "SegmentDescriptor \<Rightarrow> u8" where
  "sd_l d = ucast (drop_bit 53 (d AND 0x0020000000000000))"

definition sd_avl :: "SegmentDescriptor \<Rightarrow> u8" where
  "sd_avl d = ucast (drop_bit 52 (d AND 0x0010000000000000))"

definition sd_p :: "SegmentDescriptor \<Rightarrow> u8" where
  "sd_p d = ucast (drop_bit 47 (d AND 0x0000800000000000))"

definition sd_dpl :: "SegmentDescriptor \<Rightarrow> u8" where
  "sd_dpl d = ucast (drop_bit 45 (d AND 0x0000600000000000))"

definition sd_s :: "SegmentDescriptor \<Rightarrow> u8" where
  "sd_s d = ucast (drop_bit 44 (d AND 0x0000100000000000))"

definition sd_segment_type :: "SegmentDescriptor \<Rightarrow> u8" where
  "sd_segment_type d = ucast (drop_bit 40 (d AND 0x00000f0000000000))"

record kvm_segment =
  seg_base :: u64
  seg_limit :: u32
  seg_selector :: u16
  seg_type :: u8
  seg_present :: u8
  seg_dpl :: u8
  seg_db :: u8
  seg_s :: u8
  seg_l :: u8
  seg_g :: u8
  seg_avl :: u8
  seg_unusable :: u8

definition to_kvm_segment :: "SegmentDescriptor \<Rightarrow> nat \<Rightarrow> kvm_segment" where
  "to_kvm_segment d table_index =
     (let limit = sd_limit d;
          limit = (if sd_g d \<noteq> 0 then push_bit 12 limit OR 0xfff else limit)
      in \<lparr>seg_base = sd_base d, seg_limit = limit, seg_selector = of_nat (table_index * 8),
          seg_type = sd_segment_type d, seg_present = sd_p d, seg_dpl = sd_dpl d, seg_db = sd_db d,
          seg_s = sd_s d, seg_l = sd_l d, seg_g = sd_g d, seg_avl = sd_avl d,
          seg_unusable = (if sd_p d = 0 then 1 else 0)\<rparr>)"

text \<open>\<^verbatim>\<open>BootGdt\<close> holds four descriptors: NULL, code, data and TSS.\<close>

record BootGdt =
  entries :: "SegmentDescriptor list"

definition BootGdt_new :: BootGdt where
  "BootGdt_new = \<lparr>entries =
     [sd_from 0 0 0, sd_from 0xa09b 0 0xfffff, sd_from 0xc093 0 0xfffff,
      sd_from 0x808b 0 0xfffff]\<rparr>"

definition BootGdt_pvh :: BootGdt where
  "BootGdt_pvh = \<lparr>entries =
     [sd_from 0 0 0, sd_from 0xc09b 0 0xfffff, sd_from 0xc093 0 0xfffff,
      sd_from 0x808b 0 0xfffff]\<rparr>"

definition code_segment :: "BootGdt \<Rightarrow> kvm_segment" where
  "code_segment t = to_kvm_segment (entries t ! 1) 1"

definition data_segment :: "BootGdt \<Rightarrow> kvm_segment" where
  "data_segment t = to_kvm_segment (entries t ! 2) 2"

definition tss_segment :: "BootGdt \<Rightarrow> kvm_segment" where
  "tss_segment t = to_kvm_segment (entries t ! 3) 3"

fun write_entries :: "'m gmem \<Rightarrow> nat \<Rightarrow> SegmentDescriptor list \<Rightarrow> 'm \<Rightarrow> (error, 'm) result" where
  "write_entries G i [] m = Inr m"
| "write_entries G i (d # ds) m =
     (case checked_add BOOT_GDT_OFFSET (of_nat (i * 8)) of
       None \<Rightarrow> Inl (MemoryAccess (Msg ''GDT address overflow''))
     | Some addr \<Rightarrow>
         (case write_u64 G d addr m of
           Inl t \<Rightarrow> Inl (MemoryAccess (MsgExt t))
         | Inr m' \<Rightarrow> write_entries G (Suc i) ds m'))"

definition write_to_mem :: "'m gmem \<Rightarrow> BootGdt \<Rightarrow> 'm \<Rightarrow> (error, 'm) result" where
  "write_to_mem G t m = write_entries G 0 (entries t) m"

definition gdt_limit :: "BootGdt \<Rightarrow> u16" where
  "gdt_limit t = of_nat (8 * length (entries t) - 1)"

definition write_idt :: "'m gmem \<Rightarrow> 'm \<Rightarrow> (error, 'm) result" where
  "write_idt G m =
     (case write_u64 G 0 BOOT_IDT_OFFSET m of
       Inl t \<Rightarrow> Inl (MemoryAccess (MsgExt t))
     | Inr m' \<Rightarrow> Inr m')"

section \<open>Properties\<close>

lemma mask_consts:
  "(0xff000000 :: u64) = push_bit 24 (mask 8)"
  "(0x0000f0ff :: u64) = push_bit 12 (mask 4) OR mask 8"
  "(0x000f0000 :: u64) = push_bit 16 (mask 4)"
  "(0x00ffffff :: u64) = mask 24"
  "(0x0000ffff :: u64) = mask 16"
  "(0xff00000000000000 :: u64) = push_bit 56 (mask 8)"
  "(0x000000ff00000000 :: u64) = push_bit 32 (mask 8)"
  "(0x00000000ffff0000 :: u64) = push_bit 16 (mask 16)"
  "(0x000f000000000000 :: u64) = push_bit 48 (mask 4)"
  "(0x0080000000000000 :: u64) = push_bit 55 (mask 1)"
  "(0x0040000000000000 :: u64) = push_bit 54 (mask 1)"
  "(0x0020000000000000 :: u64) = push_bit 53 (mask 1)"
  "(0x0010000000000000 :: u64) = push_bit 52 (mask 1)"
  "(0x0000800000000000 :: u64) = push_bit 47 (mask 1)"
  "(0x0000600000000000 :: u64) = push_bit 45 (mask 2)"
  "(0x0000100000000000 :: u64) = push_bit 44 (mask 1)"
  "(0x00000f0000000000 :: u64) = push_bit 40 (mask 4)"
  by code_simp+

text \<open>Bit by bit, where each field of a descriptor comes from and goes to.\<close>

lemma bit_sd_from:
  "n < 64 \<Longrightarrow> bit (sd_from fl base lim) n =
     (if n < 16 then bit lim n else if n < 40 then bit base (n - 16)
      else if n < 48 then bit fl (n - 40) else if n < 52 then bit lim (n - 32)
      else if n < 56 then bit fl (n - 40) else bit base (n - 32))"
  unfolding sd_from_def mask_consts by (simp add: bit_simps) auto

lemma bit_sd_base:
  "n < 64 \<Longrightarrow> bit (sd_base d) n =
     (if n < 24 then bit d (16 + n) else if n < 32 then bit d (32 + n) else False)"
  unfolding sd_base_def mask_consts by (simp add: bit_simps) auto

lemma bit_sd_limit:
  "n < 32 \<Longrightarrow> bit (sd_limit d) n =
     (if n < 16 then bit d n else if n < 20 then bit d (32 + n) else False)"
  unfolding sd_limit_def mask_consts by (simp add: bit_simps) auto

lemma sd_from_field:
  assumes "40 \<le> m" and "m + k \<le> 48 \<or> 52 \<le> m \<and> m + k \<le> 56"
  shows "ucast (drop_bit m (sd_from fl base lim AND push_bit m (mask k))) =
    (ucast (drop_bit (m - 40) fl) AND mask k :: u8)"
proof (rule bit_word_eqI)
  fix n assume "n < LENGTH(8)"
  then have "n < 8" by simp
  then show "bit (ucast (drop_bit m (sd_from fl base lim AND push_bit m (mask k))) :: u8) n =
      bit (ucast (drop_bit (m - 40) fl) AND mask k :: u8) n"
    using assms by (cases "n < k") (auto simp: bit_simps bit_sd_from)
qed

lemmas sd_field_defs =
  sd_g_def sd_db_def sd_l_def sd_avl_def sd_p_def sd_dpl_def sd_s_def sd_segment_type_def

lemma sd_fields_from:
  "sd_segment_type (sd_from fl base lim) = ucast fl AND mask 4"
  "sd_s (sd_from fl base lim) = ucast (drop_bit 4 fl) AND mask 1"
  "sd_dpl (sd_from fl base lim) = ucast (drop_bit 5 fl) AND mask 2"
  "sd_p (sd_from fl base lim) = ucast (drop_bit 7 fl) AND mask 1"
  "sd_avl (sd_from fl base lim) = ucast (drop_bit 12 fl) AND mask 1"
  "sd_l (sd_from fl base lim) = ucast (drop_bit 13 fl) AND mask 1"
  "sd_db (sd_from fl base lim) = ucast (drop_bit 14 fl) AND mask 1"
  "sd_g (sd_from fl base lim) = ucast (drop_bit 15 fl) AND mask 1"
  unfolding sd_field_defs mask_consts by (subst sd_from_field; simp)+

lemma sd_base_from: "sd_base (sd_from fl base lim) = ucast base"
  by (rule bit_word_eqI) (auto simp: bit_sd_base bit_sd_from bit_ucast_iff
      dest: bit_imp_le_length)

lemma sd_limit_from: "sd_limit (sd_from fl base lim) = lim AND mask 20"
  by (rule bit_word_eqI) (auto simp: bit_sd_limit bit_sd_from bit_simps)

lemmas sd_from_simps = sd_base_from sd_limit_from sd_fields_from

text \<open>
  Packing a descriptor loses nothing: its base, the low 20 bits of its limit and each
  flag field (type, S, DPL, P, AVL, L, D/B, G) read back as they were given.
\<close>

lemma sd_roundtrip:
  "sd_base (sd_from fl base lim) = ucast base \<and>
   sd_limit (sd_from fl base lim) = lim AND mask 20 \<and>
   sd_segment_type (sd_from fl base lim) = ucast fl AND mask 4 \<and>
   sd_s (sd_from fl base lim) = ucast (drop_bit 4 fl) AND mask 1 \<and>
   sd_dpl (sd_from fl base lim) = ucast (drop_bit 5 fl) AND mask 2 \<and>
   sd_p (sd_from fl base lim) = ucast (drop_bit 7 fl) AND mask 1 \<and>
   sd_avl (sd_from fl base lim) = ucast (drop_bit 12 fl) AND mask 1 \<and>
   sd_l (sd_from fl base lim) = ucast (drop_bit 13 fl) AND mask 1 \<and>
   sd_db (sd_from fl base lim) = ucast (drop_bit 14 fl) AND mask 1 \<and>
   sd_g (sd_from fl base lim) = ucast (drop_bit 15 fl) AND mask 1"
  by (intro conjI sd_from_simps)

lemmas gdt_eval =
  code_segment_def data_segment_def tss_segment_def BootGdt_new_def BootGdt_pvh_def
  to_kvm_segment_def sd_from_simps mask_eq_exp_minus_1

text \<open>
  The boot segments are the ones the two boot protocols ask for: long mode gets a 64-bit
  code segment and PVH a 32-bit one, both at selector 8, present, flat from 0 with the
  expanded 4 GiB limit; data and TSS sit at selectors 0x10 and 0x18.
\<close>

lemma boot_segments:
  "code_segment BootGdt_new =
     \<lparr>seg_base = 0, seg_limit = 0xffffffff, seg_selector = 0x08, seg_type = 0xb, seg_present = 1, seg_dpl = 0,
      seg_db = 0, seg_s = 1, seg_l = 1, seg_g = 1, seg_avl = 0, seg_unusable = 0\<rparr> \<and>
   code_segment BootGdt_pvh = (code_segment BootGdt_new)\<lparr>seg_db := 1, seg_l := 0\<rparr> \<and>
   data_segment BootGdt_new =
     \<lparr>seg_base = 0, seg_limit = 0xffffffff, seg_selector = 0x10, seg_type = 0x3, seg_present = 1, seg_dpl = 0,
      seg_db = 1, seg_s = 1, seg_l = 0, seg_g = 1, seg_avl = 0, seg_unusable = 0\<rparr> \<and>
   data_segment BootGdt_pvh = data_segment BootGdt_new \<and>
   tss_segment BootGdt_new =
     \<lparr>seg_base = 0, seg_limit = 0xffffffff, seg_selector = 0x18, seg_type = 0xb, seg_present = 1, seg_dpl = 0,
      seg_db = 0, seg_s = 0, seg_l = 0, seg_g = 1, seg_avl = 0, seg_unusable = 0\<rparr> \<and>
   tss_segment BootGdt_pvh = tss_segment BootGdt_new"
  by (simp add: gdt_eval)

lemma write_entries_ok:
  assumes "gmem_laws G sz" and "0x500 + 8 * (i + length ds) \<le> sz m" and "i + length ds \<le> 4"
  shows "\<exists>m'. write_entries G i ds m = Inr m' \<and> sz m' = sz m \<and>
    (\<forall>j < length ds. read_u64 G m' (0x500 + of_nat (8 * (i + j))) = ds ! j) \<and>
    same_outside G (0x500 + 8 * i) (0x500 + 8 * (i + length ds)) m m'"
  using assms(2,3)
proof (induction ds arbitrary: i m)
  case Nil
  then show ?case by simp
next
  case (Cons d ds)
  let ?a = "0x500 + of_nat (8 * i) :: u64"
  have a: "unat ?a = 0x500 + 8 * i"
    using Cons.prems(2) by (subst unat_add_small) (simp_all add: unat_of_nat)
  have chk: "checked_add BOOT_GDT_OFFSET (of_nat (i * 8)) = Some ?a"
    using Cons.prems(2)
    by (simp add: checked_add_def const_defs unat_of_nat mult.commute del: of_nat_mult)
  obtain m1 where m1: "write_u64 G d ?a m = Inr m1" "sz m1 = sz m" "read_u64 G m1 ?a = d"
      "same_outside G (unat ?a) (unat ?a + 8) m m1"
    using write_u64_effect [OF assms(1), of ?a m d] a Cons.prems(1) by auto
  obtain m2 where m2: "write_entries G (Suc i) ds m1 = Inr m2" "sz m2 = sz m1"
      "\<forall>j < length ds. read_u64 G m2 (0x500 + of_nat (8 * (Suc i + j))) = ds ! j"
      "same_outside G (0x500 + 8 * Suc i) (0x500 + 8 * (Suc i + length ds)) m1 m2"
    using Cons.IH [of "Suc i" m1] Cons.prems m1(2) by auto
  have "read_u64 G m2 ?a = d"
    using read_u64_same_outside [OF m2(4), of ?a] m1(3) a Cons.prems(2) by simp
  then have "\<forall>j < length (d # ds). read_u64 G m2 (0x500 + of_nat (8 * (i + j))) = (d # ds) ! j"
    using m2(3) by (auto simp: nth_Cons split: nat.splits)
  moreover have "same_outside G (0x500 + 8 * i) (0x500 + 8 * (i + length (d # ds))) m m2"
    using same_outside_trans [OF m1(4) m2(4)] a by (rule_tac same_outside_mono) auto
  ultimately show ?case
    using chk m1(1,2) m2(1,2) by simp
qed

text \<open>
  C26. In guest memory of at least \<open>0x528\<close> bytes the boot GDT and the boot IDT are both
  written, side by side: each GDT slot at \<open>0x500 + 8 * i\<close> reads back as its descriptor
  even after the IDT entry was cleared at \<open>0x520\<close>, the GDT limit covers exactly those
  slots, and no byte outside \<open>[0x500, 0x528)\<close> changes.
\<close>

theorem boot_gdt_idt_in_memory:
  assumes laws: "gmem_laws G sz" and room: "0x528 \<le> sz m" and len: "length (entries t) = 4"
  shows "\<exists>m1 m2. write_to_mem G t m = Inr m1 \<and> write_idt G m1 = Inr m2 \<and>
    (\<forall>i < 4. read_u64 G m2 (BOOT_GDT_OFFSET + of_nat (8 * i)) = entries t ! i) \<and>
    read_u64 G m2 BOOT_IDT_OFFSET = 0 \<and>
    unat BOOT_GDT_OFFSET + unat (gdt_limit t) + 1 = unat BOOT_IDT_OFFSET \<and>
    same_outside G 0x500 0x528 m m2"
proof -
  obtain m1 where m1: "write_entries G 0 (entries t) m = Inr m1" "sz m1 = sz m"
      "\<forall>j < 4. read_u64 G m1 (0x500 + of_nat (8 * j)) = entries t ! j"
      "same_outside G 0x500 0x520 m m1"
    using write_entries_ok [OF laws, of 0 "entries t" m] room len by auto
  obtain m2 where m2: "write_u64 G 0 BOOT_IDT_OFFSET m1 = Inr m2"
      "read_u64 G m2 BOOT_IDT_OFFSET = 0" "same_outside G 0x520 0x528 m1 m2"
    using write_u64_effect [OF laws, of BOOT_IDT_OFFSET m1 0] m1(2) room
    by (auto simp: const_defs)
  have "read_u64 G m2 (0x500 + of_nat (8 * i)) = entries t ! i" if "i < 4" for i
  proof -
    have "unat (0x500 + of_nat (8 * i) :: u64) = 0x500 + 8 * i"
      using that by (subst unat_add_small) (simp_all add: unat_of_nat)
    then show ?thesis
      using read_u64_same_outside [OF m2(3), of "0x500 + of_nat (8 * i)"] m1(3) that by simp
  qed
  moreover have "same_outside G 0x500 0x528 m m2"
    using same_outside_trans [OF m1(4) m2(3)] by simp
  ultimately show ?thesis
    using m1(1) m2(1,2) len
    by (simp add: write_to_mem_def write_idt_def gdt_limit_def const_defs)
qed

theorem boot_gdt_idt_in_memory_witness:
  "\<exists>m1 m2. write_to_mem flat_mem BootGdt_new \<lparr>flat_size = 4096, flat_data = (\<lambda>_. 7)\<rparr> = Inr m1 \<and>
     write_idt flat_mem m1 = Inr m2 \<and>
     read_u64 flat_mem m2 (BOOT_GDT_OFFSET + 8) = sd_from 0xa09b 0 0xfffff"
proof -
  let ?m = "\<lparr>flat_size = 4096, flat_data = (\<lambda>_. 7)\<rparr>"
  have "0x528 \<le> flat_bytes ?m" "length (entries BootGdt_new) = 4"
    by (simp_all add: flat_bytes_def BootGdt_new_def)
  from boot_gdt_idt_in_memory [OF flat_mem_laws this] obtain m1 m2 where
    w: "write_to_mem flat_mem BootGdt_new ?m = Inr m1" "write_idt flat_mem m1 = Inr m2"
      "\<forall>i < 4. read_u64 flat_mem m2 (BOOT_GDT_OFFSET + of_nat (8 * i)) = entries BootGdt_new ! i"
    by blast
  have "read_u64 flat_mem m2 (BOOT_GDT_OFFSET + of_nat (8 * 1)) = entries BootGdt_new ! 1"
    using w(3) by (metis one_less_numeral_iff semiring_norm(76))
  then show ?thesis
    using w(1,2) by (auto simp: BootGdt_new_def)
qed

end
