(* ===== verification/Vcpu.thy ===== *)
theory Vcpu
  imports Boot Gdt
begin

text \<open>
  \<^verbatim>\<open>src/vcpu.rs\<close>: the registers, the processor identification and the boot page tables of a
  vCPU, for real mode, for 64-bit Linux and for PVH. The vCPU itself belongs to KVM
  (\<^verbatim>\<open>kvm_ioctls::VcpuFd\<close>) and is a parameter.
\<close>

section \<open>Constants (vcpu.rs)\<close>

definition PML4_START :: u64 where [const_defs]: "PML4_START = 0x9000"
definition PDPT_START :: u64 where [const_defs]: "PDPT_START = 0xa000"
definition PD_TABLES_START :: u64 where [const_defs]: "PD_TABLES_START = 0xb000"
definition PAGE_SIZE :: u64 where [const_defs]: "PAGE_SIZE = 0x1000"
definition HUGE_PAGE_2M :: u64 where [const_defs]: "HUGE_PAGE_2M = 0x200000"
definition PD_ENTRIES :: u64 where [const_defs]: "PD_ENTRIES = 512"
definition PTE_PRESENT_WRITABLE :: u64 where [const_defs]: "PTE_PRESENT_WRITABLE = 0x03"
definition PTE_PRESENT_WRITABLE_PS :: u64 where [const_defs]: "PTE_PRESENT_WRITABLE_PS = 0x83"
definition X86_CR0_PE :: u64 where [const_defs]: "X86_CR0_PE = 0x1"
definition X86_CR0_PG :: u64 where [const_defs]: "X86_CR0_PG = 0x80000000"
definition X86_CR4_PAE :: u64 where [const_defs]: "X86_CR4_PAE = 0x20"
definition EFER_LME :: u64 where [const_defs]: "EFER_LME = 0x00000100"
definition EFER_LMA :: u64 where [const_defs]: "EFER_LMA = 0x00000400"
definition MSR_IA32_SYSENTER_CS :: u32 where [const_defs]: "MSR_IA32_SYSENTER_CS = 0x00000174"
definition MSR_IA32_SYSENTER_ESP :: u32 where [const_defs]: "MSR_IA32_SYSENTER_ESP = 0x00000175"
definition MSR_IA32_SYSENTER_EIP :: u32 where [const_defs]: "MSR_IA32_SYSENTER_EIP = 0x00000176"
definition MSR_STAR :: u32 where [const_defs]: "MSR_STAR = 0xc0000081"
definition MSR_LSTAR :: u32 where [const_defs]: "MSR_LSTAR = 0xc0000082"
definition MSR_CSTAR :: u32 where [const_defs]: "MSR_CSTAR = 0xc0000083"
definition MSR_SYSCALL_MASK :: u32 where [const_defs]: "MSR_SYSCALL_MASK = 0xc0000084"
definition MSR_KERNEL_GS_BASE :: u32 where [const_defs]: "MSR_KERNEL_GS_BASE = 0xc0000102"
definition MSR_IA32_TSC :: u32 where [const_defs]: "MSR_IA32_TSC = 0x00000010"
definition MSR_IA32_MISC_ENABLE :: u32 where [const_defs]: "MSR_IA32_MISC_ENABLE = 0x000001a0"
definition MSR_IA32_MISC_ENABLE_FAST_STRING :: u64 where [const_defs]:
  "MSR_IA32_MISC_ENABLE_FAST_STRING = 1"

section \<open>The KVM interface\<close>

record kvm_dtable =
  dt_base :: u64
  dt_limit :: u16

record kvm_sregs =
  sr_cs :: kvm_segment
  sr_ds :: kvm_segment
  sr_es :: kvm_segment
  sr_fs :: kvm_segment
  sr_gs :: kvm_segment
  sr_ss :: kvm_segment
  sr_tr :: kvm_segment
  sr_ldt :: kvm_segment
  sr_gdt :: kvm_dtable
  sr_idt :: kvm_dtable
  sr_cr0 :: u64
  sr_cr2 :: u64
  sr_cr3 :: u64
  sr_cr4 :: u64
  sr_cr8 :: u64
  sr_efer :: u64
  sr_apic_base :: u64
  sr_interrupt_bitmap :: "u64 list"

record kvm_regs =
  rg_rax :: u64
  rg_rbx :: u64
  rg_rcx :: u64
  rg_rdx :: u64
  rg_rsi :: u64
  rg_rdi :: u64
  rg_rsp :: u64
  rg_rbp :: u64
  rg_r8_15 :: "u64 list"
  rg_rip :: u64
  rg_rflags :: u64

definition kvm_regs_default :: kvm_regs where
  "kvm_regs_default =
     \<lparr>rg_rax = 0, rg_rbx = 0, rg_rcx = 0, rg_rdx = 0, rg_rsi = 0, rg_rdi = 0, rg_rsp = 0,
      rg_rbp = 0, rg_r8_15 = replicate 8 0, rg_rip = 0, rg_rflags = 0\<rparr>"

record kvm_fpu =
  fp_fcw :: u16
  fp_mxcsr :: u32
  fp_other :: bytes

record kvm_msr_entry =
  msr_index :: u32
  msr_reserved :: u32
  msr_data :: u64

record kvm_cpuid_entry2 =
  cp_function :: u32
  cp_index :: u32
  cp_flags :: u32
  cp_eax :: u32
  cp_ebx :: u32
  cp_ecx :: u32
  cp_edx :: u32
  cp_padding :: "u32 list"

definition KVM_MAX_CPUID_ENTRIES :: nat where [const_defs]: "KVM_MAX_CPUID_ENTRIES = 80"
definition KVM_CPUID_FLAG_SIGNIFCANT_INDEX :: u32 where [const_defs]:
  "KVM_CPUID_FLAG_SIGNIFCANT_INDEX = 1"

text \<open>
  The calls on a vCPU \<open>'k\<close>. The length limits of the wrapped arrays (\<^verbatim>\<open>CpuId::from_entries\<close>,
  \<^verbatim>\<open>Msrs::from_entries\<close>) are parameters too, and so is the unnamed rest of a default
  floating-point state.
\<close>

record 'k vcpu_fd =
  supported_cpuid :: "nat \<Rightarrow> (int, kvm_cpuid_entry2 list) result"
  cpuid_fits :: "kvm_cpuid_entry2 list \<Rightarrow> bool"
  set_cpuid2 :: "kvm_cpuid_entry2 list \<Rightarrow> 'k \<Rightarrow> (int, 'k) result"
  get_sregs :: "'k \<Rightarrow> (int, kvm_sregs) result"
  set_sregs :: "kvm_sregs \<Rightarrow> 'k \<Rightarrow> (int, 'k) result"
  get_regs :: "'k \<Rightarrow> (int, kvm_regs) result"
  set_regs :: "kvm_regs \<Rightarrow> 'k \<Rightarrow> (int, 'k) result"
  msrs_fit :: "kvm_msr_entry list \<Rightarrow> bool"
  set_msrs :: "kvm_msr_entry list \<Rightarrow> 'k \<Rightarrow> (int, nat \<times> 'k) result"
  fpu_default :: kvm_fpu
  set_fpu :: "kvm_fpu \<Rightarrow> 'k \<Rightarrow> (int, 'k) result"
  set_mp_state :: "u32 \<Rightarrow> 'k \<Rightarrow> (int, 'k) result"

section \<open>Processor identification (vcpu.rs)\<close>

text \<open>
  \<^verbatim>\<open>next_power_of_two\<close> and \<^verbatim>\<open>trailing_zeros\<close> of the Rust standard library; a power that does
  not fit wraps to 0 in a release build.
\<close>

definition next_power_of_two :: "'a::len word \<Rightarrow> 'a word" where
  "next_power_of_two w = (case find (\<lambda>k. w \<le> 2 ^ k) [0..<LENGTH('a)] of Some k \<Rightarrow> 2 ^ k | None \<Rightarrow> 0)"

definition trailing_zeros :: "'a::len word \<Rightarrow> u32" where
  "trailing_zeros w = (case find (bit w) [0..<LENGTH('a)] of Some k \<Rightarrow> of_nat k | None \<Rightarrow> of_nat LENGTH('a))"

definition package_id_shift :: u32 where
  "package_id_shift = trailing_zeros (next_power_of_two (ucast MAX_VCPUS :: u32))"

definition max_logical_processors :: "u8 \<Rightarrow> u32" where
  "max_logical_processors n = ucast (next_power_of_two n)"

definition ensure_subleaf :: "u32 \<Rightarrow> u32 \<Rightarrow> kvm_cpuid_entry2 list \<Rightarrow> kvm_cpuid_entry2 list" where
  "ensure_subleaf func ix leaves =
     (if list_ex (\<lambda>e. cp_function e = func \<and> cp_index e = ix) leaves then leaves
      else leaves @ [\<lparr>cp_function = func, cp_index = ix, cp_flags = KVM_CPUID_FLAG_SIGNIFCANT_INDEX,
                       cp_eax = 0, cp_ebx = 0, cp_ecx = 0, cp_edx = 0, cp_padding = [0, 0, 0]\<rparr>])"

fun raise_max_leaf :: "kvm_cpuid_entry2 list \<Rightarrow> kvm_cpuid_entry2 list" where
  "raise_max_leaf [] = []"
| "raise_max_leaf (e # es) =
     (if cp_function e = 0 then (if cp_eax e < 0xb then e\<lparr>cp_eax := 0xb\<rparr> else e) # es
      else e # raise_max_leaf es)"

definition THREADS_PER_CORE :: u32 where [const_defs]: "THREADS_PER_CORE = 1"
definition THREAD_LEVEL_SHIFT :: u32 where [const_defs]: "THREAD_LEVEL_SHIFT = 0"

text \<open>The body of the loop over the entries, for one entry.\<close>

definition cache_leaf :: "u8 \<Rightarrow> kvm_cpuid_entry2 \<Rightarrow> kvm_cpuid_entry2" where
  "cache_leaf ncpus e =
     (if cp_eax e OR cp_ebx e OR cp_ecx e OR cp_edx e = 0 then e
      else
        (let level = drop_bit 5 (cp_eax e) AND 0x7
         in if level \<noteq> 1 \<and> level \<noteq> 2 \<and> level \<noteq> 3 then e
            else
              (let share = (if level = 3 then ucast (saturating_sub ncpus 1)
                            else saturating_sub THREADS_PER_CORE 1);
                   eax = (cp_eax e AND NOT (push_bit 14 0xfff)) OR push_bit 14 (share AND 0xfff);
                   cores_m1 = ucast (saturating_sub ncpus 1) :: u32;
                   eax = (eax AND NOT (push_bit 26 0x3f)) OR push_bit 26 (cores_m1 AND 0x3f)
               in e\<lparr>cp_eax := eax\<rparr>)))"

definition topology_entry :: "u8 \<Rightarrow> u8 \<Rightarrow> kvm_cpuid_entry2 \<Rightarrow> kvm_cpuid_entry2" where
  "topology_entry vcpu_id ncpus e =
     (let max_lps = max_logical_processors ncpus; pkg_shift = package_id_shift
      in if cp_function e = 0x1 then
           e\<lparr>cp_ebx := (cp_ebx e AND 0xff) OR push_bit 8 8 OR push_bit 16 (max_lps AND 0xff) OR
               push_bit 24 (ucast vcpu_id),
             cp_ecx := cp_ecx e OR push_bit 31 1,
             cp_edx := (if ncpus > 1 then cp_edx e OR push_bit 28 1 else cp_edx e AND NOT (push_bit 28 1))\<rparr>
         else if cp_function e = 0xb then
           (let e = e\<lparr>cp_flags := KVM_CPUID_FLAG_SIGNIFCANT_INDEX, cp_edx := ucast vcpu_id\<rparr>
            in if cp_index e = 0 then
                 e\<lparr>cp_eax := THREAD_LEVEL_SHIFT AND 0x1f, cp_ebx := THREADS_PER_CORE AND 0xffff,
                   cp_ecx := push_bit 8 1\<rparr>
               else if cp_index e = 1 then
                 e\<lparr>cp_eax := pkg_shift AND 0x1f, cp_ebx := ucast ncpus AND 0xffff,
                   cp_ecx := 1 OR push_bit 8 2\<rparr>
               else e\<lparr>cp_eax := 0, cp_ebx := 0, cp_ecx := cp_index e\<rparr>)
         else if cp_function e = 0x4 then cache_leaf ncpus e
         else if cp_function e = 0x80000008 then
           (let nc = ucast (saturating_sub ncpus 1) AND 0xff;
                ecx = (cp_ecx e AND NOT 0xff) OR nc
            in e\<lparr>cp_ecx := (ecx AND NOT (push_bit 12 0xf)) OR push_bit 12 (min pkg_shift 0xf)\<rparr>)
         else if cp_function e = 0x8000001e then
           e\<lparr>cp_eax := ucast vcpu_id,
             cp_ebx := ucast vcpu_id OR push_bit 8 (saturating_sub THREADS_PER_CORE 1),
             cp_ecx := 0\<rparr>
         else e)"

definition mirror_topology :: "kvm_cpuid_entry2 list \<Rightarrow> kvm_cpuid_entry2 list" where
  "mirror_topology leaves =
     (if list_ex (\<lambda>e. cp_function e = 0x1f) leaves then
        filter (\<lambda>e. cp_function e \<noteq> 0x1f) leaves @
        map (\<lambda>e. e\<lparr>cp_function := 0x1f\<rparr>) (filter (\<lambda>e. cp_function e = 0xb) leaves)
      else leaves)"

definition apply_cpu_topology :: "u8 \<Rightarrow> u8 \<Rightarrow> kvm_cpuid_entry2 list \<Rightarrow> kvm_cpuid_entry2 list" where
  "apply_cpu_topology vcpu_id ncpus leaves =
     mirror_topology (map (topology_entry vcpu_id ncpus)
       (ensure_subleaf 0xb 1 (ensure_subleaf 0xb 0 (raise_max_leaf leaves))))"

definition setup_cpuid :: "'k vcpu_fd \<Rightarrow> u8 \<Rightarrow> u8 \<Rightarrow> 'k \<Rightarrow> (error, 'k) result" where
  "setup_cpuid K vcpu_id ncpus k =
     and_then (with_err KvmIoctl (supported_cpuid K KVM_MAX_CPUID_ENTRIES)) (\<lambda>cpuid.
       let leaves = apply_cpu_topology vcpu_id ncpus cpuid
       in if \<not> cpuid_fits K leaves then Inl CpuidSetup
          else with_err KvmIoctl (set_cpuid2 K leaves k))"

section \<open>Registers and page tables (vcpu.rs)\<close>

definition setup_real_mode :: "'k vcpu_fd \<Rightarrow> u64 \<Rightarrow> 'k \<Rightarrow> (error, 'k) result" where
  "setup_real_mode K entry k =
     and_then (with_err KvmIoctl (get_sregs K k)) (\<lambda>sregs.
     let cs = sr_cs sregs; sregs = sregs\<lparr>sr_cs := cs\<lparr>seg_base := 0, seg_selector := 0\<rparr>\<rparr>
     in and_then (with_err KvmIoctl (set_sregs K sregs k)) (\<lambda>k.
        and_then (with_err KvmIoctl (get_regs K k)) (\<lambda>regs.
        let regs = regs\<lparr>rg_rip := entry, rg_rflags := 2\<rparr>
        in with_err KvmIoctl (set_regs K regs k))))"

definition boot_msrs :: "kvm_msr_entry list" where
  "boot_msrs =
     (let entry = (\<lambda>ix data. \<lparr>msr_index = ix, msr_reserved = 0, msr_data = data\<rparr>)
      in [entry MSR_IA32_SYSENTER_CS 0, entry MSR_IA32_SYSENTER_ESP 0, entry MSR_IA32_SYSENTER_EIP 0,
          entry MSR_STAR 0, entry MSR_CSTAR 0, entry MSR_KERNEL_GS_BASE 0, entry MSR_SYSCALL_MASK 0,
          entry MSR_LSTAR 0, entry MSR_IA32_TSC 0,
          entry MSR_IA32_MISC_ENABLE MSR_IA32_MISC_ENABLE_FAST_STRING])"

definition setup_boot_msrs :: "'k vcpu_fd \<Rightarrow> 'k \<Rightarrow> (error, 'k) result" where
  "setup_boot_msrs K k =
     (if \<not> msrs_fit K boot_msrs then Inl MsrSetup
      else and_then (with_err KvmIoctl (set_msrs K boot_msrs k)) (\<lambda>(written, k).
             if written \<noteq> length boot_msrs then Inl MsrSetup else Inr k))"

text \<open>The two loops of \<^verbatim>\<open>setup_identity_map\<close>: one page directory, and its entries.\<close>

definition pd_entry :: "u64 \<Rightarrow> u64 \<Rightarrow> u64" where
  "pd_entry num_2mib global =
     (if global < num_2mib then (global * HUGE_PAGE_2M) OR PTE_PRESENT_WRITABLE_PS else 0)"

definition write_entry :: "'m gmem \<Rightarrow> u64 \<Rightarrow> u64 \<Rightarrow> 'm \<Rightarrow> (error, 'm) result" where
  "write_entry G v a m = with_err (\<lambda>t. MemoryAccess (MsgExt t)) (write_u64 G v a m)"

definition write_page_directory :: "'m gmem \<Rightarrow> u64 \<Rightarrow> u64 \<Rightarrow> 'm \<Rightarrow> (error, 'm) result" where
  "write_page_directory G num_2mib pd_idx m =
     (let pd_gpa = PD_TABLES_START + pd_idx * PAGE_SIZE
      in and_then (write_entry G (pd_gpa OR PTE_PRESENT_WRITABLE) (PDPT_START + pd_idx * 8) m) (\<lambda>m.
         let base_2mib = pd_idx * PD_ENTRIES
         in for_each (\<lambda>i. write_entry G (pd_entry num_2mib (base_2mib + of_nat i)) (pd_gpa + of_nat i * 8))
              [0..<unat PD_ENTRIES] m))"

definition setup_identity_map :: "'m gmem \<Rightarrow> 'm \<Rightarrow> (error, 'm) result" where
  "setup_identity_map G m =
     (case checked_add (last_addr G m) 1 of
       None \<Rightarrow> Inl (GuestMemory (Msg ''guest RAM end overflow''))
     | Some ram_end \<Rightarrow>
         (let map_end = saturating_mul (div_ceil ram_end HUGE_PAGE_2M) HUGE_PAGE_2M;
              num_2mib = map_end div HUGE_PAGE_2M;
              num_pd = div_ceil num_2mib PD_ENTRIES
          in if num_pd = 0 \<or> num_pd > PD_ENTRIES
             then Inl (GuestMemory (MsgNum ''cannot identity-map {:#x} bytes of guest RAM'' [unat ram_end]))
             else
               (case checked_add PD_TABLES_START (saturating_mul num_pd PAGE_SIZE) of
                 None \<Rightarrow> Inl (GuestMemory (Msg ''page table range overflow''))
               | Some pt_end \<Rightarrow>
                   if pt_end > CMDLINE_START
                   then Inl (GuestMemory (MsgNum ''page tables [{:#x}, {:#x}) overlap cmdline at {:#x}''
                          [unat PD_TABLES_START, unat pt_end, unat CMDLINE_START]))
                   else
                     and_then (write_entry G (PDPT_START OR PTE_PRESENT_WRITABLE) PML4_START m) (\<lambda>m.
                     and_then (for_each (\<lambda>pd_idx. write_page_directory G num_2mib (of_nat pd_idx))
                                 [0..<unat num_pd] m) (\<lambda>m.
                     for_each (\<lambda>pd_idx. write_entry G 0 (PDPT_START + of_nat pd_idx * 8))
                       [unat num_pd..<unat PD_ENTRIES] m)))))"

text \<open>The part that both protected modes share: descriptor tables and segments.\<close>

definition boot_segments_of :: "BootGdt \<Rightarrow> kvm_sregs \<Rightarrow> kvm_sregs" where
  "boot_segments_of gdt sregs =
     (let sregs = sregs\<lparr>sr_gdt := \<lparr>dt_base = BOOT_GDT_OFFSET, dt_limit = gdt_limit gdt\<rparr>,
                        sr_idt := \<lparr>dt_base = BOOT_IDT_OFFSET, dt_limit = of_nat (8 - 1)\<rparr>\<rparr>;
          code = code_segment gdt; data = data_segment gdt; tss = tss_segment gdt
      in sregs\<lparr>sr_cs := code, sr_ds := data, sr_es := data, sr_fs := data, sr_gs := data,
               sr_ss := data, sr_tr := tss\<rparr>)"

definition setup_sregs_long_mode :: "'k vcpu_fd \<Rightarrow> 'm gmem \<Rightarrow> 'k \<Rightarrow> 'm \<Rightarrow> (error, 'k \<times> 'm) result" where
  "setup_sregs_long_mode K G k m =
     and_then (with_err KvmIoctl (get_sregs K k)) (\<lambda>sregs.
     let gdt = BootGdt_new
     in and_then (write_to_mem G gdt m) (\<lambda>m.
        and_then (write_idt G m) (\<lambda>m.
        let sregs = boot_segments_of gdt sregs
        in and_then (setup_identity_map G m) (\<lambda>m.
           let sregs = sregs\<lparr>sr_cr3 := PML4_START, sr_cr4 := sr_cr4 sregs OR X86_CR4_PAE,
                 sr_cr0 := sr_cr0 sregs OR (X86_CR0_PE OR X86_CR0_PG),
                 sr_efer := sr_efer sregs OR (EFER_LME OR EFER_LMA)\<rparr>
           in and_then (with_err KvmIoctl (set_sregs K sregs k)) (\<lambda>k. Inr (k, m))))))"

definition setup_sregs_pvh :: "'k vcpu_fd \<Rightarrow> 'm gmem \<Rightarrow> 'k \<Rightarrow> 'm \<Rightarrow> (error, 'k \<times> 'm) result" where
  "setup_sregs_pvh K G k m =
     and_then (with_err KvmIoctl (get_sregs K k)) (\<lambda>sregs.
     let gdt = BootGdt_pvh
     in and_then (write_to_mem G gdt m) (\<lambda>m.
        and_then (write_idt G m) (\<lambda>m.
        let sregs = boot_segments_of gdt sregs;
            sregs = sregs\<lparr>sr_cr0 := X86_CR0_PE, sr_cr3 := 0, sr_cr4 := 0, sr_efer := 0\<rparr>
        in and_then (with_err KvmIoctl (set_sregs K sregs k)) (\<lambda>k. Inr (k, m)))))"

definition setup_regs_long_mode :: "'k vcpu_fd \<Rightarrow> u64 \<Rightarrow> 'k \<Rightarrow> (error, 'k) result" where
  "setup_regs_long_mode K entry k =
     with_err KvmIoctl (set_regs K (kvm_regs_default\<lparr>rg_rflags := 2, rg_rip := entry,
       rg_rsp := BOOT_STACK_POINTER, rg_rbp := BOOT_STACK_POINTER, rg_rsi := ZERO_PAGE_START\<rparr>) k)"

definition setup_regs_pvh :: "'k vcpu_fd \<Rightarrow> u64 \<Rightarrow> u64 \<Rightarrow> 'k \<Rightarrow> (error, 'k) result" where
  "setup_regs_pvh K entry start_info k =
     with_err KvmIoctl (set_regs K (kvm_regs_default\<lparr>rg_rflags := 2, rg_rip := entry,
       rg_rsp := BOOT_STACK_POINTER, rg_rbp := BOOT_STACK_POINTER, rg_rbx := start_info\<rparr>) k)"

definition setup_fpu :: "'k vcpu_fd \<Rightarrow> 'k \<Rightarrow> (error, 'k) result" where
  "setup_fpu K k = with_err KvmIoctl (set_fpu K ((fpu_default K)\<lparr>fp_fcw := 0x37f, fp_mxcsr := 0x1f80\<rparr>) k)"

definition setup_long_mode :: "'k vcpu_fd \<Rightarrow> 'm gmem \<Rightarrow> u64 \<Rightarrow> 'k \<Rightarrow> 'm \<Rightarrow> (error, 'k \<times> 'm) result" where
  "setup_long_mode K G entry k m =
     and_then (setup_boot_msrs K k) (\<lambda>k.
     and_then (setup_sregs_long_mode K G k m) (\<lambda>(k, m).
     and_then (setup_regs_long_mode K entry k) (\<lambda>k.
     and_then (setup_fpu K k) (\<lambda>k. Inr (k, m)))))"

definition setup_pvh :: "'k vcpu_fd \<Rightarrow> 'm gmem \<Rightarrow> u64 \<Rightarrow> u64 \<Rightarrow> 'k \<Rightarrow> 'm \<Rightarrow> (error, 'k \<times> 'm) result" where
  "setup_pvh K G entry start_info k m =
     and_then (setup_boot_msrs K k) (\<lambda>k.
     and_then (setup_sregs_pvh K G k m) (\<lambda>(k, m).
     and_then (setup_regs_pvh K entry start_info k) (\<lambda>k.
     and_then (setup_fpu K k) (\<lambda>k. Inr (k, m)))))"

end
