(* ===== verification/VcpuProps.thy ===== *)
theory VcpuProps
  imports Vcpu
begin

text \<open>
  Properties of the vCPU setup: the boot page tables map guest RAM to itself, the processor
  topology is consistent, and the state in which the kernel is entered.
\<close>

section \<open>Page tables\<close>

text \<open>Entries are addressed by natural numbers: reading one after writing one.\<close>

definition entry_at :: "'m gmem \<Rightarrow> 'm \<Rightarrow> nat \<Rightarrow> u64" where
  "entry_at G m n = read_u64 G m (of_nat n)"

lemma write_entry_at:
  assumes laws: "gmem_laws G sz" and room: "n + 8 \<le> sz m"
  obtains m' where "write_entry G v (of_nat n) m = Inr m'" "sz m' = sz m" "entry_at G m' n = v"
    "\<And>k. k + 8 \<le> n \<or> n + 8 \<le> k \<Longrightarrow> k + 8 \<le> sz m \<Longrightarrow> entry_at G m' k = entry_at G m k"
    "same_outside G n (n + 8) m m'"
proof -
  have b: "sz m < 2 ^ 64" using gmem_size [OF laws] by simp
  have u: "unat (of_nat k :: u64) = k" if "k + 8 \<le> sz m" for k
    using that b by (intro unat_of_nat_small) simp
  obtain m' where m': "write_u64 G v (of_nat n) m = Inr m'" "sz m' = sz m" "read_u64 G m' (of_nat n) = v"
      "same_outside G n (n + 8) m m'"
    using write_u64_effect [OF laws, of "of_nat n" m v] room by (auto simp: u)
  have "entry_at G m' k = entry_at G m k" if "k + 8 \<le> n \<or> n + 8 \<le> k" "k + 8 \<le> sz m" for k
    unfolding entry_at_def
    by (rule read_u64_same_outside [OF m'(4)]) (use that b in \<open>auto simp: u\<close>)
  then show thesis
    using that [of m'] m' by (simp add: write_entry_def entry_at_def)
qed

text \<open>
  The tables of \<open>npd\<close> page directories for \<open>n2\<close> large pages: the first \<open>i\<close> directories and,
  of the next one, the first \<open>j\<close> entries.
\<close>

definition pd_done :: "'m gmem \<Rightarrow> u64 \<Rightarrow> nat \<Rightarrow> nat \<Rightarrow> 'm \<Rightarrow> bool" where
  "pd_done G n2 p j m \<longleftrightarrow>
     (\<forall>i < j. entry_at G m (0xb000 + 4096 * p + 8 * i) = pd_entry n2 (of_nat (512 * p + i)))"

definition tables_done :: "'m gmem \<Rightarrow> u64 \<Rightarrow> nat \<Rightarrow> 'm \<Rightarrow> bool" where
  "tables_done G n2 i m \<longleftrightarrow> entry_at G m 0x9000 = 0xa003 \<and>
     (\<forall>p < i. entry_at G m (0xa000 + 8 * p) = of_nat (0xb000 + 4096 * p) OR 3 \<and> pd_done G n2 p 512 m)"

lemma pd_loop:
  assumes laws: "gmem_laws G sz" and room: "0xb000 + 4096 * p + 4096 \<le> sz m" and t: "tables_done G n2 p m"
    and e: "entry_at G m (0xa000 + 8 * p) = of_nat (0xb000 + 4096 * p) OR 3" and p: "p < 21"
  shows "\<exists>m'. for_each (\<lambda>i. write_entry G (pd_entry n2 (of_nat (512 * p) + of_nat i))
      (of_nat (0xb000 + 4096 * p) + of_nat i * 8)) [0..<512] m = Inr m' \<and>
    sz m' = sz m \<and> tables_done G n2 (Suc p) m' \<and> same_outside G (0xb000 + 4096 * p) (0xb000 + 4096 * Suc p) m m'"
proof -
  let ?f = "\<lambda>i. write_entry G (pd_entry n2 (of_nat (512 * p) + of_nat i)) (of_nat (0xb000 + 4096 * p) + of_nat i * 8)"
  let ?I = "\<lambda>i s. sz s = sz m \<and> tables_done G n2 p s \<and> pd_done G n2 p i s \<and>
    entry_at G s (0xa000 + 8 * p) = of_nat (0xb000 + 4096 * p) OR 3 \<and>
    same_outside G (0xb000 + 4096 * p) (0xb000 + 4096 * Suc p) m s"
  have step: "\<exists>s'. ?f i s = Inr s' \<and> ?I (Suc i) s'" if i: "i < 512" and I: "?I i s" for i s
  proof -
    let ?a = "0xb000 + 4096 * p + 8 * i"
    have a: "of_nat (0xb000 + 4096 * p) + of_nat i * 8 = (of_nat ?a :: u64)"
        "of_nat (512 * p) + of_nat i = (of_nat (512 * p + i) :: u64)" by (simp_all add: algebra_simps)
    have r: "?a + 8 \<le> sz s" using room i I by simp
    obtain s' where s': "write_entry G (pd_entry n2 (of_nat (512 * p + i))) (of_nat ?a) s = Inr s'" "sz s' = sz s"
        "entry_at G s' ?a = pd_entry n2 (of_nat (512 * p + i))"
        "\<And>k. k + 8 \<le> ?a \<or> ?a + 8 \<le> k \<Longrightarrow> k + 8 \<le> sz s \<Longrightarrow> entry_at G s' k = entry_at G s k"
        "same_outside G ?a (?a + 8) s s'"
      using write_entry_at [OF laws r] by metis
    have low: "entry_at G s' k = entry_at G s k" if "k + 8 \<le> ?a" for k
      by (rule s'(4)) (use that r in simp_all)
    have "tables_done G n2 p s'"
      using I p by (auto simp: tables_done_def pd_done_def low)
    moreover have "pd_done G n2 p (Suc i) s'"
      using I s'(3) by (auto simp: pd_done_def low less_Suc_eq)
    moreover have "same_outside G (0xb000 + 4096 * p) (0xb000 + 4096 * Suc p) s s'"
      by (rule same_outside_mono [OF s'(5)]) (use i in simp_all)
    ultimately show ?thesis
      unfolding a using I s'(1,2) p low [of "0xa000 + 8 * p"] by (auto intro: same_outside_chain)
  qed
  have "\<exists>s'. for_each ?f [0..<512] m = Inr s' \<and> ?I 512 s'"
  proof (rule for_range_ok [of ?I])
    show "?I 0 m" using t e by (simp add: pd_done_def)
  qed (simp, rule step)
  then obtain s' where "for_each ?f [0..<512] m = Inr s'" and I: "?I 512 s'" by blast
  moreover have "tables_done G n2 (Suc p) s'" using I by (auto simp: tables_done_def less_Suc_eq)
  ultimately show ?thesis by blast
qed

lemma table_addresses:
  "PD_TABLES_START + of_nat p * PAGE_SIZE = of_nat (0xb000 + 4096 * p)"
  "PDPT_START + of_nat p * 8 = of_nat (0xa000 + 8 * p)"
  "of_nat p * PD_ENTRIES = of_nat (512 * p)" "unat PD_ENTRIES = 512" "PTE_PRESENT_WRITABLE = 3"
  by (simp_all add: const_defs)

lemma directory_loop:
  assumes laws: "gmem_laws G sz" and n: "n \<le> 21" and room: "0xb000 + 4096 * n \<le> sz m" and t: "tables_done G n2 0 m"
  shows "\<exists>m'. for_each (\<lambda>p. write_page_directory G n2 (of_nat p)) [0..<n] m = Inr m' \<and>
    sz m' = sz m \<and> tables_done G n2 n m' \<and> same_outside G 0x9000 (0xb000 + 4096 * n) m m'"
proof -
  let ?I = "\<lambda>p s. sz s = sz m \<and> tables_done G n2 p s \<and> same_outside G 0x9000 (0xb000 + 4096 * n) m s"
  have step: "\<exists>s'. write_page_directory G n2 (of_nat p) s = Inr s' \<and> ?I (Suc p) s'" if p: "p < n" and I: "?I p s" for p s
  proof -
    let ?e = "of_nat (0xb000 + 4096 * p) OR 3 :: u64"
    have r: "0xa000 + 8 * p + 8 \<le> sz s" using room p n I by simp
    obtain s1 where s1: "write_entry G ?e (of_nat (0xa000 + 8 * p)) s = Inr s1" "sz s1 = sz s"
        "entry_at G s1 (0xa000 + 8 * p) = ?e"
        "\<And>k. k + 8 \<le> 0xa000 + 8 * p \<or> 0xa000 + 8 * p + 8 \<le> k \<Longrightarrow> k + 8 \<le> sz s \<Longrightarrow> entry_at G s1 k = entry_at G s k"
        "same_outside G (0xa000 + 8 * p) (0xa000 + 8 * p + 8) s s1"
      using write_entry_at [OF laws r] by metis
    have "entry_at G s1 (0xb000 + 4096 * q + 8 * i) = entry_at G s (0xb000 + 4096 * q + 8 * i)"
      if "q < p" "i < 512" for q i
      by (rule s1(4)) (use that n p room I in simp_all)
    moreover have "entry_at G s1 k = entry_at G s k" if "k + 8 \<le> 0xa000 + 8 * p" for k
      by (rule s1(4)) (use that r in simp_all)
    ultimately have t1: "tables_done G n2 p s1"
      using I p by (auto simp: tables_done_def pd_done_def)
    have r2: "0xb000 + 4096 * p + 4096 \<le> sz s1" "p < 21" using room p n I s1(2) by simp_all
    obtain s2 where s2: "for_each (\<lambda>i. write_entry G (pd_entry n2 (of_nat (512 * p) + of_nat i))
          (of_nat (0xb000 + 4096 * p) + of_nat i * 8)) [0..<512] s1 = Inr s2"
        "sz s2 = sz s1" "tables_done G n2 (Suc p) s2"
        "same_outside G (0xb000 + 4096 * p) (0xb000 + 4096 * Suc p) s1 s2"
      using pd_loop [OF laws r2(1) t1 s1(3) r2(2)] by blast
    have "write_page_directory G n2 (of_nat p) s = Inr s2"
      unfolding write_page_directory_def Let_def table_addresses using s1(1) s2(1) by simp
    moreover have "same_outside G 0x9000 (0xb000 + 4096 * n) s s1"
        "same_outside G 0x9000 (0xb000 + 4096 * n) s1 s2"
      by (rule same_outside_mono [OF s1(5)], use p n in simp_all)
        (rule same_outside_mono [OF s2(4)], use p n in simp_all)
    ultimately show ?thesis
      using I s1(2) s2(2,3) by (auto intro: same_outside_chain)
  qed
  have "\<exists>s'. for_each (\<lambda>p. write_page_directory G n2 (of_nat p)) [0..<n] m = Inr s' \<and> ?I n s'"
  proof (rule for_range_ok [of ?I])
    show "?I 0 m" using t by simp
  qed (simp, rule step)
  then show ?thesis by blast
qed

lemma nat_div_ceil:
  fixes a b :: nat
  assumes "0 < b"
  shows "(a + b - 1) div b = (if a mod b = 0 then a div b else a div b + 1)"
proof (cases "a mod b = 0")
  case True
  then obtain k where "a = b * k" by auto
  then show ?thesis
    using assms div_mult_self2 [of b "b - 1" k] by (simp add: Nat.add_diff_assoc add.commute)
next
  case False
  have "b * q + r + b - 1 = (r - 1) + (q + 1) * b" if "0 < r" for q r :: nat
    using that by (simp add: algebra_simps)
  from this [of "a mod b" "a div b"] have "a + b - 1 = (a mod b - 1) + (a div b + 1) * b"
    using False by simp
  then have "(a + b - 1) div b = ((a mod b - 1) + (a div b + 1) * b) div b" by (simp only:)
  also have "\<dots> = a div b + 1"
    using assms div_mult_self1 [of b "a mod b - 1" "a div b + 1"] by (simp add: less_imp_diff_less)
  finally show ?thesis using False by (simp only: if_False)
qed

lemma unat_div_ceil:
  assumes "0 < unat b"
  shows "unat (div_ceil a b) = (unat a + unat b - 1) div unat (b :: 'a::len word)"
proof -
  have z: "a mod b = 0 \<longleftrightarrow> unat a mod unat b = 0" by (metis unat_eq_0 unat_mod)
  have "unat (a div b + 1) = unat a div unat b + 1" if "unat a mod unat b \<noteq> 0"
  proof -
    have "1 < unat b" using that assms by (cases "unat b = 1") auto
    moreover have "0 < unat a" using that by (metis mod_0 neq0_conv)
    ultimately have "unat a div unat b + 1 \<le> unat a" by (simp add: Suc_le_eq)
    then have "unat a div unat b + 1 < 2 ^ LENGTH('a)"
      using unat_less_exp [of a] by (rule le_less_trans)
    then show ?thesis by (simp add: unat_word_ariths unat_div)
  qed
  then show ?thesis
    unfolding nat_div_ceil [OF assms] using z by (simp add: div_ceil_def unat_div)
qed

text \<open>How many large pages and page directories a RAM of \<open>s\<close> bytes takes.\<close>

definition pages_2m :: "nat \<Rightarrow> nat" where "pages_2m s = (s + 0x1fffff) div 0x200000"
definition directories :: "nat \<Rightarrow> nat" where "directories s = (pages_2m s + 511) div 512"

lemma zero_tail_loop:
  assumes laws: "gmem_laws G sz" and n: "n \<le> 21" and room: "0xb000 + 4096 * n \<le> sz m" and t: "tables_done G n2 n m"
  shows "\<exists>m'. for_each (\<lambda>p. write_entry G 0 (PDPT_START + of_nat p * 8)) [n..<512] m = Inr m' \<and>
    sz m' = sz m \<and> tables_done G n2 n m' \<and> (\<forall>p. n \<le> p \<longrightarrow> p < 512 \<longrightarrow> entry_at G m' (0xa000 + 8 * p) = 0) \<and>
    same_outside G 0x9000 (0xb000 + 4096 * n) m m'"
proof -
  let ?I = "\<lambda>i s. sz s = sz m \<and> tables_done G n2 n s \<and>
    (\<forall>p. n \<le> p \<longrightarrow> p < i \<longrightarrow> entry_at G s (0xa000 + 8 * p) = 0) \<and> same_outside G 0x9000 (0xb000 + 4096 * n) m s"
  have step: "\<exists>s'. write_entry G 0 (PDPT_START + of_nat p * 8) s = Inr s' \<and> ?I (Suc p) s'"
    if p: "n \<le> p" "p < 512" and I: "?I p s" for p s
  proof -
    have r: "0xa000 + 8 * p + 8 \<le> sz s" using room p I by simp
    obtain s' where s': "write_entry G 0 (of_nat (0xa000 + 8 * p)) s = Inr s'" "sz s' = sz s"
        "entry_at G s' (0xa000 + 8 * p) = 0"
        "\<And>k. k + 8 \<le> 0xa000 + 8 * p \<or> 0xa000 + 8 * p + 8 \<le> k \<Longrightarrow> k + 8 \<le> sz s \<Longrightarrow> entry_at G s' k = entry_at G s k"
        "same_outside G (0xa000 + 8 * p) (0xa000 + 8 * p + 8) s s'"
      using write_entry_at [OF laws r] by metis
    have "entry_at G s' (0xb000 + 4096 * q + 8 * i) = entry_at G s (0xb000 + 4096 * q + 8 * i)"
      if "q < n" "i < 512" for q i
      by (rule s'(4)) (use that p room I in simp_all)
    moreover have low: "entry_at G s' k = entry_at G s k" if "k + 8 \<le> 0xa000 + 8 * p" for k
      by (rule s'(4)) (use that r in simp_all)
    ultimately have "tables_done G n2 n s'"
      using I p by (auto simp: tables_done_def pd_done_def)
    moreover have "same_outside G 0x9000 (0xb000 + 4096 * n) s s'"
      by (rule same_outside_mono [OF s'(5)]) (use p in simp_all)
    moreover have "\<forall>q. n \<le> q \<longrightarrow> q < Suc p \<longrightarrow> entry_at G s' (0xa000 + 8 * q) = 0"
      using I s'(3) low by (auto simp: less_Suc_eq)
    ultimately show ?thesis
      unfolding table_addresses using I s'(1,2) by (auto intro: same_outside_chain)
  qed
  have "\<exists>s'. for_each (\<lambda>p. write_entry G 0 (PDPT_START + of_nat p * 8)) [n..<512] m = Inr s' \<and> ?I 512 s'"
  proof (rule for_range_ok [of ?I])
    show "?I n m" using t by auto
  qed (use n in simp, rule step)
  then show ?thesis by blast
qed

text \<open>
  How the processor translates an address in long mode, where only 2 MiB pages are in use:
  the entry of the PML4, of the directory pointers and of the page directory, each selected
  by nine bits of the address and usable if its lowest bit is set; bit 7 marks a large page.
\<close>

definition TABLE_MASK :: u64 where "TABLE_MASK = 0x000ffffffffff000"
definition LARGE_PAGE_MASK :: u64 where "LARGE_PAGE_MASK = 0x000fffffffe00000"

definition walk :: "'m gmem \<Rightarrow> 'm \<Rightarrow> u64 \<Rightarrow> u64 \<Rightarrow> u64 option" where
  "walk G m cr3 va =
     (let e4 = read_u64 G m ((cr3 AND TABLE_MASK) + 8 * (drop_bit 39 va AND mask 9))
      in if \<not> bit e4 0 then None
         else
           (let e3 = read_u64 G m ((e4 AND TABLE_MASK) + 8 * (drop_bit 30 va AND mask 9))
            in if \<not> bit e3 0 \<or> bit e3 7 then None
               else
                 (let e2 = read_u64 G m ((e3 AND TABLE_MASK) + 8 * (drop_bit 21 va AND mask 9))
                  in if \<not> bit e2 0 \<or> \<not> bit e2 7 then None
                     else Some ((e2 AND LARGE_PAGE_MASK) + (va AND mask 21)))))"

lemma table_entry_fields:
  fixes v :: u64
  assumes "unat v < 2 ^ 40"
  shows "(push_bit 12 v OR 3) AND TABLE_MASK = push_bit 12 v" "bit (push_bit 12 v OR 3) 0" "\<not> bit (push_bit 12 v OR 3) 7"
proof -
  have m: "TABLE_MASK = push_bit 12 (mask 40)" "(3 :: u64) = mask 2"
    by (simp_all add: TABLE_MASK_def mask_eq_exp_minus_1 push_bit_eq_mult)
  have v: "k < 40" if "bit v k" for k
  proof -
    have "v = take_bit 40 v"
      using assms by (metis take_bit_nat_eq_self unsigned_take_bit_eq word_eq_iff_unsigned)
    then show ?thesis using that by (metis bit_take_bit_iff)
  qed
  show "(push_bit 12 v OR 3) AND TABLE_MASK = push_bit 12 v"
    unfolding m by (rule bit_word_eqI) (use v in \<open>force simp: bit_simps\<close>)
  show "bit (push_bit 12 v OR 3) 0" "\<not> bit (push_bit 12 v OR 3) 7"
    unfolding m by (simp_all add: bit_simps)
qed

lemma large_page_fields:
  fixes v :: u64
  assumes "unat v < 2 ^ 31"
  shows "(push_bit 21 v OR 0x83) AND LARGE_PAGE_MASK = push_bit 21 v"
    "bit (push_bit 21 v OR 0x83) 0" "bit (push_bit 21 v OR 0x83) 7"
proof -
  have m: "LARGE_PAGE_MASK = push_bit 21 (mask 31)" "(0x83 :: u64) = mask 2 OR push_bit 7 (mask 1)"
    by (simp_all add: LARGE_PAGE_MASK_def mask_eq_exp_minus_1 push_bit_eq_mult)
  have v: "k < 31" if "bit v k" for k
  proof -
    have "v = take_bit 31 v"
      using assms by (metis take_bit_nat_eq_self unsigned_take_bit_eq word_eq_iff_unsigned)
    then show ?thesis using that by (metis bit_take_bit_iff)
  qed
  show "(push_bit 21 v OR 0x83) AND LARGE_PAGE_MASK = push_bit 21 v"
    unfolding m by (rule bit_word_eqI) (use v in \<open>force simp: bit_simps simp del: mask_Suc_0 One_nat_def\<close>)
  show "bit (push_bit 21 v OR 0x83) 0" "bit (push_bit 21 v OR 0x83) 7"
    unfolding m by (simp_all add: bit_simps)
qed

lemma table_sizes:
  fixes m :: 'm
  assumes laws: "gmem_laws G sz"
  defines "e \<equiv> last_addr G m + 1"
  defines "n2 \<equiv> saturating_mul (div_ceil e HUGE_PAGE_2M) HUGE_PAGE_2M div HUGE_PAGE_2M"
  shows "checked_add (last_addr G m) 1 = Some e" and "unat e = sz m"
    and "sz m \<le> 0x540000000 \<Longrightarrow> unat n2 = pages_2m (sz m) \<and> unat (div_ceil n2 PD_ENTRIES) = directories (sz m)"
    and "0x540000000 < sz m \<Longrightarrow> 22 \<le> unat (div_ceil n2 PD_ENTRIES)"
proof -
  have s: "0 < sz m" "sz m < 2 ^ 64" using gmem_size [OF laws, of m] by auto
  show u: "unat e = sz m" and "checked_add (last_addr G m) 1 = Some e"
    using unat_add_small [of "last_addr G m" 1] gmem_last [OF laws, of m] s
    by (simp_all add: e_def checked_add_def)
  have h: "unat HUGE_PAGE_2M = 0x200000" "unat PD_ENTRIES = 512" by (simp_all add: const_defs)
  have d: "unat (div_ceil e HUGE_PAGE_2M) = pages_2m (sz m)"
    using unat_div_ceil [of HUGE_PAGE_2M e] by (simp add: h u pages_2m_def)
  have c: "unat (div_ceil n2 PD_ENTRIES) = (unat n2 + 511) div 512"
    using unat_div_ceil [of PD_ENTRIES n2] by (simp add: h)
  have p: "pages_2m (sz m) * 0x200000 < 2 ^ 64 \<Longrightarrow> unat n2 = pages_2m (sz m)"
  proof -
    assume "pages_2m (sz m) * 0x200000 < 2 ^ 64"
    moreover from this have "unat (div_ceil e HUGE_PAGE_2M * HUGE_PAGE_2M) = pages_2m (sz m) * 0x200000"
      by (simp add: unat_word_ariths d h)
    ultimately show ?thesis
      by (simp add: n2_def saturating_mul_def unat_div d h)
  qed
  have q: "pages_2m (sz m) * 0x200000 \<le> sz m + 0x1fffff"
    unfolding pages_2m_def by (rule div_times_less_eq_dividend)
  show "unat n2 = pages_2m (sz m) \<and> unat (div_ceil n2 PD_ENTRIES) = directories (sz m)" if "sz m \<le> 0x540000000"
    using p q that by (simp add: c directories_def)
  show "22 \<le> unat (div_ceil n2 PD_ENTRIES)" if l: "0x540000000 < sz m"
  proof -
    have "10753 \<le> pages_2m (sz m)" using l by (simp add: pages_2m_def)
    moreover have "unat n2 = 0x7ffffffffff" if "\<not> pages_2m (sz m) * 0x200000 < 2 ^ 64"
      using that by (simp add: n2_def saturating_mul_def unat_div d h unsigned_minus_1_eq_mask mask_eq_exp_minus_1)
    ultimately have "10753 \<le> unat n2" using p by fastforce
    then show ?thesis by (simp add: c)
  qed
qed

lemma directories_le: "s \<le> 0x540000000 \<Longrightarrow> directories s \<le> 21"
  by (simp add: directories_def pages_2m_def)

lemma directories_pos: "0 < s \<Longrightarrow> 0 < directories s"
  by (simp add: directories_def pages_2m_def div_greater_zero_iff)

text \<open>The state after \<^verbatim>\<open>setup_identity_map\<close>.\<close>

definition tables_complete :: "'m gmem \<Rightarrow> u64 \<Rightarrow> nat \<Rightarrow> 'm \<Rightarrow> bool" where
  "tables_complete G n2 n m \<longleftrightarrow> tables_done G n2 n m \<and>
     (\<forall>p. n \<le> p \<longrightarrow> p < 512 \<longrightarrow> entry_at G m (0xa000 + 8 * p) = 0)"

lemma setup_identity_map_ok:
  assumes laws: "gmem_laws G sz" and s: "0x20000 \<le> sz m" "sz m \<le> 0x540000000"
  shows "\<exists>m' n2. setup_identity_map G m = Inr m' \<and> sz m' = sz m \<and> unat n2 = pages_2m (sz m) \<and>
    tables_complete G n2 (directories (sz m)) m' \<and>
    same_outside G 0x9000 (0xb000 + 4096 * directories (sz m)) m m'"
proof -
  let ?n = "directories (sz m)"
  define e where "e = last_addr G m + 1"
  define n2 where "n2 = saturating_mul (div_ceil e HUGE_PAGE_2M) HUGE_PAGE_2M div HUGE_PAGE_2M"
  define npd where "npd = div_ceil n2 PD_ENTRIES"
  note ts = table_sizes [OF laws, of m, folded e_def, folded n2_def, folded npd_def]
  have n: "unat n2 = pages_2m (sz m)" "unat npd = ?n" using ts(3) s by auto
  have b: "0 < ?n" "?n \<le> 21" using directories_le [OF s(2)] directories_pos [of "sz m"] s by simp_all
  have r: "0xb000 + 4096 * ?n \<le> sz m" using b s by simp
  have pt: "checked_add PD_TABLES_START (saturating_mul npd PAGE_SIZE) = Some (PD_TABLES_START + npd * PAGE_SIZE)"
    and end_le: "\<not> PD_TABLES_START + npd * PAGE_SIZE > CMDLINE_START"
  proof -
    have mul: "unat (npd * PAGE_SIZE) = ?n * 4096" "saturating_mul npd PAGE_SIZE = npd * PAGE_SIZE"
      using b n(2) by (simp_all add: unat_word_ariths saturating_mul_def const_defs)
    then show "checked_add PD_TABLES_START (saturating_mul npd PAGE_SIZE) = Some (PD_TABLES_START + npd * PAGE_SIZE)"
      using b by (simp add: checked_add_def) (simp add: const_defs)
    have "unat (PD_TABLES_START + npd * PAGE_SIZE) = 0xb000 + ?n * 4096"
      using b n(2) by (simp add: unat_word_ariths const_defs)
    then show "\<not> PD_TABLES_START + npd * PAGE_SIZE > CMDLINE_START"
      using b by (simp add: word_less_nat_alt) (simp add: const_defs)
  qed
  have nz: "\<not> (npd = 0 \<or> npd > PD_ENTRIES)"
    using b n(2) by (auto simp: word_less_nat_alt table_addresses)
  obtain m1 where m1: "write_entry G 0xa003 (of_nat 0x9000) m = Inr m1" "sz m1 = sz m"
      "entry_at G m1 0x9000 = 0xa003" "same_outside G 0x9000 (0x9000 + 8) m m1"
    using write_entry_at [OF laws, where n = "0x9000" and m = m and v = "0xa003"] s by auto
  have t1: "tables_done G n2 0 m1" using m1(3) by (simp add: tables_done_def)
  obtain m2 where m2: "for_each (\<lambda>p. write_page_directory G n2 (of_nat p)) [0..<?n] m1 = Inr m2"
      "sz m2 = sz m1" "tables_done G n2 ?n m2" "same_outside G 0x9000 (0xb000 + 4096 * ?n) m1 m2"
    using directory_loop [OF laws b(2) _ t1] r m1(2) by auto
  obtain m3 where m3: "for_each (\<lambda>p. write_entry G 0 (PDPT_START + of_nat p * 8)) [?n..<512] m2 = Inr m3"
      "sz m3 = sz m2" "tables_complete G n2 ?n m3" "same_outside G 0x9000 (0xb000 + 4096 * ?n) m2 m3"
    using zero_tail_loop [OF laws b(2) _ m2(3)] r m1(2) m2(2) by (auto simp: tables_complete_def)
  have c: "PDPT_START OR PTE_PRESENT_WRITABLE = 0xa003" "PML4_START = of_nat 0x9000"
    by (simp_all add: const_defs)
  have "setup_identity_map G m = Inr m3"
    unfolding setup_identity_map_def ts(1) Let_def option.case
      n2_def [symmetric] npd_def [symmetric] pt if_not_P [OF nz] if_not_P [OF end_le] c m1(1) and_then_simps
      n(2) m2(1) table_addresses(4) m3(1) ..
  moreover have "same_outside G 0x9000 (0xb000 + 4096 * ?n) m m1"
    by (rule same_outside_mono [OF m1(4)]) simp_all
  then have "same_outside G 0x9000 (0xb000 + 4096 * ?n) m m3"
    using m2(4) m3(4) by (blast intro: same_outside_chain)
  ultimately show ?thesis
    using n m1(2) m2(2) m3(2,3) by auto
qed

lemma index_bits: "unat (drop_bit k va AND mask 9) = unat (va :: u64) div 2 ^ k mod 512"
  unfolding take_bit_eq_mask [symmetric] unsigned_take_bit_eq unat_drop_bit_eq
  by (simp add: take_bit_eq_mod drop_bit_eq_div)

lemma table_index: "of_nat a + 8 * (drop_bit k va AND mask 9) = (of_nat (a + 8 * (unat (va :: u64) div 2 ^ k mod 512)) :: u64)"
proof -
  have "(drop_bit k va AND mask 9) = (of_nat (unat va div 2 ^ k mod 512) :: u64)"
    unfolding index_bits [symmetric] by simp
  then show ?thesis by simp
qed

lemma page_and_offset: "push_bit 21 (of_nat (unat va div 0x200000)) + (va AND mask 21) = (va :: u64)"
proof -
  have "drop_bit 21 va = of_nat (unat va div 0x200000)"
    unfolding word_unat_eq_iff unat_drop_bit_eq
    using unat_less_exp [of va] by (simp add: drop_bit_eq_div unat_of_nat_small)
  then show ?thesis
    using bits_ident [of 21 va] by (simp add: take_bit_eq_mask)
qed

lemma walk_tables:
  assumes t: "tables_complete G n2 n m" and n: "n \<le> 21" "unat n2 \<le> 512 * n" and va: "unat va < 2 ^ 39"
  shows "walk G m PML4_START va = (if unat va div 0x200000 < unat n2 then Some va else None)"
proof -
  let ?q = "unat va div 2 ^ 30" and ?g = "unat va div 0x200000"
  have q: "?q < 512" "unat va div 2 ^ 39 mod 512 = 0" "?q mod 512 = ?q" using va by simp_all
  have g: "?g = 512 * ?q + ?g mod 512"
  proof -
    have "?g div 512 = ?q" using div_mult2_eq [of "unat va" "0x200000" 512] by simp
    then show ?thesis by (metis mult_div_mod_eq)
  qed
  have e4: "read_u64 G m ((PML4_START AND TABLE_MASK) + 8 * (drop_bit 39 va AND mask 9)) = 0xa003"
  proof -
    have "PML4_START AND TABLE_MASK = of_nat 0x9000" by (simp add: const_defs TABLE_MASK_def)
    then show ?thesis
      using t by (simp only: table_index q) (simp add: tables_complete_def tables_done_def entry_at_def)
  qed
  have a4: "0xa003 AND TABLE_MASK = (of_nat 0xa000 :: u64)" "bit (0xa003 :: u64) 0"
    by (simp_all add: TABLE_MASK_def)
  have e3: "read_u64 G m ((0xa003 AND TABLE_MASK) + 8 * (drop_bit 30 va AND mask 9)) = entry_at G m (0xa000 + 8 * ?q)"
    unfolding a4 table_index q(3) entry_at_def ..
  show ?thesis
  proof (cases "?q < n")
    case False
    then have "entry_at G m (0xa000 + 8 * ?q) = 0" using t q(1) by (simp add: tables_complete_def)
    moreover have "\<not> ?g < unat n2" using False n(2) g by linarith
    ultimately show ?thesis unfolding walk_def Let_def e4 e3 by simp
  next
    case True
    let ?v = "of_nat (11 + ?q) :: u64"
    have b: "of_nat (0xb000 + 4096 * ?q) = push_bit 12 ?v" by (simp add: push_bit_eq_mult)
    have vq: "unat ?v < 2 ^ 40" using q(1) by (simp add: unat_of_nat_small del: of_nat_add)
    have r3: "entry_at G m (0xa000 + 8 * ?q) = push_bit 12 ?v OR 3"
    proof -
      have "entry_at G m (0xa000 + 8 * ?q) = of_nat (0xb000 + 4096 * ?q) OR 3"
        using t True unfolding tables_complete_def tables_done_def by blast
      then show ?thesis by (simp only: b)
    qed
    have e2: "read_u64 G m (((push_bit 12 ?v OR 3) AND TABLE_MASK) + 8 * (drop_bit 21 va AND mask 9)) =
        pd_entry n2 (of_nat ?g)"
    proof -
      have "pd_done G n2 ?q 512 m" using t True unfolding tables_complete_def tables_done_def by blast
      then have d: "read_u64 G m (of_nat (0xb000 + 4096 * ?q + 8 * (?g mod 512))) = pd_entry n2 (of_nat ?g)"
        unfolding pd_done_def entry_at_def by (metis g mod_less_divisor zero_less_numeral)
      have "unat va div 2 ^ 21 = ?g" by simp
      then have "((push_bit 12 ?v OR 3) AND TABLE_MASK) + 8 * (drop_bit 21 va AND mask 9) =
          of_nat (0xb000 + 4096 * ?q + 8 * (?g mod 512))"
        unfolding table_entry_fields(1) [OF vq] unfolding b [symmetric] table_index by (simp only:)
      then show ?thesis by (simp only: d)
    qed
    have ng: "unat (of_nat ?g :: u64) = ?g" "?g < 2 ^ 31" using va by (simp_all add: unat_of_nat_small)
    show ?thesis
    proof (cases "?g < unat n2")
      case False
      then have "pd_entry n2 (of_nat ?g) = 0" by (simp add: pd_entry_def word_less_nat_alt ng)
      then show ?thesis using False unfolding walk_def Let_def e4 e3 r3 e2 by simp
    next
      case l: True
      then have p: "pd_entry n2 (of_nat ?g) = push_bit 21 (of_nat ?g) OR 0x83"
        by (simp add: pd_entry_def word_less_nat_alt ng const_defs push_bit_eq_mult mult.commute)
      have "push_bit 21 (of_nat ?g) + (va AND mask 21) = va" by (rule page_and_offset)
      then show ?thesis
        using l large_page_fields [of "of_nat ?g"] ng table_entry_fields(2,3) [OF vq] a4(2)
        unfolding walk_def Let_def e4 e3 r3 e2 p by simp
    qed
  qed
qed

lemma setup_identity_map_err:
  assumes laws: "gmem_laws G sz" and s: "0x540000000 < sz m"
  shows "is_err (setup_identity_map G m)"
proof -
  define e where "e = last_addr G m + 1"
  define n2 where "n2 = saturating_mul (div_ceil e HUGE_PAGE_2M) HUGE_PAGE_2M div HUGE_PAGE_2M"
  define npd where "npd = div_ceil n2 PD_ENTRIES"
  note ts = table_sizes [OF laws, of m, folded e_def, folded n2_def, folded npd_def]
  have big: "22 \<le> unat npd" using ts(4) s by simp
  have "pt_end > CMDLINE_START" if l: "\<not> (npd = 0 \<or> npd > PD_ENTRIES)"
    and c: "checked_add PD_TABLES_START (saturating_mul npd PAGE_SIZE) = Some pt_end" for pt_end
  proof -
    have "unat npd \<le> 512" using l by (simp add: word_less_nat_alt table_addresses)
    then have "unat (saturating_mul npd PAGE_SIZE) = unat npd * 4096"
      by (simp add: saturating_mul_def unat_word_ariths const_defs)
    then have "unat pt_end = 0xb000 + unat npd * 4096"
      using checked_add_unat [OF c] by (simp add: const_defs)
    then show ?thesis using big by (simp add: word_less_nat_alt const_defs)
  qed
  then show ?thesis
    unfolding setup_identity_map_def ts(1) Let_def option.case n2_def [symmetric] npd_def [symmetric]
    by (auto split: option.split)
qed

text \<open>
  C14. The boot page tables translate every address of guest RAM to itself: with at least
  128 KiB and at most 21 GiB of RAM, \<^verbatim>\<open>setup_identity_map\<close> succeeds, an address below 512 GiB
  is translated to itself if it lies below the end of RAM rounded up to 2 MiB and is not
  mapped otherwise, and no byte outside the tables has changed; the tables end before the
  command line. With more RAM it fails.
\<close>

theorem identity_map_translates:
  assumes "gmem_laws G sz" and "0x20000 \<le> sz m"
  shows "if sz m \<le> 0x540000000
    then \<exists>m'. setup_identity_map G m = Inr m' \<and> sz m' = sz m \<and>
      (\<forall>va. unat va < 2 ^ 39 \<longrightarrow>
         walk G m' PML4_START va = (if unat va < pages_2m (sz m) * 0x200000 then Some va else None)) \<and>
      sz m \<le> pages_2m (sz m) * 0x200000 \<and>
      0xb000 + 4096 * directories (sz m) \<le> unat CMDLINE_START \<and>
      same_outside G (unat PML4_START) (0xb000 + 4096 * directories (sz m)) m m'
    else is_err (setup_identity_map G m)"
proof (cases "sz m \<le> 0x540000000")
  case True
  from setup_identity_map_ok [OF assms True] obtain m' n2 where
    m': "setup_identity_map G m = Inr m'" "sz m' = sz m" "unat n2 = pages_2m (sz m)"
      "tables_complete G n2 (directories (sz m)) m'"
      "same_outside G 0x9000 (0xb000 + 4096 * directories (sz m)) m m'"
    by blast
  have d: "directories (sz m) \<le> 21" "unat n2 \<le> 512 * directories (sz m)"
    using directories_le [OF True] m'(3) by (simp_all add: directories_def)
  have "unat va div 0x200000 < pages_2m (sz m) \<longleftrightarrow> unat va < pages_2m (sz m) * 0x200000" for va :: u64
    by (simp add: div_less_iff_less_mult)
  then have "walk G m' PML4_START va = (if unat va < pages_2m (sz m) * 0x200000 then Some va else None)"
    if "unat va < 2 ^ 39" for va
    using walk_tables [OF m'(4) d that] m'(3) by simp
  moreover have "sz m \<le> pages_2m (sz m) * 0x200000"
    unfolding pages_2m_def by linarith
  moreover have "0xb000 + 4096 * directories (sz m) \<le> unat CMDLINE_START" "unat PML4_START = 0x9000"
    using d(1) by (simp_all add: const_defs)
  ultimately show ?thesis using True m' by auto
next
  case False
  then show ?thesis using setup_identity_map_err [OF assms(1)] by simp
qed

theorem identity_map_translates_witness:
  "\<exists>m'. setup_identity_map flat_mem \<lparr>flat_size = 0x8000000, flat_data = (\<lambda>_. 0xff)\<rparr> = Inr m' \<and>
     walk flat_mem m' PML4_START 0x7ffffff = Some 0x7ffffff \<and> walk flat_mem m' PML4_START 0x8000000 = None"
proof -
  let ?m = "\<lparr>flat_size = 0x8000000, flat_data = (\<lambda>_. 0xff)\<rparr>"
  have fb: "flat_bytes ?m = 0x8000000" by (simp add: flat_bytes_def)
  have "0x20000 \<le> flat_bytes ?m" by (simp add: fb)
  from identity_map_translates [OF flat_mem_laws this] obtain m' where
    "setup_identity_map flat_mem ?m = Inr m'"
    "\<forall>va. unat va < 2 ^ 39 \<longrightarrow> walk flat_mem m' PML4_START va =
       (if unat va < pages_2m 0x8000000 * 0x200000 then Some va else None)"
    by (auto simp: fb)
  then show ?thesis by (auto simp: pages_2m_def)
qed

section \<open>Processor topology\<close>

lemma topology_entry_function [simp]:
  "cp_function (topology_entry i n e) = cp_function e" "cp_index (topology_entry i n e) = cp_index e"
  by (simp_all add: topology_entry_def cache_leaf_def Let_def)

lemma max_logical_small:
  "\<forall>n \<in> set (map of_nat [1..<33]). n \<le> ucast (max_logical_processors n AND 0xff :: u32)"
  by code_simp

lemma package_shift: "package_id_shift = 5"
  by code_simp

lemma max_logical_ge:
  assumes "1 \<le> unat n" and "unat n \<le> 32"
  shows "unat n \<le> unat (max_logical_processors n AND 0xff)"
proof -
  have "n = of_nat (unat n)" by simp
  then have "n \<in> set (map of_nat [1..<33])" using assms by (auto simp del: of_nat_unat)
  with max_logical_small have "n \<le> ucast (max_logical_processors n AND 0xff)" by blast
  then show ?thesis
    by (simp add: word_le_nat_alt unsigned_ucast_eq take_bit_eq_mod mod_less_eq_dividend le_trans)
qed

lemma apic_id_field:
  fixes b x :: u32 and i :: u8
  shows "drop_bit 24 (b AND 0xff OR push_bit 8 8 OR push_bit 16 (x AND 0xff) OR push_bit 24 (ucast i)) = (ucast i :: u32)"
    and "drop_bit 16 (b AND 0xff OR push_bit 8 8 OR push_bit 16 (x AND 0xff) OR push_bit 24 (ucast i)) AND 0xff = x AND 0xff"
proof -
  have m: "(0xff :: u32) = mask 8" "(8 :: u32) = push_bit 3 (mask 1)"
    by (simp_all add: mask_eq_exp_minus_1)
  show "drop_bit 24 (b AND 0xff OR push_bit 8 8 OR push_bit 16 (x AND 0xff) OR push_bit 24 (ucast i)) = (ucast i :: u32)"
    unfolding m by (rule bit_word_eqI) (auto simp: bit_simps simp del: mask_Suc_0 One_nat_def dest: bit_imp_le_length)
  show "drop_bit 16 (b AND 0xff OR push_bit 8 8 OR push_bit 16 (x AND 0xff) OR push_bit 24 (ucast i)) AND 0xff = x AND 0xff"
    unfolding m by (rule bit_word_eqI) (auto simp: bit_simps simp del: mask_Suc_0 One_nat_def dest: bit_imp_le_length)
qed

text \<open>What a topology leaf of vCPU \<open>i\<close> among \<open>n\<close> says, and what leaf 1 says.\<close>

definition topology_leaf_ok :: "u8 \<Rightarrow> u8 \<Rightarrow> kvm_cpuid_entry2 \<Rightarrow> bool" where
  "topology_leaf_ok i n e \<longleftrightarrow> cp_edx e = ucast i \<and>
     (cp_index e = 0 \<longrightarrow> cp_eax e = 0 \<and> cp_ebx e = 1 \<and> cp_ecx e = 0x100) \<and>
     (cp_index e = 1 \<longrightarrow> cp_eax e = 5 \<and> cp_ebx e = ucast n \<and> cp_ecx e = 0x201)"

definition feature_leaf_ok :: "u8 \<Rightarrow> u8 \<Rightarrow> kvm_cpuid_entry2 \<Rightarrow> bool" where
  "feature_leaf_ok i n e \<longleftrightarrow> drop_bit 24 (cp_ebx e) = ucast i \<and>
     unat n \<le> unat (drop_bit 16 (cp_ebx e) AND 0xff) \<and> bit (cp_ecx e) 31 \<and> (bit (cp_edx e) 28 \<longleftrightarrow> 1 < n)"

definition touched_leaves :: "u32 set" where
  "touched_leaves = {0, 0x1, 0x4, 0xb, 0x1f, 0x80000008, 0x8000001e}"

lemma topology_entry_leaf: "cp_function e = 0xb \<Longrightarrow> topology_leaf_ok i n (topology_entry i n e)"
proof -
  have "ucast n AND 0xffff = (ucast n :: u32)"
  proof -
    have m: "(0xffff :: u32) = mask 16" by (simp add: mask_eq_exp_minus_1)
    show ?thesis unfolding m by (rule bit_word_eqI) (auto simp: bit_simps dest: bit_imp_le_length)
  qed
  then show "cp_function e = 0xb \<Longrightarrow> topology_leaf_ok i n (topology_entry i n e)"
    by (simp add: topology_entry_def topology_leaf_ok_def package_shift Let_def const_defs)
qed

lemma topology_entry_features:
  assumes "1 \<le> unat n" and "unat n \<le> 32" and "cp_function e = 1"
  shows "feature_leaf_ok i n (topology_entry i n e)"
proof -
  have m: "(1 :: u32) = mask 1" by simp
  have b: "bit (w OR push_bit k 1) k" "\<not> bit (w AND NOT (push_bit k 1)) k" if "k < 32" for w :: u32 and k
    using that unfolding m by (simp_all add: bit_simps del: mask_Suc_0 One_nat_def)
  define x where "x = cp_ebx e AND 0xff OR push_bit 8 8 OR push_bit 16 (max_logical_processors n AND 0xff) OR
    push_bit 24 (ucast i)"
  have te: "topology_entry i n e = e\<lparr>cp_ebx := x, cp_ecx := cp_ecx e OR push_bit 31 1,
      cp_edx := (if n > 1 then cp_edx e OR push_bit 28 1 else cp_edx e AND NOT (push_bit 28 1))\<rparr>"
    using assms(3) by (simp only: topology_entry_def Let_def x_def if_True simp_thms)
  have "drop_bit 24 x = ucast i" "drop_bit 16 x AND 0xff = max_logical_processors n AND 0xff"
    unfolding x_def by (rule apic_id_field)+
  then show ?thesis
    using b(1) [of 31] b [of 28] max_logical_ge [OF assms(1,2)]
    unfolding feature_leaf_ok_def te by simp
qed

lemma raise_max_leaf_others:
  "filter (\<lambda>e. cp_function e \<notin> touched_leaves) (raise_max_leaf es) = filter (\<lambda>e. cp_function e \<notin> touched_leaves) es"
  by (induction es rule: raise_max_leaf.induct) (auto simp: touched_leaves_def)

lemma ensure_subleaf_others:
  "filter (\<lambda>e. cp_function e \<notin> touched_leaves) (ensure_subleaf 0xb ix es) =
   filter (\<lambda>e. cp_function e \<notin> touched_leaves) es"
  by (simp add: ensure_subleaf_def touched_leaves_def)

lemma topology_entry_others: "cp_function e \<notin> touched_leaves \<Longrightarrow> topology_entry i n e = e"
  by (simp add: topology_entry_def touched_leaves_def)

lemma filter_map_others:
  "filter (\<lambda>e. cp_function e \<notin> touched_leaves) (map (topology_entry i n) es) =
   filter (\<lambda>e. cp_function e \<notin> touched_leaves) es"
  by (induction es) (auto simp: topology_entry_others)

lemma mirror_others:
  "filter (\<lambda>e. cp_function e \<notin> touched_leaves) (mirror_topology es) = filter (\<lambda>e. cp_function e \<notin> touched_leaves) es"
  by (auto simp: mirror_topology_def touched_leaves_def intro!: filter_cong)

lemma ensure_subleaf_has: "\<exists>e \<in> set (ensure_subleaf f ix es). cp_function e = f \<and> cp_index e = ix"
  by (auto simp: ensure_subleaf_def list_ex_iff)

lemma ensure_subleaf_keeps: "set es \<subseteq> set (ensure_subleaf f ix es)"
  by (auto simp: ensure_subleaf_def)

lemma both_levels:
  "\<forall>ix \<in> {0, 1}. \<exists>e \<in> set (ensure_subleaf f 1 (ensure_subleaf f 0 es)). cp_function e = f \<and> cp_index e = ix"
  using ensure_subleaf_has [of f 0 es] ensure_subleaf_has [of f 1 "ensure_subleaf f 0 es"]
    ensure_subleaf_keeps by blast

lemma in_mirror_topology:
  "e \<in> set (mirror_topology M) \<longleftrightarrow>
     e \<in> set M \<and> cp_function e \<noteq> 0x1f \<or>
     (\<exists>d \<in> set M. cp_function d = 0xb \<and> e = d\<lparr>cp_function := 0x1f\<rparr> \<and> (\<exists>c \<in> set M. cp_function c = 0x1f))"
  by (auto simp: mirror_topology_def list_ex_iff)

lemma topology_copy:
  "topology_leaf_ok i n (d\<lparr>cp_function := f\<rparr>) = topology_leaf_ok i n d"
  "cp_function d = 0xb \<Longrightarrow> d\<lparr>cp_function := 0x1f\<rparr>\<lparr>cp_function := 0xb\<rparr> = d"
  by (simp_all add: topology_leaf_ok_def)

text \<open>
  C15. Every vCPU is shown the same flat topology and its own identity: in the CPUID leaves
  built for vCPU \<open>i\<close> of \<open>n\<close>, both levels of the topology leaf exist, every topology leaf
  (\<open>0xb\<close>, and \<open>0x1f\<close> where the host has it) carries the APIC identifier \<open>i\<close> and counts \<open>n\<close>
  processors in one package whose identifiers need five bits, leaf \<open>1\<close> carries the same
  identifier with room for \<open>n\<close> and announces a hypervisor, \<open>0x1f\<close> is a copy of \<open>0xb\<close>, and
  leaves about other things are those of the host.
\<close>

theorem cpu_topology_consistent:
  assumes "1 \<le> unat n" and "unat n \<le> 32" and "i < n"
  shows "let leaves = apply_cpu_topology i n host in
    (\<forall>ix \<in> {0, 1}. \<exists>e \<in> set leaves. cp_function e = 0xb \<and> cp_index e = ix) \<and>
    (\<forall>e \<in> set leaves. (cp_function e \<in> {0xb, 0x1f} \<longrightarrow> topology_leaf_ok i n e) \<and>
       (cp_function e = 1 \<longrightarrow> feature_leaf_ok i n e)) \<and>
    unat i < 2 ^ 5 \<and>
    (\<forall>e \<in> set leaves. cp_function e = 0x1f \<longrightarrow> e\<lparr>cp_function := 0xb\<rparr> \<in> set leaves) \<and>
    filter (\<lambda>e. cp_function e \<notin> touched_leaves) leaves = filter (\<lambda>e. cp_function e \<notin> touched_leaves) host"
proof -
  define X where "X = ensure_subleaf 0xb 1 (ensure_subleaf 0xb 0 (raise_max_leaf host))"
  define M where "M = map (topology_entry i n) X"
  have leaf: "topology_leaf_ok i n d" if "d \<in> set M" "cp_function d = 0xb" for d
    using that topology_entry_leaf by (auto simp: M_def)
  have feature: "feature_leaf_ok i n d" if "d \<in> set M" "cp_function d = 1" for d
    using that topology_entry_features [OF assms(1,2)] by (auto simp: M_def)
  have "\<forall>ix \<in> {0, 1}. \<exists>e \<in> set M. cp_function e = 0xb \<and> cp_index e = ix"
    unfolding M_def X_def using both_levels [of "0xb" "raise_max_leaf host"] by fastforce
  moreover have keep: "e \<in> set (mirror_topology M)" if "e \<in> set M" "cp_function e = 0xb" for e
    using that unfolding in_mirror_topology by simp
  ultimately have 1: "\<forall>ix \<in> {0, 1}. \<exists>e \<in> set (mirror_topology M). cp_function e = 0xb \<and> cp_index e = ix"
    by blast
  have mirrored: "\<exists>d. d \<in> set M \<and> cp_function d = 0xb \<and> e = d\<lparr>cp_function := 0x1f\<rparr>"
    if "e \<in> set (mirror_topology M)" "cp_function e = 0x1f" for e
    using that unfolding in_mirror_topology by blast
  have 2: "(cp_function e \<in> {0xb, 0x1f} \<longrightarrow> topology_leaf_ok i n e) \<and> (cp_function e = 1 \<longrightarrow> feature_leaf_ok i n e)"
    if e: "e \<in> set (mirror_topology M)" for e
  proof (cases "cp_function e = 0x1f")
    case True
    with mirrored [OF e] leaf topology_copy(1) show ?thesis by auto
  next
    case False
    with e have "e \<in> set M" unfolding in_mirror_topology by auto
    with False leaf feature show ?thesis by blast
  qed
  have 3: "e\<lparr>cp_function := 0xb\<rparr> \<in> set (mirror_topology M)"
    if "e \<in> set (mirror_topology M)" "cp_function e = 0x1f" for e
    using mirrored [OF that] keep topology_copy(2) by metis
  have 4: "unat i < 2 ^ 5" using assms(2,3) by (simp add: word_less_nat_alt)
  have 5: "filter (\<lambda>e. cp_function e \<notin> touched_leaves) (mirror_topology M) =
      filter (\<lambda>e. cp_function e \<notin> touched_leaves) host"
    unfolding mirror_others M_def filter_map_others X_def ensure_subleaf_others raise_max_leaf_others ..
  have "apply_cpu_topology i n host = mirror_topology M"
    by (simp add: apply_cpu_topology_def M_def X_def)
  then show ?thesis using 1 2 3 4 5 by (simp add: Let_def)
qed

definition sim_leaf :: "u32 \<Rightarrow> u32 \<Rightarrow> kvm_cpuid_entry2" where
  "sim_leaf f ix = \<lparr>cp_function = f, cp_index = ix, cp_flags = 0, cp_eax = 7, cp_ebx = 0xffffffff,
     cp_ecx = 0, cp_edx = 0, cp_padding = [0, 0, 0]\<rparr>"

theorem cpu_topology_consistent_witness:
  "let leaves = apply_cpu_topology 2 3 [sim_leaf 0 0, sim_leaf 1 0, sim_leaf 0x1f 0, sim_leaf 0x15 0] in
    list_all (\<lambda>e. (cp_function e \<in> {0xb, 0x1f} \<longrightarrow> topology_leaf_ok 2 3 e) \<and>
      (cp_function e = 1 \<longrightarrow> feature_leaf_ok 2 3 e)) leaves \<and>
    list_ex (\<lambda>e. cp_function e = 0x1f) leaves \<and>
    filter (\<lambda>e. cp_function e \<notin> touched_leaves) leaves = [sim_leaf 0x15 0]"
proof -
  let ?host = "[sim_leaf 0 0, sim_leaf 1 0, sim_leaf 0x1f 0, sim_leaf 0x15 0]"
  have "filter (\<lambda>e. cp_function e \<notin> touched_leaves) ?host = [sim_leaf 0x15 0]"
    by (simp add: sim_leaf_def touched_leaves_def)
  moreover have "list_ex (\<lambda>e. cp_function e = 0x1f) (apply_cpu_topology 2 3 ?host)"
    by code_simp
  ultimately show ?thesis
    using cpu_topology_consistent [of 3 2 ?host] by (simp add: Let_def list_all_iff)
qed

end
