(* ===== verification/LegacyIo.thy ===== *)
theory LegacyIo
  imports Config
begin

text \<open>
  \<^verbatim>\<open>src/devices/legacy_io.rs\<close>: the i8042 command port, the Intel CF9 reset register and
  the hardware-reduced ACPI sleep registers through which a guest reboots or powers off.
\<close>

datatype PowerAction = NoAction | Reset | Shutdown

definition I8042_DATA_PORT :: u16 where [const_defs]: "I8042_DATA_PORT = 0x60"
definition I8042_CMD_PORT :: u16 where [const_defs]: "I8042_CMD_PORT = 0x64"
definition I8042_CMD_RESET_CPU :: u8 where [const_defs]: "I8042_CMD_RESET_CPU = 0xfe"
definition I8042_STATUS_KBD_ENABLED :: u8 where [const_defs]: "I8042_STATUS_KBD_ENABLED = 0x10"
definition CF9_PORT :: u16 where [const_defs]: "CF9_PORT = 0xcf9"
definition CF9_RST_CPU :: u8 where [const_defs]: "CF9_RST_CPU = 0x04"
definition SLEEP_CONTROL_PORT :: u16 where [const_defs]: "SLEEP_CONTROL_PORT = 0x600"
definition SLEEP_STATUS_PORT :: u16 where [const_defs]: "SLEEP_STATUS_PORT = 0x601"
definition SLEEP_TYP_S5 :: u8 where [const_defs]: "SLEEP_TYP_S5 = 5"
definition SLEEP_TYPE_MASK :: u8 where [const_defs]: "SLEEP_TYPE_MASK = 0x1c"
definition SLEEP_TYPE_SHIFT :: nat where [const_defs]: "SLEEP_TYPE_SHIFT = 2"
definition SLEEP_ENABLE :: u8 where [const_defs]: "SLEEP_ENABLE = 0x20"
definition SLEEP_WAKE_STATUS :: u8 where [const_defs]: "SLEEP_WAKE_STATUS = 0x80"

record LegacyIo =
  i8042_status :: u8
  cf9 :: u8
  sleep_control :: u8
  sleep_status :: u8

definition LegacyIo_new :: LegacyIo where
  "LegacyIo_new =
     \<lparr>i8042_status = I8042_STATUS_KBD_ENABLED, cf9 = 0, sleep_control = 0, sleep_status = 0\<rparr>"

definition legacy_handles_port :: "u16 \<Rightarrow> bool" where
  "legacy_handles_port port \<longleftrightarrow>
     port = I8042_DATA_PORT \<or> port = I8042_CMD_PORT \<or> port = CF9_PORT \<or>
     port = SLEEP_CONTROL_PORT \<or> port = SLEEP_STATUS_PORT"

text \<open>A read fills the caller's buffer \<open>data\<close>; the model returns the filled buffer.\<close>

definition legacy_bus_read :: "LegacyIo \<Rightarrow> u16 \<Rightarrow> bytes \<Rightarrow> bytes" where
  "legacy_bus_read io port data =
     (case data of
       [] \<Rightarrow> []
     | _ # rest \<Rightarrow>
         (let value =
            (if port = I8042_CMD_PORT then i8042_status io
             else if port = I8042_DATA_PORT then 0
             else if port = CF9_PORT then cf9 io
             else if port = SLEEP_CONTROL_PORT then sleep_control io
             else if port = SLEEP_STATUS_PORT then sleep_status io
             else 0xff)
          in value # replicate (length rest) 0))"

definition sleep_control_action :: "u8 \<Rightarrow> PowerAction" where
  "sleep_control_action value =
     (if value AND SLEEP_ENABLE = 0 then NoAction
      else (let typ = drop_bit SLEEP_TYPE_SHIFT (value AND SLEEP_TYPE_MASK)
            in if typ = SLEEP_TYP_S5 then Shutdown else NoAction))"

definition legacy_bus_write :: "LegacyIo \<Rightarrow> u16 \<Rightarrow> bytes \<Rightarrow> PowerAction \<times> LegacyIo" where
  "legacy_bus_write io port data =
     (case data of
       [] \<Rightarrow> (NoAction, io)
     | value # _ \<Rightarrow>
         if port = I8042_CMD_PORT \<and> value = I8042_CMD_RESET_CPU then (Reset, io)
         else if port = I8042_CMD_PORT \<or> port = I8042_DATA_PORT then (NoAction, io)
         else if port = CF9_PORT then
           (if value AND CF9_RST_CPU \<noteq> 0 then Reset else NoAction, io\<lparr>cf9 := value\<rparr>)
         else if port = SLEEP_CONTROL_PORT then
           (sleep_control_action value, io\<lparr>sleep_control := value\<rparr>)
         else if port = SLEEP_STATUS_PORT then
           (NoAction,
            io\<lparr>sleep_status := sleep_status io AND NOT (value AND SLEEP_WAKE_STATUS)\<rparr>)
         else (NoAction, io))"

section \<open>Properties\<close>

inductive legacy_reachable :: "LegacyIo \<Rightarrow> bool" where
  legacy_start: "legacy_reachable LegacyIo_new"
| legacy_write: "legacy_reachable io \<Longrightarrow> legacy_reachable (snd (legacy_bus_write io port data))"

lemma sleep_control_action_eq:
  "sleep_control_action v = (if v AND 0x3c = 0x34 then Shutdown else NoAction)"
proof -
  have "\<forall>v::8 word. v AND 0x3c = 0x34 \<longleftrightarrow> v AND 0x20 \<noteq> 0 \<and> drop_bit 2 (v AND 0x1c) = 5"
    by code_simp
  then have "v AND 0x3c = 0x34 \<longleftrightarrow> v AND 0x20 \<noteq> 0 \<and> drop_bit 2 (v AND 0x1c) = 5"
    by blast
  then show ?thesis
    by (simp only: sleep_control_action_def const_defs Let_def) simp
qed

text \<open>
  C40. A guest write ends the run exactly on the documented requests: \<open>Shutdown\<close> for a write
  to the sleep control port with \<open>SLP_EN\<close> and the S5 sleep type, \<open>Reset\<close> for the i8042
  reset command or a CF9 write with \<open>RST_CPU\<close>; every other write asks for nothing.
\<close>

theorem legacy_write_power_spec:
  "fst (legacy_bus_write io port (v # rest)) =
     (if port = 0x600 \<and> v AND 0x3c = 0x34 then Shutdown
      else if (port = 0x64 \<and> v = 0xfe) \<or> (port = 0xcf9 \<and> v AND 4 \<noteq> 0) then Reset
      else NoAction)"
  by (simp add: legacy_bus_write_def const_defs sleep_control_action_eq)

lemma legacy_reachable_inv:
  "legacy_reachable io \<Longrightarrow> i8042_status io = 0x10 \<and> sleep_status io = 0"
proof (induction rule: legacy_reachable.induct)
  case legacy_start
  then show ?case by (simp add: LegacyIo_new_def const_defs)
next
  case (legacy_write io port data)
  then show ?case
    by (auto simp: legacy_bus_write_def split: list.splits)
qed

text \<open>
  In every state the guest can drive the registers into, a read of the i8042 command
  port shows the input buffer empty (bit 1 clear, so the kernel's \<open>kb_wait\<close> returns), and
  the wake status bit of the sleep status register reads as zero.
\<close>

lemma legacy_status_always_ready:
  assumes "legacy_reachable io"
  shows "legacy_bus_read io I8042_CMD_PORT (b # rest) = 0x10 # replicate (length rest) 0 \<and>
    legacy_bus_read io SLEEP_STATUS_PORT (b # rest) = 0 # replicate (length rest) 0"
  using legacy_reachable_inv [OF assms]
  by (simp_all add: legacy_bus_read_def const_defs)

end
