(* ===== verification/Acpi.thy ===== *)
theory Acpi
  imports Boot LegacyIo
begin

text \<open>
  \<^verbatim>\<open>src/acpi.rs\<close>: the ACPI tables and where they go. What a table or an AML object is made of
  is data here; its bytes are made by the \<^verbatim>\<open>acpi_tables\<close> crate, which is a parameter.
\<close>

section \<open>AML objects and tables of acpi_tables\<close>

datatype aml =
    AmlByte u8
  | AmlDword u32
  | AmlOne
  | AmlStr string
  | AmlEisaName string
  | AmlPackage "aml list"
  | AmlInterrupt bool bool bool bool u32
  | AmlIo u16 u16 u8 u8
  | AmlMemory32Fixed bool u32 u32
  | AmlResourceTemplate "aml list"
  | AmlName string aml
  | AmlDevice string "aml list"

datatype AddressSpace = SystemIo | OtherSpace
datatype AccessSize = ByteAccess | OtherAccess

record GAS =
  gas_space :: AddressSpace
  gas_bit_width :: u8
  gas_bit_offset :: u8
  gas_access :: AccessSize
  gas_address :: u64

datatype madt_entry = ProcessorLocalApic u8 u8 bool | IoApic u8 u32 u32

record fadt_fields =
  fadt_dsdt :: u64
  fadt_hw_reduced :: bool
  sleep_control_reg :: GAS
  sleep_status_reg :: GAS

record oem =
  oem_id :: string
  oem_table_id :: string
  oem_revision :: u32

record acpi_enc =
  aml_bytes :: "aml \<Rightarrow> bytes"
  sdt_bytes :: "string \<Rightarrow> u32 \<Rightarrow> u8 \<Rightarrow> oem \<Rightarrow> bytes \<Rightarrow> bytes"
  fadt_bytes :: "oem \<Rightarrow> fadt_fields \<Rightarrow> bytes"
  madt_bytes :: "oem \<Rightarrow> u32 \<Rightarrow> madt_entry list \<Rightarrow> bytes"
  xsdt_bytes :: "oem \<Rightarrow> u64 list \<Rightarrow> bytes"
  rsdp_bytes :: "string \<Rightarrow> u64 \<Rightarrow> bytes"

section \<open>Operations (acpi.rs)\<close>

definition ACPI_TABLES_BASE :: u64 where [const_defs]: "ACPI_TABLES_BASE = 0x000e0000"
definition OEM_ID :: string where [const_defs]: "OEM_ID = ''KITUNE''"
definition OEM_TABLE_ID :: string where [const_defs]: "OEM_TABLE_ID = ''KITSUNE ''"
definition OEM_REVISION :: u32 where [const_defs]: "OEM_REVISION = 1"
definition LAPIC_ADDR :: u32 where [const_defs]: "LAPIC_ADDR = 0xfee00000"
definition IOAPIC_ADDR :: u32 where [const_defs]: "IOAPIC_ADDR = 0xfec00000"

text \<open>The serial interrupt, a constant of \<^verbatim>\<open>serial.rs\<close>.\<close>

definition SERIAL_IRQ :: u32 where [const_defs]: "SERIAL_IRQ = 4"

record VirtioMmioAcpi =
  acpi_base :: u32
  acpi_size :: u32
  acpi_irq :: u32
  acpi_uid :: u32

definition kitsune_oem :: oem where
  "kitsune_oem = \<lparr>oem_id = OEM_ID, oem_table_id = OEM_TABLE_ID, oem_revision = OEM_REVISION\<rparr>"

definition sleep_gas :: "u16 \<Rightarrow> GAS" where
  "sleep_gas port = \<lparr>gas_space = SystemIo, gas_bit_width = 8, gas_bit_offset = 0,
     gas_access = ByteAccess, gas_address = ucast port\<rparr>"

definition append_s5 :: "acpi_enc \<Rightarrow> bytes \<Rightarrow> bytes" where
  "append_s5 A out =
     (let typ_a = SLEEP_TYP_S5; typ_b = SLEEP_TYP_S5
      in out @ aml_bytes A (AmlName (CHR 0x5C # ''_S5_'') (AmlPackage [AmlByte typ_a, AmlByte typ_b])))"

definition append_com1_device :: "acpi_enc \<Rightarrow> bytes \<Rightarrow> bytes" where
  "append_com1_device A out =
     (let hid = AmlEisaName ''PNP0501'';
          irq = AmlInterrupt True True False False SERIAL_IRQ;
          io = AmlIo 0x3f8 0x3f8 0 0x8;
          crs = AmlResourceTemplate [irq, io]
      in out @ aml_bytes A (AmlDevice ''_SB_.COM1'' [AmlName ''_HID'' hid, AmlName ''_CRS'' crs]))"

text \<open>The format \<^verbatim>\<open>{:03X}\<close>: upper-case hexadecimal, padded to three digits.\<close>

definition hex_digit :: "nat \<Rightarrow> char" where
  "hex_digit d = char_of (if d < 10 then 48 + d else 55 + d)"

fun hex_upper :: "nat \<Rightarrow> string" where
  "hex_upper n = (if n < 16 then [hex_digit n] else hex_upper (n div 16) @ [hex_digit (n mod 16)])"

declare hex_upper.simps [simp del]

definition hex3 :: "u32 \<Rightarrow> string" where
  "hex3 w = (let s = hex_upper (unat w) in replicate (3 - length s) (CHR ''0'') @ s)"

definition append_virtio_mmio_device :: "acpi_enc \<Rightarrow> VirtioMmioAcpi \<Rightarrow> bytes \<Rightarrow> bytes" where
  "append_virtio_mmio_device A dev out =
     (let path = ''_SB_.V'' @ hex3 (acpi_uid dev);
          mem32 = AmlMemory32Fixed True (acpi_base dev) (acpi_size dev);
          irq = AmlInterrupt True True False False (acpi_irq dev);
          crs = AmlResourceTemplate [mem32, irq]
      in out @ aml_bytes A (AmlDevice path
           [AmlName ''_HID'' (AmlStr ''LNRO0005''), AmlName ''_UID'' (AmlDword (acpi_uid dev)),
            AmlName ''_CCA'' AmlOne, AmlName ''_CRS'' crs]))"

definition write_bytes :: "'m gmem \<Rightarrow> u64 \<Rightarrow> bytes \<Rightarrow> 'm \<Rightarrow> (error, 'm) result" where
  "write_bytes G addr data m = with_err (\<lambda>t. MemoryAccess (MsgExt t)) (write_slice G data addr m)"

definition align_up :: "u64 \<Rightarrow> u64 \<Rightarrow> u64" where
  "align_up value align = (value + align - 1) AND NOT (align - 1)"

text \<open>The bytes of the four tables that depend on addresses and devices.\<close>

definition dsdt_table :: "acpi_enc \<Rightarrow> VirtioMmioAcpi list \<Rightarrow> bytes" where
  "dsdt_table A virtio_devices =
     (let aml = append_com1_device A (append_s5 A []);
          aml = fold (append_virtio_mmio_device A) virtio_devices aml
      in sdt_bytes A ''DSDT'' 36 2 kitsune_oem aml)"

definition fadt_table :: "acpi_enc \<Rightarrow> u64 \<Rightarrow> bytes" where
  "fadt_table A dsdt_addr =
     fadt_bytes A kitsune_oem \<lparr>fadt_dsdt = dsdt_addr, fadt_hw_reduced = True,
       sleep_control_reg = sleep_gas SLEEP_CONTROL_PORT, sleep_status_reg = sleep_gas SLEEP_STATUS_PORT\<rparr>"

definition madt_table :: "acpi_enc \<Rightarrow> u8 \<Rightarrow> bytes" where
  "madt_table A ncpus =
     madt_bytes A kitsune_oem LAPIC_ADDR
       (map (\<lambda>i. ProcessorLocalApic (of_nat i) (of_nat i) True) [0..<unat ncpus] @ [IoApic 0 IOAPIC_ADDR 0])"

definition install_tables ::
  "'m gmem \<Rightarrow> acpi_enc \<Rightarrow> VirtioMmioAcpi list \<Rightarrow> u8 \<Rightarrow> 'm \<Rightarrow> (error, u64 \<times> 'm) result" where
  "install_tables G A virtio_devices ncpus m =
     (if ncpus = 0 then Inl (InvalidVcpuCount 0 MAX_VCPUS)
      else if last_addr G m < 0x100000
      then Inl (GuestMemory (Msg ''guest memory too small for ACPI tables''))
      else
        (let cursor = ACPI_TABLES_BASE;
             dsdt = dsdt_table A virtio_devices; dsdt_addr = cursor
         in and_then (write_bytes G dsdt_addr dsdt m) (\<lambda>m.
        let cursor = cursor + align_up (of_nat (length dsdt)) 16;
            fadt = fadt_table A dsdt_addr; fadt_addr = cursor
         in and_then (write_bytes G fadt_addr fadt m) (\<lambda>m.
        let cursor = cursor + align_up (of_nat (length fadt)) 16;
            madt = madt_table A ncpus; madt_addr = cursor
         in and_then (write_bytes G madt_addr madt m) (\<lambda>m.
        let cursor = cursor + align_up (of_nat (length madt)) 16;
            xsdt = xsdt_bytes A kitsune_oem [fadt_addr, madt_addr]; xsdt_addr = cursor
         in and_then (write_bytes G xsdt_addr xsdt m) (\<lambda>m.
        let cursor = cursor + align_up (of_nat (length xsdt)) 16;
            rsdp = rsdp_bytes A OEM_ID xsdt_addr; rsdp_addr = cursor
         in and_then (write_bytes G rsdp_addr rsdp m) (\<lambda>m. Inr (rsdp_addr, m))))))))"

section \<open>Where the tables are\<close>

definition up16 :: "nat \<Rightarrow> nat" where
  "up16 n = (n + 15) div 16 * 16"

lemma up16_ge: "n \<le> up16 n" and up16_dvd: "16 dvd up16 n"
  by (simp_all add: up16_def)

lemma unat_align_up:
  assumes "n < 2 ^ 32"
  shows "unat (align_up (of_nat n) 16) = up16 n"
proof -
  have m: "NOT (16 - 1) = (NOT (mask 4) :: u64)" by (simp add: mask_eq_exp_minus_1)
  have "w AND NOT (mask 4) = push_bit 4 (drop_bit 4 w)" for w :: u64
    by (rule bit_word_eqI)
      (simp add: bit_and_iff bit_not_iff bit_mask_iff bit_push_bit_iff bit_drop_bit_eq; fastforce)
  then have e: "align_up (of_nat n) 16 = push_bit 4 (drop_bit 4 (of_nat (n + 15)))"
    unfolding align_up_def m by (simp add: algebra_simps)
  have u: "unat (of_nat (n + 15) :: u64) = n + 15" using assms by (intro unat_of_nat_small) simp
  have "unat (drop_bit 4 (of_nat (n + 15) :: u64)) = (n + 15) div 16"
    unfolding unat_drop_bit_eq u by (simp add: drop_bit_eq_div)
  then show ?thesis
    using assms unfolding e up16_def by (simp add: push_bit_eq_mult unat_word_ariths del: of_nat_add)
qed

lemma align_up_of_nat: "n < 2 ^ 32 \<Longrightarrow> align_up (of_nat n) 16 = of_nat (up16 n)"
  using unat_align_up [of n] by (metis of_nat_unat ucast_id)

text \<open>The tables with their addresses, in the order in which they are written.\<close>

definition acpi_layout :: "acpi_enc \<Rightarrow> VirtioMmioAcpi list \<Rightarrow> u8 \<Rightarrow> (nat \<times> bytes) list" where
  "acpi_layout A devs ncpus =
     (let a0 = 0xe0000; dsdt = dsdt_table A devs;
          a1 = a0 + up16 (length dsdt); fadt = fadt_table A (of_nat a0);
          a2 = a1 + up16 (length fadt); madt = madt_table A ncpus;
          a3 = a2 + up16 (length madt); xsdt = xsdt_bytes A kitsune_oem [of_nat a1, of_nat a2];
          a4 = a3 + up16 (length xsdt); rsdp = rsdp_bytes A OEM_ID (of_nat a3)
      in [(a0, dsdt), (a1, fadt), (a2, madt), (a3, xsdt), (a4, rsdp)])"

definition acpi_fits :: "(nat \<times> bytes) list \<Rightarrow> bool" where
  "acpi_fits l \<longleftrightarrow> list_all (\<lambda>(a, bs). bs \<noteq> [] \<and> a + length bs \<le> 0x100000) l"

lemma write_bytes_at:
  assumes "gmem_laws G sz" and "bs \<noteq> []" and "a + length bs \<le> 0x100000" and "0x100000 \<le> sz m"
  obtains m' where "write_bytes G (of_nat a) bs m = Inr m'" "sz m' = sz m" "holds G a bs m'"
    "same_outside G a (a + length bs) m m'"
proof -
  have u: "unat (of_nat a :: u64) = a" using assms(3) by (intro unat_of_nat_small) simp
  obtain m' where m': "write_slice G bs (of_nat a) m = Inr m'" "sz m' = sz m" "written G bs a m m'"
    using gmem_write_ok [OF assms(1,2), of "of_nat a" m] assms(3,4) u by auto
  moreover have "holds G a bs m'" using assms(3) by (intro written_holds [OF m'(3)]) simp
  moreover note written_same_outside [OF m'(3)]
  ultimately show thesis using that by (simp add: write_bytes_def)
qed

text \<open>Writing tables one after another, each above the last: all of them are there at the end.\<close>

fun write_all_tables :: "'m gmem \<Rightarrow> (nat \<times> bytes) list \<Rightarrow> 'm \<Rightarrow> (error, 'm) result" where
  "write_all_tables G [] m = Inr m"
| "write_all_tables G ((a, bs) # l) m = and_then (write_bytes G (of_nat a) bs m) (write_all_tables G l)"

lemma write_all_tables_ok:
  assumes laws: "gmem_laws G sz" and "acpi_fits l" and "0x100000 \<le> sz m"
    and "sorted_wrt (\<lambda>(a, bs) (b, _). a + length bs \<le> b) l" and "list_all (\<lambda>(a, _). lo \<le> a) l"
  shows "\<exists>m'. write_all_tables G l m = Inr m' \<and> sz m' = sz m \<and> list_all (\<lambda>(a, bs). holds G a bs m') l \<and>
    same_outside G lo 0x100000 m m'"
  using assms(2-)
proof (induction l arbitrary: m lo)
  case Nil
  then show ?case by simp
next
  case (Cons t l)
  obtain a bs where t: "t = (a, bs)" by (cases t)
  have f: "bs \<noteq> []" "a + length bs \<le> 0x100000" "acpi_fits l" "lo \<le> a"
    using Cons.prems by (simp_all add: t acpi_fits_def)
  obtain m1 where m1: "write_bytes G (of_nat a) bs m = Inr m1" "sz m1 = sz m" "holds G a bs m1"
      "same_outside G a (a + length bs) m m1"
    using write_bytes_at [OF laws f(1,2) Cons.prems(2)] by blast
  have "list_all (\<lambda>(b, _). a + length bs \<le> b) l" "sorted_wrt (\<lambda>(a, bs) (b, _). a + length bs \<le> b) l"
    using Cons.prems(3) by (auto simp: t list_all_iff)
  from Cons.IH [where m = m1, OF f(3) _ this(2,1)] obtain m2 where m2: "write_all_tables G l m1 = Inr m2" "sz m2 = sz m1"
      "list_all (\<lambda>(a, bs). holds G a bs m2) l" "same_outside G (a + length bs) 0x100000 m1 m2"
    using m1(2) Cons.prems(2) by auto
  have "holds G a bs m2"
    by (rule holds_same_outside [OF m2(4) _ _ m1(3)]) (use f in simp_all)
  moreover have "same_outside G lo 0x100000 m m2"
    using same_outside_trans [OF m1(4) m2(4)] by (rule same_outside_mono) (use f in simp_all)
  ultimately show ?case using m1(1,2) m2(1,2,3) by (simp add: t)
qed

lemma install_tables_layout:
  assumes fits: "acpi_fits (acpi_layout A devs n)" and n: "n \<noteq> 0" and room: "\<not> last_addr G m < 0x100000"
  shows "install_tables G A devs n m =
    and_then (write_all_tables G (acpi_layout A devs n) m) (\<lambda>m. Inr (of_nat (fst (last (acpi_layout A devs n))), m))"
proof -
  define dsdt where "dsdt = dsdt_table A devs"
  define a1 where "a1 = 0xe0000 + up16 (length dsdt)"
  define fadt where "fadt = fadt_table A (of_nat 0xe0000)"
  define a2 where "a2 = a1 + up16 (length fadt)"
  define madt where "madt = madt_table A n"
  define a3 where "a3 = a2 + up16 (length madt)"
  define xsdt where "xsdt = xsdt_bytes A kitsune_oem [of_nat a1, of_nat a2]"
  define a4 where "a4 = a3 + up16 (length xsdt)"
  have l: "acpi_layout A devs n =
      [(0xe0000, dsdt), (a1, fadt), (a2, madt), (a3, xsdt), (a4, rsdp_bytes A OEM_ID (of_nat a3))]"
    by (simp only: acpi_layout_def Let_def dsdt_def a1_def fadt_def a2_def madt_def a3_def xsdt_def a4_def)
  have "length dsdt < 2 ^ 32" "length fadt < 2 ^ 32" "length madt < 2 ^ 32" "length xsdt < 2 ^ 32"
    using fits by (simp_all add: l acpi_fits_def)
  then have a: "ACPI_TABLES_BASE = of_nat 0xe0000"
      "of_nat 0xe0000 + align_up (of_nat (length dsdt)) 16 = of_nat a1"
      "of_nat a1 + align_up (of_nat (length fadt)) 16 = of_nat a2"
      "of_nat a2 + align_up (of_nat (length madt)) 16 = of_nat a3"
      "of_nat a3 + align_up (of_nat (length xsdt)) 16 = of_nat a4"
    by (simp_all add: align_up_of_nat a1_def a2_def a3_def a4_def const_defs)
  have assoc: "and_then (and_then x f) g = and_then x (\<lambda>y. and_then (f y) g)"
    for x :: "(error, 'b) result" and f g
    by (cases x) simp_all
  show ?thesis
    unfolding install_tables_def if_not_P [OF n] if_not_P [OF room] Let_def a dsdt_def [symmetric]
    unfolding a fadt_def [symmetric] unfolding a madt_def [symmetric] unfolding a xsdt_def [symmetric]
    unfolding a l by (simp add: assoc)
qed

lemma acpi_layout_sorted:
  "sorted_wrt (\<lambda>(a, bs) (b, _). a + length bs \<le> b) (acpi_layout A devs n)"
  "list_all (\<lambda>(a, _). 0xe0000 \<le> a \<and> 16 dvd a) (acpi_layout A devs n)"
proof -
  have s: "sorted_wrt (\<lambda>(a, bs) (b, _). a + length bs \<le> b)
      [(a0, t0), (a0 + up16 (length t0), t1), (a0 + up16 (length t0) + up16 (length t1), t2),
       (a0 + up16 (length t0) + up16 (length t1) + up16 (length t2), t3),
       (a0 + up16 (length t0) + up16 (length t1) + up16 (length t2) + up16 (length t3), t4)]" for a0 t0 t1 t2 t3 t4
    using up16_ge [of "length t0"] up16_ge [of "length t1"] up16_ge [of "length t2"] up16_ge [of "length t3"] by auto
  show "sorted_wrt (\<lambda>(a, bs) (b, _). a + length bs \<le> b) (acpi_layout A devs n)"
    unfolding acpi_layout_def Let_def by (rule s)
  have "16 dvd (0xe0000 :: nat)" by simp
  then show "list_all (\<lambda>(a, _). 0xe0000 \<le> a \<and> 16 dvd a) (acpi_layout A devs n)"
    unfolding acpi_layout_def Let_def by (simp add: up16_dvd dvd_add)
qed


definition sim_acpi :: acpi_enc where
  "sim_acpi = \<lparr>aml_bytes = (\<lambda>_. [1]), sdt_bytes = (\<lambda>_ _ _ _ b. b), fadt_bytes = (\<lambda>_ f. le_bytes 8 (fadt_dsdt f)),
     madt_bytes = (\<lambda>_ _ es. replicate (length es) 2), xsdt_bytes = (\<lambda>_ as. concat (map (le_bytes 8) as)),
     rsdp_bytes = (\<lambda>_ a. le_bytes 8 a)\<rparr>"


end
