(* ===== verification/Serial.thy ===== *)
theory Serial
  imports Virtq LegacyIo "HOL-Library.Sublist"
begin

text \<open>
  \<^verbatim>\<open>src/devices/serial.rs\<close> and \<^verbatim>\<open>src/devices/pio_bus.rs\<close>: the serial console and the port I/O
  bus. The UART is that of the \<^verbatim>\<open>vm_superio\<close> crate and a parameter, as are the standard
  streams; both live in the world \<open>'w\<close>. The setup of the host terminal and the thread that
  polls the standard input are not modelled; \<^verbatim>\<open>drain_stdin\<close>, which that thread calls, is.
\<close>

section \<open>The UART and the host streams\<close>

datatype uart_error = UartIo io_error | UartOther string

record 'w uart =
  u_write :: "u8 \<Rightarrow> u8 \<Rightarrow> 'w \<Rightarrow> (uart_error, unit, 'w) effect"
  u_read :: "u8 \<Rightarrow> 'w \<Rightarrow> u8 \<times> 'w"
  u_capacity :: "'w \<Rightarrow> nat"
  u_enqueue :: "bytes \<Rightarrow> 'w \<Rightarrow> (uart_error, nat, 'w) effect"
  stdout_flush :: "'w \<Rightarrow> 'w"
  stdin_read :: "nat \<Rightarrow> 'w \<Rightarrow> (int, bytes, 'w) effect"

definition uart_detail :: "uart_error \<Rightarrow> detail" where
  "uart_detail e = (case e of UartIo e \<Rightarrow> MsgIo '''' e | UartOther t \<Rightarrow> MsgExt t)"

section \<open>The console (serial.rs)\<close>

definition SERIAL_PORT_BASE :: u16 where [const_defs]: "SERIAL_PORT_BASE = 0x3f8"
definition SERIAL_PORT_SIZE :: u16 where [const_defs]: "SERIAL_PORT_SIZE = 8"
definition UART_FIFO_SIZE :: nat where [const_defs]: "UART_FIFO_SIZE = 0x40"

datatype DsrProbe = DsrIdle | DsrEsc | DsrBracket | DsrSix

record DrainStatus =
  stdin_open :: bool
  fifo_has_space :: bool

record SerialConsole =
  sc_irq_fd :: EventFd
  sc_rx_space_fd :: EventFd
  sc_stdin_ready :: bool
  sc_dsr_probe :: DsrProbe
  sc_pending_rx :: bytes
  sc_dsr_auto_reply :: bool

definition serial_handles_port :: "u16 \<Rightarrow> bool" where
  "serial_handles_port port \<longleftrightarrow> SERIAL_PORT_BASE \<le> port \<and> port < SERIAL_PORT_BASE + SERIAL_PORT_SIZE"

partial_function (option) write_uart ::
  "'w uart \<Rightarrow> u8 \<Rightarrow> u8 \<Rightarrow> 'w \<Rightarrow> (error, unit, 'w) effect option" where
  "write_uart U offset byte w =
     (case u_write U offset byte w of
       (Inr _, w) \<Rightarrow> Some (Inr (), w)
     | (Inl (UartIo e), w) \<Rightarrow>
         if io_kind_of e = Interrupted then write_uart U offset byte w
         else Some (Inl (Serial (uart_detail (UartIo e))), w)
     | (Inl e, w) \<Rightarrow> Some (Inl (Serial (uart_detail e)), w))"

definition enqueue_rx :: "'w uart \<Rightarrow> bytes \<Rightarrow> 'w \<Rightarrow> (error, unit, 'w) effect" where
  "enqueue_rx U bs w =
     (case u_enqueue U bs w of (Inl e, w) \<Rightarrow> (Inl (Serial (uart_detail e)), w) | (Inr _, w) \<Rightarrow> (Inr (), w))"

text \<open>\<open>None\<close> is a loop that does not end, or the panic of \<^verbatim>\<open>drain\<close> past the end of the buffer.\<close>

partial_function (option) serial_flush_rx ::
  "'w uart \<Rightarrow> bytes \<Rightarrow> 'w \<Rightarrow> ((error, unit) result \<times> bytes \<times> 'w) option" where
  "serial_flush_rx U pending w =
     (if pending = [] then Some (Inr (), pending, w)
      else
        (let capacity = u_capacity U w
         in if capacity = 0 then Some (Inr (), pending, w)
            else
              (let n = min capacity (length pending)
               in case u_enqueue U (take n pending) w of
                    (Inl e, w) \<Rightarrow> Some (Inl (Serial (uart_detail e)), pending, w)
                  | (Inr written, w) \<Rightarrow>
                      if length pending < written then None
                      else serial_flush_rx U (drop written pending) w)))"

definition reassert_rx_irq :: "'w uart \<Rightarrow> 'w evfd \<Rightarrow> SerialConsole \<Rightarrow> 'w \<Rightarrow> (error, unit, 'w) effect" where
  "reassert_rx_irq U E sc w =
     (if u_capacity U w < UART_FIFO_SIZE then
        (case ev_write E (sc_irq_fd sc) 1 w of
          (Inl e, w) \<Rightarrow> (Inl (Serial (MsgIo '''' e)), w)
        | (Inr _, w) \<Rightarrow> (Inr (), w))
      else (Inr (), w))"

definition notify_rx_space :: "'w uart \<Rightarrow> 'w evfd \<Rightarrow> SerialConsole \<Rightarrow> 'w \<Rightarrow> 'w" where
  "notify_rx_space U E sc w = (if u_capacity U w > 0 then snd (ev_write E (sc_rx_space_fd sc) 1 w) else w)"

text \<open>The next state of the probe, and whether the query is complete.\<close>

definition dsr_next :: "DsrProbe \<Rightarrow> u8 \<Rightarrow> DsrProbe \<times> bool" where
  "dsr_next p byte =
     (if byte = 0x1b then (DsrEsc, False)
      else case p of
        DsrEsc \<Rightarrow> if byte = 0x5b then (DsrBracket, False) else (DsrIdle, False)
      | DsrBracket \<Rightarrow> if byte = 0x36 then (DsrSix, False) else (DsrIdle, False)
      | DsrSix \<Rightarrow> if byte = 0x6e then (DsrIdle, True) else (DsrIdle, False)
      | DsrIdle \<Rightarrow> (DsrIdle, False))"

definition DSR_REPLY :: bytes where [const_defs]: "DSR_REPLY = [0x1b, 0x5b, 0x31, 0x3b, 0x38, 0x30, 0x52]"

definition observe_guest_tx ::
  "'w uart \<Rightarrow> 'w evfd \<Rightarrow> u8 \<Rightarrow> SerialConsole \<Rightarrow> 'w \<Rightarrow> ((error, unit) result \<times> SerialConsole \<times> 'w) option" where
  "observe_guest_tx U E byte sc w =
     (let (p, complete) = dsr_next (sc_dsr_probe sc) byte
      in if complete \<and> sc_dsr_auto_reply sc then
           (case serial_flush_rx U (sc_pending_rx sc @ DSR_REPLY) w of
             None \<Rightarrow> None
           | Some (Inl e, pending, w) \<Rightarrow> Some (Inl e, sc\<lparr>sc_pending_rx := pending\<rparr>, w)
           | Some (Inr _, pending, w) \<Rightarrow>
               (let sc = sc\<lparr>sc_pending_rx := pending\<rparr>
                in case reassert_rx_irq U E sc w of
                     (Inl e, w) \<Rightarrow> Some (Inl e, sc, w)
                   | (Inr _, w) \<Rightarrow> Some (Inr (), sc\<lparr>sc_dsr_probe := p\<rparr>, notify_rx_space U E sc w)))
         else Some (Inr (), sc\<lparr>sc_dsr_probe := p\<rparr>, w))"

fun serial_write_loop ::
  "'w uart \<Rightarrow> 'w evfd \<Rightarrow> u8 \<Rightarrow> bytes \<Rightarrow> SerialConsole \<Rightarrow> 'w \<Rightarrow> ((error, unit) result \<times> SerialConsole \<times> 'w) option" where
  "serial_write_loop U E offset [] sc w = Some (Inr (), sc, w)"
| "serial_write_loop U E offset (byte # rest) sc w =
     (case write_uart U offset byte w of
       None \<Rightarrow> None
     | Some (Inl e, w) \<Rightarrow> Some (Inl e, sc, w)
     | Some (Inr _, w) \<Rightarrow>
         (case (if offset = 0 then observe_guest_tx U E byte sc w else Some (Inr (), sc, w)) of
           None \<Rightarrow> None
         | Some (Inl e, sc, w) \<Rightarrow> Some (Inl e, sc, w)
         | Some (Inr _, sc, w) \<Rightarrow> serial_write_loop U E offset rest sc w))"

definition serial_bus_write ::
  "'w uart \<Rightarrow> 'w evfd \<Rightarrow> u16 \<Rightarrow> bytes \<Rightarrow> SerialConsole \<Rightarrow> 'w \<Rightarrow> ((error, unit) result \<times> SerialConsole \<times> 'w) option" where
  "serial_bus_write U E port data sc w =
     (let offset = ucast (port - SERIAL_PORT_BASE) :: u8; is_data = (offset = 0)
      in case serial_write_loop U E offset data sc w of
           None \<Rightarrow> None
         | Some (Inl e, sc, w) \<Rightarrow> Some (Inl e, sc, w)
         | Some (Inr _, sc, w) \<Rightarrow>
             Some (Inr (), sc, if is_data \<and> data \<noteq> [] then stdout_flush U w else w))"

fun serial_read_loop :: "'w uart \<Rightarrow> u8 \<Rightarrow> nat \<Rightarrow> 'w \<Rightarrow> bytes \<times> 'w" where
  "serial_read_loop U offset 0 w = ([], w)"
| "serial_read_loop U offset (Suc n) w =
     (let (b, w) = u_read U offset w; (bs, w) = serial_read_loop U offset n w in (b # bs, w))"

definition serial_bus_read ::
  "'w uart \<Rightarrow> 'w evfd \<Rightarrow> u16 \<Rightarrow> bytes \<Rightarrow> SerialConsole \<Rightarrow> 'w \<Rightarrow> bytes \<times> 'w" where
  "serial_bus_read U E port data sc w =
     (let offset = ucast (port - SERIAL_PORT_BASE) :: u8;
          (bs, w) = serial_read_loop U offset (length data) w
      in (bs, if offset = 0 then notify_rx_space U E sc w else w))"

partial_function (option) drain_loop ::
  "'w uart \<Rightarrow> bool \<Rightarrow> 'w \<Rightarrow> ((error, bool) result \<times> bool \<times> 'w) option" where
  "drain_loop U ready w =
     (let capacity = u_capacity U w
      in if capacity = 0 then Some (Inr ready, ready, w)
         else
           (case stdin_read U (min capacity 64) w of
             (Inr bs, w) \<Rightarrow>
               if bs = [] then Some (Inr False, False, w)
               else (case enqueue_rx U bs w of
                       (Inl e, w) \<Rightarrow> Some (Inl e, ready, w)
                     | (Inr _, w) \<Rightarrow> drain_loop U ready w)
           | (Inl e, w) \<Rightarrow>
               if e = EAGAIN then Some (Inr ready, ready, w)
               else if e = EINTR then drain_loop U ready w
               else Some (Inl (Serial (MsgIo '''' (Os e))), ready, w)))"

definition drain_stdin ::
  "'w uart \<Rightarrow> 'w evfd \<Rightarrow> SerialConsole \<Rightarrow> 'w \<Rightarrow> ((error, DrainStatus) result \<times> SerialConsole \<times> 'w) option" where
  "drain_stdin U E sc w =
     (case serial_flush_rx U (sc_pending_rx sc) w of
       None \<Rightarrow> None
     | Some (Inl e, pending, w) \<Rightarrow> Some (Inl e, sc\<lparr>sc_pending_rx := pending\<rparr>, w)
     | Some (Inr _, pending, w) \<Rightarrow>
         (let sc = sc\<lparr>sc_pending_rx := pending\<rparr>
          in case reassert_rx_irq U E sc w of
               (Inl e, w) \<Rightarrow> Some (Inl e, sc, w)
             | (Inr _, w) \<Rightarrow>
                 if \<not> sc_stdin_ready sc
                 then Some (Inr \<lparr>stdin_open = False, fifo_has_space = u_capacity U w > 0\<rparr>, sc, w)
                 else
                   (case drain_loop U (sc_stdin_ready sc) w of
                     None \<Rightarrow> None
                   | Some (Inl e, ready, w) \<Rightarrow> Some (Inl e, sc\<lparr>sc_stdin_ready := ready\<rparr>, w)
                   | Some (Inr _, ready, w) \<Rightarrow>
                       Some (Inr \<lparr>stdin_open = ready, fifo_has_space = u_capacity U w > 0\<rparr>,
                             sc\<lparr>sc_stdin_ready := ready\<rparr>, w))))"

section \<open>The port I/O bus (pio\_bus.rs)\<close>

record PioBus =
  pio_serial :: SerialConsole
  pio_legacy :: LegacyIo

definition pio_read ::
  "'w uart \<Rightarrow> 'w evfd \<Rightarrow> PioBus \<Rightarrow> u16 \<Rightarrow> bytes \<Rightarrow> 'w \<Rightarrow> bytes \<times> 'w" where
  "pio_read U E b port data w =
     (if serial_handles_port port then serial_bus_read U E port data (pio_serial b) w
      else if legacy_handles_port port then (legacy_bus_read (pio_legacy b) port data, w)
      else (replicate (length data) 0xff, w))"

definition pio_write ::
  "'w uart \<Rightarrow> 'w evfd \<Rightarrow> PioBus \<Rightarrow> u16 \<Rightarrow> bytes \<Rightarrow> 'w \<Rightarrow> ((error, PowerAction) result \<times> PioBus \<times> 'w) option" where
  "pio_write U E b port data w =
     (if serial_handles_port port then
        (case serial_bus_write U E port data (pio_serial b) w of
          None \<Rightarrow> None
        | Some (Inl e, sc, w) \<Rightarrow> Some (Inl e, b\<lparr>pio_serial := sc\<rparr>, w)
        | Some (Inr _, sc, w) \<Rightarrow> Some (Inr NoAction, b\<lparr>pio_serial := sc\<rparr>, w))
      else if legacy_handles_port port then
        (let (a, l) = legacy_bus_write (pio_legacy b) port data in Some (Inr a, b\<lparr>pio_legacy := l\<rparr>, w))
      else Some (Inr NoAction, b, w))"

section \<open>Cursor position queries\<close>

text \<open>The query \<^verbatim>\<open>ESC [ 6 n\<close>, and how often it is completed by \<open>data\<close> after the bytes \<open>h\<close>.\<close>

definition DSR_QUERY :: bytes where "DSR_QUERY = [0x1b, 0x5b, 0x36, 0x6e]"

fun queries :: "bytes \<Rightarrow> bytes \<Rightarrow> nat" where
  "queries h [] = 0"
| "queries h (b # data) = (if suffix DSR_QUERY (h @ [b]) then 1 else 0) + queries (h @ [b]) data"

definition dsr_state :: "bytes \<Rightarrow> DsrProbe" where
  "dsr_state h = foldl (\<lambda>p b. fst (dsr_next p b)) DsrIdle h"

lemma dsr_state_snoc: "dsr_state (h @ [b]) = fst (dsr_next (dsr_state h) b)"
  by (simp add: dsr_state_def)

lemma suffix_two: "suffix [a, b] (h @ [x]) \<longleftrightarrow> x = b \<and> suffix [a] h"
  and suffix_three: "suffix [a, b, c] (h @ [x]) \<longleftrightarrow> x = c \<and> suffix [a, b] h"
  and suffix_four: "suffix [a, b, c, d] (h @ [x]) \<longleftrightarrow> x = d \<and> suffix [a, b, c] h"
  and suffix_one: "suffix [a] (h @ [x]) \<longleftrightarrow> x = a"
  using snoc_suffix_snoc [of "[]" a h x] snoc_suffix_snoc [of "[a]" b h x]
    snoc_suffix_snoc [of "[a, b]" c h x] snoc_suffix_snoc [of "[a, b, c]" d h x] by auto

lemma dsr_state_eq:
  "dsr_state h =
     (if suffix [0x1b, 0x5b, 0x36] h then DsrSix else if suffix [0x1b, 0x5b] h then DsrBracket
      else if suffix [0x1b] h then DsrEsc else DsrIdle)"
proof (induction h rule: rev_induct)
  case Nil
  then show ?case by (simp add: dsr_state_def)
next
  case (snoc b h)
  have ex: "suffix [0x1b, 0x5b, 0x36] h \<Longrightarrow> \<not> suffix [0x1b, 0x5b] h \<and> \<not> suffix [0x1b] h"
      "suffix [0x1b, 0x5b] h \<Longrightarrow> \<not> suffix [0x1b] h"
    by (cases h rule: rev_cases; simp add: suffix_one suffix_two suffix_three)+
  show ?case
    unfolding dsr_state_snoc snoc.IH suffix_one suffix_two suffix_three using ex by (auto simp: dsr_next_def)
qed

lemma dsr_complete: "snd (dsr_next (dsr_state h) b) \<longleftrightarrow> suffix DSR_QUERY (h @ [b])"
  unfolding dsr_state_eq DSR_QUERY_def suffix_four by (auto simp: dsr_next_def)

text \<open>
  What is relied on: \<open>rx\<close> reads off the world the bytes the host ever put into the receive
  FIFO, which only \<^verbatim>\<open>enqueue_raw_bytes\<close> extends, by as many bytes as it reports.
\<close>

definition rx_law :: "'w uart \<Rightarrow> 'w evfd \<Rightarrow> ('w \<Rightarrow> bytes) \<Rightarrow> bool" where
  "rx_law U E rx \<longleftrightarrow>
     (\<forall>off b w r w'. u_write U off b w = (r, w') \<longrightarrow> rx w' = rx w) \<and>
     (\<forall>bs w k w'. u_enqueue U bs w = (Inr k, w') \<longrightarrow> k \<le> length bs \<and> rx w' = rx w @ take k bs) \<and>
     (\<forall>bs w e w'. u_enqueue U bs w = (Inl e, w') \<longrightarrow> rx w' = rx w) \<and>
     (\<forall>fd v w. rx (snd (ev_write E fd v w)) = rx w) \<and> (\<forall>w. rx (stdout_flush U w) = rx w)"

lemma rx_ev_write: "rx_law U E rx \<Longrightarrow> ev_write E fd v w = (r, w') \<Longrightarrow> rx w' = rx w"
  unfolding rx_law_def by (metis snd_conv)

lemma write_uart_rx:
  assumes "write_uart U off b w = Some y" and "rx_law U E rx"
  shows "rx (snd y) = rx w"
  using assms
proof (induction rule: write_uart.raw_induct [rotated, consumes 1, case_names step])
  case (step rec U off b w y)
  obtain r w1 where r: "u_write U off b w = (r, w1)" by (rule prod.exhaust)
  then have "rx w1 = rx w" using step.prems unfolding rx_law_def by blast
  then show ?case
    using step r by (auto split: sum.splits uart_error.splits if_splits)
qed

lemma serial_flush_rx_keeps:
  assumes "serial_flush_rx U p w = Some y" and "rx_law U E rx"
  shows "rx (snd (snd y)) @ fst (snd y) = rx w @ p"
  using assms
proof (induction rule: serial_flush_rx.raw_induct [rotated, consumes 1, case_names step])
  case (step rec U p w y)
  let ?n = "min (u_capacity U w) (length p)"
  obtain r w1 where r: "u_enqueue U (take ?n p) w = (r, w1)" by (rule prod.exhaust)
  show ?case
  proof (cases r)
    case (Inl e)
    then have "rx w1 = rx w" using r step.prems unfolding rx_law_def by blast
    then show ?thesis using step.hyps r Inl by (auto simp: Let_def split: if_splits)
  next
    case (Inr k)
    then have "k \<le> length (take ?n p) \<and> rx w1 = rx w @ take k (take ?n p)"
      using r step.prems unfolding rx_law_def by blast
    moreover have "length (take ?n p) = ?n" by simp
    ultimately have k: "k \<le> ?n" "rx w1 = rx w @ take k p"
      by (simp_all only: take_take min.absorb1)
    show ?thesis
    proof (cases "p = [] \<or> u_capacity U w = 0")
      case True
      then show ?thesis using step.hyps by (auto simp: Let_def split: if_splits)
    next
      case False
      then have "rec U (drop k p) w1 = Some y"
        using step.hyps r Inr k(1) by (auto simp: Let_def split: if_splits)
      from step.IH [OF this step.prems] k(2) show ?thesis by simp
    qed
  qed
qed

lemma observe_guest_tx_spec:
  assumes law: "rx_law U E rx" and p: "sc_dsr_probe sc = dsr_state h"
    and ok: "observe_guest_tx U E b sc w = Some (Inr (), sc', w')"
  shows "sc_dsr_probe sc' = dsr_state (h @ [b]) \<and> sc_dsr_auto_reply sc' = sc_dsr_auto_reply sc \<and>
    rx w' @ sc_pending_rx sc' = rx w @ sc_pending_rx sc @
      (if suffix DSR_QUERY (h @ [b]) \<and> sc_dsr_auto_reply sc then DSR_REPLY else [])"
proof -
  obtain p' c where n: "dsr_next (sc_dsr_probe sc) b = (p', c)" by (rule prod.exhaust)
  have pc: "p' = dsr_state (h @ [b])" "c \<longleftrightarrow> suffix DSR_QUERY (h @ [b])"
    using n p dsr_complete [of h b] by (simp_all add: dsr_state_snoc)
  show ?thesis
  proof (cases "c \<and> sc_dsr_auto_reply sc")
    case False
    then show ?thesis using ok n pc by (auto simp: observe_guest_tx_def)
  next
    case True
    then obtain q w1 w2 where f: "serial_flush_rx U (sc_pending_rx sc @ DSR_REPLY) w = Some (Inr (), q, w1)"
        and i: "reassert_rx_irq U E (sc\<lparr>sc_pending_rx := q\<rparr>) w1 = (Inr (), w2)"
        and e: "sc' = sc\<lparr>sc_pending_rx := q, sc_dsr_probe := p'\<rparr>" "w' = notify_rx_space U E (sc\<lparr>sc_pending_rx := q\<rparr>) w2"
      using ok n by (auto simp: observe_guest_tx_def Let_def split: option.splits sum.splits prod.splits)
    have "rx w1 @ q = rx w @ sc_pending_rx sc @ DSR_REPLY"
      using serial_flush_rx_keeps [OF f law] by simp
    moreover have "rx w2 = rx w1"
      using i rx_ev_write [OF law] by (auto simp: reassert_rx_irq_def split: if_splits prod.splits sum.splits)
    moreover have "rx w' = rx w2"
      unfolding e(2) notify_rx_space_def using law by (simp add: rx_law_def)
    ultimately show ?thesis using True pc e(1) by simp
  qed
qed

lemma serial_write_loop_spec:
  assumes law: "rx_law U E rx" and "sc_dsr_probe sc = dsr_state h"
    and "serial_write_loop U E 0 data sc w = Some (Inr (), sc', w')"
  shows "sc_dsr_probe sc' = dsr_state (h @ data) \<and>
    rx w' @ sc_pending_rx sc' = rx w @ sc_pending_rx sc @
      concat (replicate (if sc_dsr_auto_reply sc then queries h data else 0) DSR_REPLY)"
  using assms(2,3)
proof (induction data arbitrary: h sc w)
  case Nil
  then show ?case by simp
next
  case (Cons b data)
  then obtain w1 sc2 w2 where s: "write_uart U 0 b w = Some (Inr (), w1)"
      "observe_guest_tx U E b sc w1 = Some (Inr (), sc2, w2)"
      "serial_write_loop U E 0 data sc2 w2 = Some (Inr (), sc', w')"
    by (auto split: option.splits sum.splits prod.splits)
  note o = observe_guest_tx_spec [OF law Cons.prems(1) s(2)]
  note w = write_uart_rx [OF s(1) law]
  have i: "sc_dsr_probe sc' = dsr_state ((h @ [b]) @ data)"
      "rx w' @ sc_pending_rx sc' = (rx w2 @ sc_pending_rx sc2) @
        concat (replicate (if sc_dsr_auto_reply sc then queries (h @ [b]) data else 0) DSR_REPLY)"
    using Cons.IH [OF _ s(3), of "h @ [b]"] o by (simp_all del: suffix_snoc)
  have "rx w2 @ sc_pending_rx sc2 = rx w @ sc_pending_rx sc @
      (if suffix DSR_QUERY (h @ [b]) \<and> sc_dsr_auto_reply sc then DSR_REPLY else [])"
    using o w by (simp del: suffix_snoc)
  with i show ?case
    by (cases "suffix DSR_QUERY (h @ [b])"; cases "sc_dsr_auto_reply sc") (simp_all del: suffix_snoc)
qed


lemma loopback_flush_hangs:
  assumes "p \<noteq> []" and "0 < u_capacity U w" and "\<And>bs. u_enqueue U bs w = (Inr 0, w)"
  shows "serial_flush_rx U p w = None"
proof (rule ccontr)
  assume "serial_flush_rx U p w \<noteq> None"
  then obtain y where "serial_flush_rx U p w = Some y" by blast
  then show False
    using assms
  proof (induction rule: serial_flush_rx.raw_induct [rotated, consumes 1, case_names step])
    case (step rec U p w y)
    then have "rec U p w = Some y" by (auto simp: Let_def)
    from step.IH [OF this step.prems] show False .
  qed
qed

text \<open>
  What is relied on for the loopback mode: \<open>lp\<close> tells that the UART is in that mode. It then
  takes no byte from the host and reports success with zero bytes, and a byte written by the
  guest takes at most one place of the receive FIFO.
\<close>

definition loopback_law :: "'w uart \<Rightarrow> ('w \<Rightarrow> bool) \<Rightarrow> bool" where
  "loopback_law U lp \<longleftrightarrow>
     (\<forall>w. lp w \<longrightarrow> (\<forall>bs. u_enqueue U bs w = (Inr 0, w)) \<and>
        (\<forall>b. \<exists>w'. u_write U 0 b w = (Inr (), w') \<and> lp w' \<and> u_capacity U w \<le> Suc (u_capacity U w')))"

lemma loopback_write:
  assumes "loopback_law U lp" and "lp w"
  obtains w' where "write_uart U 0 b w = Some (Inr (), w')" and "lp w'"
    and "u_capacity U w \<le> Suc (u_capacity U w')"
proof -
  obtain w' where "u_write U 0 b w = (Inr (), w')" "lp w'" "u_capacity U w \<le> Suc (u_capacity U w')"
    using assms unfolding loopback_law_def by blast
  then show thesis by (intro that [of w']) (simp_all add: write_uart.simps)
qed

text \<open>
  C38. A guest can stop a vCPU thread for good, with the console locked: when the UART is in
  loopback mode with room for more than four bytes, and the console answers cursor queries by
  itself, writing the query to the data port never returns, whatever was written before.
\<close>

theorem loopback_query_hangs:
  assumes law: "loopback_law U lp" and lp: "lp w" and cap: "4 < u_capacity U w"
    and auto: "sc_dsr_auto_reply (pio_serial b)"
  shows "pio_write U E b SERIAL_PORT_BASE DSR_QUERY w = None"
proof -
  let ?sc = "pio_serial b"
  obtain w1 where w1: "write_uart U 0 0x1b w = Some (Inr (), w1)" "lp w1"
      "u_capacity U w \<le> Suc (u_capacity U w1)"
    by (rule loopback_write [OF law lp])
  obtain w2 where w2: "write_uart U 0 0x5b w1 = Some (Inr (), w2)" "lp w2"
      "u_capacity U w1 \<le> Suc (u_capacity U w2)"
    by (rule loopback_write [OF law w1(2)])
  obtain w3 where w3: "write_uart U 0 0x36 w2 = Some (Inr (), w3)" "lp w3"
      "u_capacity U w2 \<le> Suc (u_capacity U w3)"
    by (rule loopback_write [OF law w2(2)])
  obtain w4 where w4: "write_uart U 0 0x6e w3 = Some (Inr (), w4)" "lp w4"
      "u_capacity U w3 \<le> Suc (u_capacity U w4)"
    by (rule loopback_write [OF law w3(2)])
  have "serial_flush_rx U (sc_pending_rx ?sc @ DSR_REPLY) w4 = None"
    using law w1(3) w2(3) w3(3) w4(2,3) cap
    by (intro loopback_flush_hangs) (auto simp: loopback_law_def DSR_REPLY_def)
  then have "serial_write_loop U E 0 DSR_QUERY ?sc w = None"
    using auto by (simp add: DSR_QUERY_def w1(1) w2(1) w3(1) w4(1) observe_guest_tx_def dsr_next_def)
  then show ?thesis
    by (simp add: pio_write_def serial_handles_port_def serial_bus_write_def Let_def
        SERIAL_PORT_BASE_def SERIAL_PORT_SIZE_def)
qed

section \<open>A concrete console\<close>

text \<open>The world holds the bytes put into the FIFO, which is emptied at once, and the loopback bit.\<close>

definition sim_uart :: "(bytes \<times> bool) uart" where
  "sim_uart =
     \<lparr>u_write = (\<lambda>off b w. (Inr (), w)), u_read = (\<lambda>off w. (0, w)), u_capacity = (\<lambda>w. 16),
      u_enqueue = (\<lambda>bs w. if snd w then (Inr 0, w) else (Inr (length bs), (fst w @ bs, snd w))),
      stdout_flush = (\<lambda>w. w), stdin_read = (\<lambda>n w. (Inl EAGAIN, w))\<rparr>"

definition sim_serial_ev :: "(bytes \<times> bool) evfd" where
  "sim_serial_ev = \<lparr>ev_new = (\<lambda>w. (Inr 0, w)), ev_clone = (\<lambda>fd w. (Inr fd, w)),
     ev_write = (\<lambda>fd v w. (Inr (), w)), ev_read = (\<lambda>fd w. (Inr 0, w))\<rparr>"

definition sim_console :: SerialConsole where
  "sim_console = \<lparr>sc_irq_fd = 1, sc_rx_space_fd = 2, sc_stdin_ready = True, sc_dsr_probe = DsrIdle,
     sc_pending_rx = [], sc_dsr_auto_reply = True\<rparr>"

declare write_uart.simps [code] serial_flush_rx.simps [code]

lemma sim_rx_law: "rx_law sim_uart sim_serial_ev fst"
  by (auto simp: rx_law_def sim_uart_def sim_serial_ev_def)


lemma sim_loopback_law: "loopback_law sim_uart snd"
  by (auto simp: loopback_law_def sim_uart_def)

theorem loopback_query_hangs_witness:
  "pio_write sim_uart sim_serial_ev \<lparr>pio_serial = sim_console, pio_legacy = LegacyIo_new\<rparr>
     SERIAL_PORT_BASE DSR_QUERY ([], True) = None"
  by (rule loopback_query_hangs [OF sim_loopback_law]) (simp_all add: sim_uart_def sim_console_def)

end
