(* ===== verification/Spec2Isabelle.thy ===== *)
theory Spec2Isabelle
  imports VirtioBlkProps VirtioNetProps VsockMuxReturn VsockMuxGuest VirtioMmio VirtioVsockSystem
    Cmdline VcpuProps Acpi Serial
begin

text \<open>
  A verification development for kitsune, a virtual machine monitor for Linux guests on KVM
  (\<^verbatim>\<open>src/src\<close>). A virtual machine has RAM from address 0 up to at most \<open>0xd0000000\<close>, up to 32
  vCPUs, a serial console and the legacy power ports on the port I/O bus, and up to three
  virtio-mmio devices (disk, network, vsock) whose register windows follow the RAM limit. Each
  virtio device has a worker thread that serves its queues; the vCPU threads reach the
  devices through register accesses only.

  \<^bold>\<open>How the code is modelled.\<close> A structure of the source is a \<^verbatim>\<open>record\<close>, an enumeration a
  \<^verbatim>\<open>datatype\<close>, a machine integer a word of its width, so that additions wrap as they do in a
  release build. A function that changes state takes the state and returns it; \<^verbatim>\<open>Result\<close> is a
  sum with the error on the left, and each \<open>?\<close> of the source is \<open>try_then\<close> or \<open>and_then\<close>. A loop
  whose end depends on the environment is a \<^verbatim>\<open>partial_function (option)\<close>, for which \<open>None\<close> means
  that it does not return or that the code panics; no fuel is used, and that such loops return
  is proved (\<^verbatim>\<open>loop_returns\<close> in \<^verbatim>\<open>Prelude\<close>). The world is split into what the guest owns (memory and
  queues) and what the host owns (descriptors, sockets, files). Code of other crates and the
  operating system is a record of functions, an argument of the definitions that call it; what
  is relied on is a named predicate on that record (\<open>gmem_laws\<close>, \<open>queue_log\<close>, \<open>file_law\<close>,
  \<open>stream_law\<close>, \<open>loader laws\<close> and others), and every property with such a hypothesis has a witness
  with a concrete record that satisfies it.

  \<^bold>\<open>Theories and what they show.\<close>

  \<^item> \<^verbatim>\<open>Prelude\<close>: integers, results, loops, little-endian bytes, decimal text.
  \<^item> \<^verbatim>\<open>Config\<close> (\<^verbatim>\<open>error.rs\<close>, \<^verbatim>\<open>config.rs\<close>, \<^verbatim>\<open>memory.rs\<close>): error values, the configuration and the guest
    RAM range. \<^verbatim>\<open>GuestMem\<close>: guest memory as a parameter, its laws and a flat memory that has them.
  \<^item> \<^verbatim>\<open>Gdt\<close> (\<^verbatim>\<open>gdt.rs\<close>): descriptors pack and unpack without loss, and the boot tables are in memory
    where the processor is told they are.
  \<^item> \<^verbatim>\<open>Boot\<close> (\<^verbatim>\<open>boot.rs\<close>): the ramdisk is placed exactly when it fits, and a kernel that is reported
    ready finds its command line, ramdisk and boot structures intact under both protocols.
  \<^item> \<^verbatim>\<open>Vcpu\<close>, \<^verbatim>\<open>VcpuProps\<close> (\<^verbatim>\<open>vcpu.rs\<close>): the boot page tables translate RAM to itself, by a walk as the
    processor does it, and the CPUID leaves of all vCPUs describe one consistent topology.
  \<^item> \<^verbatim>\<open>Cmdline\<close> (\<^verbatim>\<open>cmdline.rs\<close>): the command line is the given one followed by the missing tokens.
  \<^item> \<^verbatim>\<open>LegacyIo\<close> (\<^verbatim>\<open>legacy_io.rs\<close>): which port writes end the run, and that status reads are ready.
  \<^item> \<^verbatim>\<open>Acpi\<close> (\<^verbatim>\<open>acpi.rs\<close>): what the ACPI tables say, and that they are in guest memory, disjoint and
    pointing to each other. The bytes of a table are made by the \<^verbatim>\<open>acpi_tables\<close> crate, a parameter.
  \<^item> \<^verbatim>\<open>Serial\<close> (\<^verbatim>\<open>serial.rs\<close>, \<^verbatim>\<open>pio_bus.rs\<close>): the console over the UART of the \<^verbatim>\<open>vm_superio\<close> crate, and the
    port I/O bus; every cursor query is answered once, and a UART in loopback mode makes the
    answer hang.
  \<^item> \<^verbatim>\<open>Virtq\<close>, \<^verbatim>\<open>QueueOps\<close>: virtqueues of the \<^verbatim>\<open>virtio_queue\<close> crate as a parameter, with a log of the
    chains taken and given back. \<^verbatim>\<open>VirtioMmio\<close> (\<^verbatim>\<open>virtio_mmio.rs\<close>): the registers, feature
    negotiation, reset and queue selection. \<^verbatim>\<open>MmioDevice\<close> (\<^verbatim>\<open>mmio_device.rs\<close>): kinds and windows.
  \<^item> \<^verbatim>\<open>VirtioDev\<close> (\<^verbatim>\<open>virtio_dev.rs\<close>): the shell that the three devices share, as a locale that each of
    them interprets, and the worker slot as a step relation with at most one worker.
  \<^item> \<^verbatim>\<open>BlkDisk\<close>, \<^verbatim>\<open>BlkDiskProps\<close>, \<^verbatim>\<open>VirtioBlk\<close>, \<^verbatim>\<open>VirtioBlkProps\<close> (\<^verbatim>\<open>virtio_blk.rs\<close>): the three ways of disk
    transfer are one and the same transfer; what was written is read back; a request is
    answered as an abstract disk answers it; serving the queue ends with every chain returned.
  \<^item> \<^verbatim>\<open>VirtioNet\<close>, \<^verbatim>\<open>VirtioNetProps\<close> (\<^verbatim>\<open>virtio_net.rs\<close>): both queues with the held frames; chains are
    returned and the guest interrupted, also when a step fails.
  \<^item> \<^verbatim>\<open>VsockMux\<close>, \<^verbatim>\<open>VsockMuxInv\<close>, \<^verbatim>\<open>VsockMuxProps\<close>, \<^verbatim>\<open>VsockMuxGuest\<close>, \<^verbatim>\<open>VsockMuxReturn\<close>
    (\<^verbatim>\<open>vsock_mux.rs\<close>): an invariant of credits, buffers and queues over every operation, the order
    and completeness of both byte streams, the answers to bad packets, and termination.
  \<^item> \<^verbatim>\<open>VirtioVsock\<close>, \<^verbatim>\<open>VirtioVsockProps\<close>, \<^verbatim>\<open>VirtioVsockSystem\<close> (\<^verbatim>\<open>virtio_vsock.rs\<close>): the three queues, and
    the whole device as a transition system of guest, worker and host.

  \<^bold>\<open>Bounds.\<close> Hypotheses such as \<open>sz m \<le> 0xd0000000\<close> (the RAM limit that \<open>validate_mem_size\<close>
  enforces), at most 32 vCPUs (\<open>MAX_VCPUS\<close>) and lengths below \<open>2 ^ 64\<close> are those of the program; the
  page tables have room for 21 directories below the command line, which is 21 GiB.

  \<^bold>\<open>Not modelled.\<close> The text of displayed errors and of log lines; the tests; threads, locks and
  signal handlers, whose effect appears as the interleaving of steps where it matters; the
  setup of the host terminal and the thread that polls the standard input (\<^verbatim>\<open>serial.rs\<close>), which
  only call the operating system; the VM and its run loop (\<^verbatim>\<open>vmm.rs\<close>) and the command line
  interface (\<^verbatim>\<open>main.rs\<close>, \<^verbatim>\<open>lib.rs\<close>), which call KVM and the parts above.
\<close>

end
